theory Spec2Isabelle
  imports Complex_Main
begin

section \<open>Python and numpy values\<close>

text \<open>
  The embedding follows \<^verbatim>\<open>src/rtlobs/collect.py\<close>. A Python float or numpy
  float64 is the real number it stands for. The measured values (powers,
  spectra, frequencies) are computed over the reals; the floating-point
  operations whose result decides a branch, an error or the length of a loop
  are rounded to binary64 (\<open>float64\<close> below). numpy's division by zero raises
  nothing and yields \<open>inf\<close> or \<open>nan\<close>: such a value is \<open>NonFinite\<close>. Python's
  own division by zero raises \<open>ZeroDivisionError\<close>. Python integers are \<open>int\<close>.
\<close>

datatype error = AssertionError | ZeroDivisionError | ValueError

datatype npfloat = Fin real | NonFinite

text \<open>Python's \<^verbatim>\<open>int(x)\<close> on a float truncates towards zero.\<close>

definition py_int :: "real \<Rightarrow> int" where
  "py_int x = (if 0 \<le> x then \<lfloor>x\<rfloor> else \<lceil>x\<rceil>)"

text \<open>\<^verbatim>\<open>range(n)\<close>: empty when \<open>n \<le> 0\<close>.\<close>

definition py_range :: "int \<Rightarrow> int list" where
  "py_range n = map int [0 ..< nat n]"

text \<open>
  IEEE 754 binary64 arithmetic returns the float nearest to the exact result,
  ties to the even significand. \<open>rne\<close> rounds a real to the nearest integer in
  that way; \<open>float64 x\<close> rounds \<open>x\<close> to 53 significant bits: when
  \<open>2 powr e \<le> \<bar>x\<bar> < 2 powr (e + 1)\<close> for the integer \<open>e\<close>, the floats around \<open>x\<close> are
  the integer multiples of \<open>2 powr (e - 52)\<close>. The exponent is not bounded:
  overflow to \<open>inf\<close> and gradual underflow are outside the model. A float
  literal of the source or of a call, such as \<^verbatim>\<open>0.2\<close>, is \<open>float64 (1 / 5)\<close>.
\<close>

definition rne :: "real \<Rightarrow> int" where
  "rne x = (let f = \<lfloor>x\<rfloor>; r = x - of_int f
            in if r < 1 / 2 then f else if 1 / 2 < r then f + 1
               else if even f then f else f + 1)"

definition float64 :: "real \<Rightarrow> real" where
  "float64 x = (if x = 0 then 0
     else let u = 2 powr (of_int \<lfloor>log 2 \<bar>x\<bar>\<rfloor> - 52) in of_int (rne (x / u)) * u)"

section \<open>The receiver and the record of external calls\<close>

text \<open>
  Every call that leaves the module is recorded in program order: the calls on
  the \<^verbatim>\<open>RtlSdr\<close> object and the calls of \<^verbatim>\<open>scipy.signal.welch\<close> with the
  arguments that vary (\<^verbatim>\<open>fs\<close>, \<^verbatim>\<open>nperseg\<close>, \<^verbatim>\<open>nfft\<close>; \<open>None\<close> where the
  keyword is not passed).
\<close>

datatype call =
    RtlSdr
  | SetRs real
  | SetFc real
  | SetGain real
  | ReadSamples int
  | ReadSamplesAsync int
  | Welch real int "int option"
  | Close

record device =
  dev_rs :: real
  dev_fc :: real
  dev_gain :: real
  nread :: nat
  calls :: "call list"

definition sdr_open :: device where
  "sdr_open = \<lparr>dev_rs = 0, dev_fc = 0, dev_gain = 0, nread = 0, calls = [RtlSdr]\<rparr>"

definition set_rs :: "real \<Rightarrow> device \<Rightarrow> device" where
  "set_rs r d = d\<lparr>dev_rs := r, calls := calls d @ [SetRs r]\<rparr>"

definition set_fc :: "real \<Rightarrow> device \<Rightarrow> device" where
  "set_fc f d = d\<lparr>dev_fc := f, calls := calls d @ [SetFc f]\<rparr>"

definition set_gain :: "real \<Rightarrow> device \<Rightarrow> device" where
  "set_gain g d = d\<lparr>dev_gain := g, calls := calls d @ [SetGain g]\<rparr>"

definition sdr_close :: "device \<Rightarrow> device" where
  "sdr_close d = d\<lparr>calls := calls d @ [Close]\<rparr>"

text \<open>
  The device keeps the sample rate, centre frequency and gain it is given and
  returns them unchanged when they are read back (\<^verbatim>\<open>sdr.rs\<close> in the
  computation of \<^verbatim>\<open>N\<close>); its calls are taken not to fail.
\<close>

text \<open>
  \<^verbatim>\<open>sdr.read_samples(num_samp)\<close>: the block that the antenna delivers depends on
  which read it is and on the centre frequency tuned at that moment; \<open>src\<close> is
  that dependency.
\<close>

definition read_samples ::
  "(nat \<Rightarrow> real \<Rightarrow> int \<Rightarrow> complex list) \<Rightarrow> int \<Rightarrow> device \<Rightarrow> complex list \<times> device" where
  "read_samples src num_samp d =
     (src (nread d) (dev_fc d) num_samp,
      d\<lparr>nread := Suc (nread d), calls := calls d @ [ReadSamples num_samp]\<rparr>)"

section \<open>Total power: \<^verbatim>\<open>run_total_power_int\<close>\<close>

text \<open>
  The callback of lines 69--75 on the pair of globals \<^verbatim>\<open>(p_tot, cnt)\<close>.
\<close>

definition p_tot_callback :: "complex list \<Rightarrow> real \<times> int \<Rightarrow> real \<times> int" where
  "p_tot_callback iq g =
     (case g of (p_tot, cnt) \<Rightarrow> (p_tot + sum_list (map (\<lambda>z. Re (z * cnj z)) iq), cnt + 1))"

text \<open>
  \<^verbatim>\<open>read_samples_async\<close> calls the callback once for each block that the
  device delivers until the read is cancelled; \<open>blocks\<close> are those blocks.
\<close>

definition read_samples_async ::
  "complex list list \<Rightarrow> int \<Rightarrow> real \<times> int \<Rightarrow> device \<Rightarrow> (real \<times> int) \<times> device" where
  "read_samples_async blocks num_samp g d =
     (foldl (\<lambda>acc iq. p_tot_callback iq acc) g blocks,
      d\<lparr>nread := nread d + length blocks, calls := calls d @ [ReadSamplesAsync num_samp]\<rparr>)"

text \<open>
  Lines 36--100. \<^verbatim>\<open>N / num_samp\<close> (lines 56 and 68) raises when \<^verbatim>\<open>num_samp\<close>
  is zero, and the effective integration time printed at line 82 divides by
  \<^verbatim>\<open>rate\<close>. At line 86 \<^verbatim>\<open>num_samp\<close> is therefore not zero, so the divisor is
  zero only when \<^verbatim>\<open>cnt\<close> is: then \<^verbatim>\<open>p_tot\<close> is still the Python float of line
  60 and the division raises. The \<^verbatim>\<open>finally\<close> clause closes the device on
  every path, a second time on the successful one.
\<close>

definition run_total_power_int ::
  "complex list list \<Rightarrow> int \<Rightarrow> real \<Rightarrow> real \<Rightarrow> real \<Rightarrow> real \<Rightarrow> (error + real) \<times> call list" where
  "run_total_power_int blocks num_samp gain rate fc t_int =
     (let sdr = set_gain gain (set_fc fc (set_rs rate sdr_open));
          N = py_int (float64 (dev_rs sdr * t_int))
      in if num_samp = 0 then (Inl ZeroDivisionError, calls (sdr_close sdr))
         else
           let (g, sdr) = read_samples_async blocks num_samp (0, 0) sdr;
               p_tot = fst g; cnt = snd g
           in if rate = 0 then (Inl ZeroDivisionError, calls (sdr_close sdr))
              else if num_samp * cnt = 0 then (Inl ZeroDivisionError, calls (sdr_close sdr))
              else (Inr (p_tot / real_of_int (num_samp * cnt)),
                    calls (sdr_close (sdr_close sdr))))"

section \<open>numpy arrays\<close>

text \<open>\<^verbatim>\<open>np.zeros(n)\<close> refuses a negative length.\<close>

definition np_zeros :: "int \<Rightarrow> error + real list" where
  "np_zeros n = (if n < 0 then Inl ValueError else Inr (replicate (nat n) 0))"

text \<open>
  \<^verbatim>\<open>a += b\<close> on one-dimensional arrays: \<open>b\<close> must have the length of \<open>a\<close>, or
  length one (it is then broadcast); any other shape raises.
\<close>

definition np_iadd :: "real list \<Rightarrow> real list \<Rightarrow> error + real list" where
  "np_iadd a b =
     (if length b = length a then Inr (map2 (+) a b)
      else if length b = 1 then Inr (map (\<lambda>x. x + hd b) a)
      else Inl ValueError)"

text \<open>\<^verbatim>\<open>np.fft.fftshift\<close> rolls a one-dimensional array by half its length.\<close>

definition fftshift :: "'a list \<Rightarrow> 'a list" where
  "fftshift xs = (let k = length xs - length xs div 2 in drop k xs @ take k xs)"

text \<open>
  numpy arithmetic with a possibly zero divisor. Only dividends, factors and
  arguments of the logarithm can be non-finite in this module, never a divisor.
\<close>

definition np_div :: "npfloat \<Rightarrow> real \<Rightarrow> npfloat" where
  "np_div a b = (case a of Fin x \<Rightarrow> (if b = 0 then NonFinite else Fin (x / b)) | NonFinite \<Rightarrow> NonFinite)"

definition np_mul :: "npfloat \<Rightarrow> npfloat \<Rightarrow> npfloat" where
  "np_mul a b = (case (a, b) of (Fin x, Fin y) \<Rightarrow> Fin (x * y) | _ \<Rightarrow> NonFinite)"

definition np_log10 :: "npfloat \<Rightarrow> npfloat" where
  "np_log10 a = (case a of Fin x \<Rightarrow> (if 0 < x then Fin (log 10 x) else NonFinite) | NonFinite \<Rightarrow> NonFinite)"

section \<open>Averaged spectrum: \<^verbatim>\<open>run_spectrum_int\<close>\<close>

text \<open>
  \<^verbatim>\<open>scipy.signal.welch\<close> is a parameter \<open>welch iq fs nperseg nfft\<close> returning
  the pair \<^verbatim>\<open>(freqs, p_xx)\<close>; \<^verbatim>\<open>get_window('hann', n)\<close> is the parameter
  \<open>get_window n\<close>.
\<close>

type_synonym welch_fn = "complex list \<Rightarrow> real \<Rightarrow> int \<Rightarrow> int option \<Rightarrow> real list \<times> real list"

type_synonym source = "nat \<Rightarrow> real \<Rightarrow> int \<Rightarrow> complex list"

text \<open>Lines 126--129.\<close>

definition spectrum_nperseg :: "int \<Rightarrow> int" where
  "spectrum_nperseg nbins = (if nbins < 256 then nbins else 256)"

text \<open>
  One pass of the loop of lines 173--177 on \<^verbatim>\<open>(freqs, p_xx_tot, cnt)\<close>; the
  loop variable is \<^verbatim>\<open>cnt\<close> itself.
\<close>

definition spectrum_step ::
  "source \<Rightarrow> welch_fn \<Rightarrow> int \<Rightarrow> int \<Rightarrow> real \<Rightarrow> int \<Rightarrow> int \<Rightarrow>
   real list \<times> real list \<times> int \<Rightarrow> device \<Rightarrow> (error + real list \<times> real list \<times> int) \<times> device" where
  "spectrum_step src welch num_samp nbins rate nperseg i st d =
     (let (iq, d) = read_samples src num_samp d;
          d = d\<lparr>calls := calls d @ [Welch rate nperseg (Some nbins)]\<rparr>;
          (freqs, p_xx) = welch iq rate nperseg (Some nbins)
      in case np_iadd (fst (snd st)) p_xx of
           Inl e \<Rightarrow> (Inl e, d)
         | Inr p_xx_tot \<Rightarrow> (Inr (freqs, p_xx_tot, i), d))"

fun spectrum_loop ::
  "source \<Rightarrow> welch_fn \<Rightarrow> int \<Rightarrow> int \<Rightarrow> real \<Rightarrow> int \<Rightarrow> int list \<Rightarrow>
   real list \<times> real list \<times> int \<Rightarrow> device \<Rightarrow> (error + real list \<times> real list \<times> int) \<times> device" where
  "spectrum_loop src welch num_samp nbins rate nperseg [] st d = (Inr st, d)"
| "spectrum_loop src welch num_samp nbins rate nperseg (i # is) st d =
     (case spectrum_step src welch num_samp nbins rate nperseg i st d of
        (Inl e, d') \<Rightarrow> (Inl e, d')
      | (Inr st', d') \<Rightarrow> spectrum_loop src welch num_samp nbins rate nperseg is st' d')"

text \<open>Lines 206--209: from averaged power spectrum to spectral density, then to dB.\<close>

definition win_factor :: "real list \<Rightarrow> npfloat" where
  "win_factor win = np_div (Fin ((sum_list win)\<^sup>2)) (sum_list (map (\<lambda>w. w * w) win))"

definition p_avg_hz :: "real list \<Rightarrow> real \<Rightarrow> npfloat list \<Rightarrow> npfloat list" where
  "p_avg_hz win rate p_avg = map (\<lambda>p. np_div (np_mul p (win_factor win)) rate) p_avg"

definition p_avg_db_hz :: "npfloat list \<Rightarrow> npfloat list" where
  "p_avg_db_hz p_hz = map (\<lambda>p. np_mul (Fin 10) (np_log10 p)) p_hz"

text \<open>
  The body of the \<^verbatim>\<open>try\<close> block, lines 135--212, without the closing of the
  device. The product of line 144 and the quotient of line 145 are floats,
  truncated by \<^verbatim>\<open>int\<close>. The effective integration time printed at line 182
  divides by \<^verbatim>\<open>rate\<close>. It returns what the loop left (\<open>freqs\<close> already shifted and
  re-centred, the accumulated sum, the count it divides by) next to the two
  results, so that the properties below can speak about them.
\<close>

definition spectrum_try ::
  "source \<Rightarrow> welch_fn \<Rightarrow> (int \<Rightarrow> real list) \<Rightarrow> int \<Rightarrow> int \<Rightarrow> real \<Rightarrow> real \<Rightarrow> real \<Rightarrow> real \<Rightarrow>
   (error + (real list \<times> npfloat list) \<times> (real list \<times> int)) \<times> device" where
  "spectrum_try src welch get_window num_samp nbins gain rate fc t_int =
     (let nperseg = spectrum_nperseg nbins;
          sdr = set_gain gain (set_fc fc (set_rs rate sdr_open));
          N = py_int (float64 (dev_rs sdr * t_int))
      in if num_samp = 0 then (Inl ZeroDivisionError, sdr)
         else
           let num_loops = py_int (float64 (real_of_int N / real_of_int num_samp)) + 1
           in case np_zeros nbins of
                Inl e \<Rightarrow> (Inl e, sdr)
              | Inr zeros \<Rightarrow>
                 (case spectrum_loop src welch num_samp nbins rate nperseg
                         (py_range num_loops) (zeros, zeros, 0) sdr of
                    (Inl e, sdr) \<Rightarrow> (Inl e, sdr)
                  | (Inr (freqs, p_xx_tot, cnt), sdr) \<Rightarrow>
                     if rate = 0 then (Inl ZeroDivisionError, sdr)
                     else
                     (let freqs = fftshift freqs;
                          p_xx_tot = fftshift p_xx_tot;
                          p_avg = map (\<lambda>p. np_div (Fin p) (real_of_int cnt)) p_xx_tot;
                          win = get_window nperseg;
                          p_hz = p_avg_hz win rate p_avg;
                          p_db = p_avg_db_hz p_hz;
                          freqs = map (\<lambda>f. f + fc) freqs
                      in (Inr ((freqs, p_db), (p_xx_tot, cnt)), sdr))))"

definition run_spectrum_int ::
  "source \<Rightarrow> welch_fn \<Rightarrow> (int \<Rightarrow> real list) \<Rightarrow> int \<Rightarrow> int \<Rightarrow> real \<Rightarrow> real \<Rightarrow> real \<Rightarrow> real \<Rightarrow>
   (error + real list \<times> npfloat list) \<times> call list" where
  "run_spectrum_int src welch get_window num_samp nbins gain rate fc t_int =
     (case spectrum_try src welch get_window num_samp nbins gain rate fc t_int of
        (Inl e, sdr) \<Rightarrow> (Inl e, calls (sdr_close sdr))
      | (Inr (res, _), sdr) \<Rightarrow> (Inr res, calls (sdr_close (sdr_close sdr))))"

section \<open>Frequency switching: \<^verbatim>\<open>run_fswitch_int\<close>\<close>

text \<open>The five variables that the loops of lines 304--319 update.\<close>

record fswitch_acc =
  freqs_on :: "real list"
  freqs_off :: "real list"
  p_xx_on :: "real list"
  p_xx_off :: "real list"
  cnt :: int

text \<open>The body of the inner loop, lines 311--319.\<close>

definition fswitch_block ::
  "source \<Rightarrow> welch_fn \<Rightarrow> int \<Rightarrow> int \<Rightarrow> real \<Rightarrow> bool \<Rightarrow> fswitch_acc \<Rightarrow> device \<Rightarrow>
   (error + fswitch_acc) \<times> device" where
  "fswitch_block src welch num_samp nbins rate tick st d =
     (let (iq, d) = read_samples src num_samp d;
          d = d\<lparr>calls := calls d @ [Welch rate nbins None]\<rparr>;
          (freqs, p_xx) = welch iq rate nbins None
      in if tick then
           (case np_iadd (p_xx_on st) p_xx of
              Inl e \<Rightarrow> (Inl e, d)
            | Inr s \<Rightarrow> (Inr (st\<lparr>freqs_on := freqs, p_xx_on := s, cnt := cnt st + 1\<rparr>), d))
         else
           (case np_iadd (p_xx_off st) p_xx of
              Inl e \<Rightarrow> (Inl e, d)
            | Inr s \<Rightarrow> (Inr (st\<lparr>freqs_off := freqs, p_xx_off := s, cnt := cnt st + 1\<rparr>), d)))"

text \<open>The inner loop \<^verbatim>\<open>for j in range(num_loops)\<close>.\<close>

fun fswitch_dwell ::
  "source \<Rightarrow> welch_fn \<Rightarrow> int \<Rightarrow> int \<Rightarrow> real \<Rightarrow> bool \<Rightarrow> int list \<Rightarrow> fswitch_acc \<Rightarrow> device \<Rightarrow>
   (error + fswitch_acc) \<times> device" where
  "fswitch_dwell src welch num_samp nbins rate tick [] st d = (Inr st, d)"
| "fswitch_dwell src welch num_samp nbins rate tick (j # js) st d =
     (case fswitch_block src welch num_samp nbins rate tick st d of
        (Inl e, d') \<Rightarrow> (Inl e, d')
      | (Inr st', d') \<Rightarrow> fswitch_dwell src welch num_samp nbins rate tick js st' d')"

text \<open>The outer loop \<^verbatim>\<open>for i in range(num_dwells)\<close>, lines 304--319.\<close>

fun fswitch_loop ::
  "source \<Rightarrow> welch_fn \<Rightarrow> int \<Rightarrow> int \<Rightarrow> real \<Rightarrow> real \<Rightarrow> real \<Rightarrow> int \<Rightarrow> int list \<Rightarrow>
   fswitch_acc \<Rightarrow> device \<Rightarrow> (error + fswitch_acc) \<times> device" where
  "fswitch_loop src welch num_samp nbins rate fc fthrow num_loops [] st d = (Inr st, d)"
| "fswitch_loop src welch num_samp nbins rate fc fthrow num_loops (i # is) st d =
     (let tick = (i mod 2 = 0);
          d = (if tick then set_fc fc d else set_fc fthrow d)
      in case fswitch_dwell src welch num_samp nbins rate tick (py_range num_loops) st d of
           (Inl e, d') \<Rightarrow> (Inl e, d')
         | (Inr st', d') \<Rightarrow>
             fswitch_loop src welch num_samp nbins rate fc fthrow num_loops is st' d')"

text \<open>
  The body of the \<^verbatim>\<open>try\<close> block up to line 338: everything before the call of
  \<^verbatim>\<open>f_throw_fold\<close>. The two sample counts of lines 277 and 279 are float
  products truncated by \<^verbatim>\<open>int\<close>; a dwell of no sample makes the division of
  line 283 raise. It returns the four arguments of that call and the state
  the loops left.
\<close>

definition fswitch_try ::
  "source \<Rightarrow> welch_fn \<Rightarrow> int \<Rightarrow> int \<Rightarrow> real \<Rightarrow> real \<Rightarrow> real \<Rightarrow> real \<Rightarrow> real \<Rightarrow> real \<Rightarrow>
   (error + (real list \<times> real list \<times> npfloat list \<times> npfloat list) \<times> fswitch_acc) \<times> device" where
  "fswitch_try src welch num_samp nbins gain rate fc fthrow t_int fswitch =
     (let sdr = set_gain gain (set_fc fc (set_rs rate sdr_open));
          N = py_int (float64 (dev_rs sdr * t_int));
          N_dwell = py_int (float64 (dev_rs sdr * float64 (1 / fswitch)))
      in if num_samp = 0 then (Inl ZeroDivisionError, sdr)
         else
           let num_loops = N_dwell div num_samp
           in if N_dwell = 0 then (Inl ZeroDivisionError, sdr)
              else
                let num_dwells = N div N_dwell
                in case np_zeros nbins of
                     Inl e \<Rightarrow> (Inl e, sdr)
                   | Inr zeros \<Rightarrow>
                      (case fswitch_loop src welch num_samp nbins rate fc fthrow num_loops
                              (py_range num_dwells)
                              \<lparr>freqs_on = zeros, freqs_off = zeros, p_xx_on = zeros,
                               p_xx_off = zeros, cnt = 0\<rparr> sdr of
                         (Inl e, sdr) \<Rightarrow> (Inl e, sdr)
                       | (Inr st, sdr) \<Rightarrow>
                          (let f_on = fftshift (freqs_on st);
                               f_off = fftshift (freqs_off st);
                               p_on = fftshift (p_xx_on st);
                               p_off = fftshift (p_xx_off st);
                               p_avg_on = map (\<lambda>p. np_div (Fin p) (real_of_int (cnt st))) p_on;
                               p_avg_off = map (\<lambda>p. np_div (Fin p) (real_of_int (cnt st))) p_off;
                               f_on = map (\<lambda>f. f + fc) f_on;
                               f_off = map (\<lambda>f. f + fthrow) f_off
                           in (Inr ((f_on, f_off, p_avg_on, p_avg_off), st), sdr))))"

text \<open>
  Lines 257--355. \<^verbatim>\<open>f_throw_fold\<close> (module \<^verbatim>\<open>post_process\<close>) is a parameter.
  The assertion of line 258 is evaluated before the device is opened; it
  compares \<^verbatim>\<open>t_int\<close> with the float \<^verbatim>\<open>2.0 * (1.0/fswitch)\<close>, and its
  \<^verbatim>\<open>1.0/fswitch\<close> raises for a zero switching rate. The warning of lines
  260--261 only prints. The division by \<^verbatim>\<open>rate\<close> in the print of line 324 cannot
  fail: a zero rate gives \<^verbatim>\<open>N_dwell = 0\<close>, which has raised at line 283.
\<close>

definition run_fswitch_int ::
  "(real list \<Rightarrow> real list \<Rightarrow> npfloat list \<Rightarrow> npfloat list \<Rightarrow> 'r) \<Rightarrow> source \<Rightarrow> welch_fn \<Rightarrow>
   int \<Rightarrow> int \<Rightarrow> real \<Rightarrow> real \<Rightarrow> real \<Rightarrow> real \<Rightarrow> real \<Rightarrow> real \<Rightarrow> (error + 'r) \<times> call list" where
  "run_fswitch_int f_throw_fold src welch num_samp nbins gain rate fc fthrow t_int fswitch =
     (if fswitch = 0 then (Inl ZeroDivisionError, [])
      else if \<not> (t_int \<ge> float64 (2 * float64 (1 / fswitch))) then (Inl AssertionError, [])
      else
        case fswitch_try src welch num_samp nbins gain rate fc fthrow t_int fswitch of
          (Inl e, sdr) \<Rightarrow> (Inl e, calls (sdr_close sdr))
        | (Inr ((f_on, f_off, p_avg_on, p_avg_off), _), sdr) \<Rightarrow>
            (Inr (f_throw_fold f_on f_off p_avg_on p_avg_off),
             calls (sdr_close (sdr_close sdr))))"

section \<open>Vocabulary for the properties\<close>

text \<open>
  With \<open>L\<close> reads in every dwell, dwell number \<open>i\<close> (from zero) makes the reads
  number \<open>i * L\<close> to \<open>i * L + L - 1\<close>; \<open>dwell_blocks\<close> are the blocks these reads
  deliver when the device is tuned to \<open>f\<close>. \<open>on_blocks\<close> collects the blocks of
  the even dwells among \<open>ds\<close>, \<open>off_blocks\<close> those of the odd ones.
\<close>

definition dwell_blocks :: "source \<Rightarrow> int \<Rightarrow> real \<Rightarrow> nat \<Rightarrow> nat \<Rightarrow> complex list list" where
  "dwell_blocks src num_samp f L i = map (\<lambda>j. src (i * L + j) f num_samp) [0 ..< L]"

definition on_blocks :: "source \<Rightarrow> int \<Rightarrow> real \<Rightarrow> nat \<Rightarrow> nat list \<Rightarrow> complex list list" where
  "on_blocks src num_samp fc L ds =
     concat (map (\<lambda>i. if even i then dwell_blocks src num_samp fc L i else []) ds)"

definition off_blocks :: "source \<Rightarrow> int \<Rightarrow> real \<Rightarrow> nat \<Rightarrow> nat list \<Rightarrow> complex list list" where
  "off_blocks src num_samp fthrow L ds =
     concat (map (\<lambda>i. if even i then [] else dwell_blocks src num_samp fthrow L i) ds)"

text \<open>
  Accumulating the periodograms of a list of blocks into a sum, and keeping the
  frequency axis of the last one, as the loops do with \<^verbatim>\<open>p_xx_tot += p_xx\<close> and
  the assignment to \<^verbatim>\<open>freqs\<close>.
\<close>

definition add_periodograms ::
  "welch_fn \<Rightarrow> real \<Rightarrow> int \<Rightarrow> int option \<Rightarrow> real list \<Rightarrow> complex list list \<Rightarrow> real list" where
  "add_periodograms welch fs nperseg nfft tot blocks =
     foldl (\<lambda>t iq. map2 (+) t (snd (welch iq fs nperseg nfft))) tot blocks"

definition last_freqs ::
  "welch_fn \<Rightarrow> real \<Rightarrow> int \<Rightarrow> int option \<Rightarrow> real list \<Rightarrow> complex list list \<Rightarrow> real list" where
  "last_freqs welch fs nperseg nfft freqs blocks =
     foldl (\<lambda>f iq. fst (welch iq fs nperseg nfft)) freqs blocks"

text \<open>
  The loop bounds as functions of the arguments: lines 144--145 for the averaged
  spectrum, lines 277--283 for frequency switching.
\<close>

definition spectrum_num_loops :: "real \<Rightarrow> real \<Rightarrow> int \<Rightarrow> int" where
  "spectrum_num_loops rate t_int num_samp =
     py_int (float64 (real_of_int (py_int (float64 (rate * t_int))) / real_of_int num_samp)) + 1"

definition fswitch_N_dwell :: "real \<Rightarrow> real \<Rightarrow> int" where
  "fswitch_N_dwell rate fswitch = py_int (float64 (rate * float64 (1 / fswitch)))"

definition fswitch_num_loops :: "real \<Rightarrow> real \<Rightarrow> int \<Rightarrow> int" where
  "fswitch_num_loops rate fswitch num_samp = fswitch_N_dwell rate fswitch div num_samp"

definition fswitch_num_dwells :: "real \<Rightarrow> real \<Rightarrow> real \<Rightarrow> int" where
  "fswitch_num_dwells rate t_int fswitch =
     py_int (float64 (rate * t_int)) div fswitch_N_dwell rate fswitch"

text \<open>The calls that one dwell at \<open>f\<close> with \<open>L\<close> reads makes.\<close>

definition dwell_calls :: "real \<Rightarrow> int \<Rightarrow> real \<Rightarrow> int \<Rightarrow> nat \<Rightarrow> call list" where
  "dwell_calls f num_samp rate nbins L =
     SetFc f # concat (replicate L [ReadSamples num_samp, Welch rate nbins None])"

definition is_retune :: "call \<Rightarrow> bool" where
  "is_retune c = (case c of SetFc f \<Rightarrow> True | _ \<Rightarrow> False)"

text \<open>
  \<^verbatim>\<open>numpy.fft.fftfreq(n, d)\<close>, the frequency axis that \<^verbatim>\<open>welch\<close> returns with
  \<^verbatim>\<open>return_onesided=False\<close> (for \<open>d = 1 / fs\<close>): bin \<open>i\<close> is \<open>i / (d n)\<close> in the
  first half and \<open>(i - n) / (d n)\<close> in the second.
\<close>

definition fftfreq :: "nat \<Rightarrow> real \<Rightarrow> real list" where
  "fftfreq n d =
     map (\<lambda>i. (if i < (n + 1) div 2 then real i else real i - real n) / (d * real n)) [0 ..< n]"

text \<open>
  A sample source and a \<^verbatim>\<open>welch\<close> to run the functions on: every sample is 1,
  every periodogram is all ones over the axis \<open>fftfreq\<close>, of length \<^verbatim>\<open>nfft\<close>
  (\<^verbatim>\<open>nperseg\<close> when \<^verbatim>\<open>nfft\<close> is not passed). The window is all ones.
\<close>

definition ones_source :: source where
  "ones_source k f num_samp = replicate (nat num_samp) 1"

definition flat_welch :: welch_fn where
  "flat_welch iq fs nperseg nfft =
     (let n = nat (case nfft of None \<Rightarrow> nperseg | Some m \<Rightarrow> m)
      in (fftfreq n (1 / fs), replicate n 1))"

text \<open>A stand-in for \<^verbatim>\<open>f_throw_fold\<close> that hands back its four arguments.\<close>

definition fold_args ::
  "real list \<Rightarrow> real list \<Rightarrow> npfloat list \<Rightarrow> npfloat list \<Rightarrow>
   real list \<times> real list \<times> npfloat list \<times> npfloat list" where
  "fold_args f_on f_off p_on p_off = (f_on, f_off, p_on, p_off)"

definition boxcar :: "int \<Rightarrow> real list" where
  "boxcar n = replicate (nat n) 1"

section \<open>Rounding to binary64\<close>

lemma rne_of_int: "rne (of_int n) = n"
  by (simp add: rne_def)

lemma rne_floor: "\<lfloor>x\<rfloor> \<le> rne x" "rne x \<le> \<lfloor>x\<rfloor> + 1"
  by (simp_all add: rne_def Let_def)

lemma rne_mono:
  assumes "x \<le> y"
  shows "rne x \<le> rne y"
proof (cases "\<lfloor>x\<rfloor> = \<lfloor>y\<rfloor>")
  case True
  then show ?thesis
    using assms by (auto simp add: rne_def Let_def)
next
  case False
  then have "\<lfloor>x\<rfloor> < \<lfloor>y\<rfloor>"
    using floor_mono [OF assms] by linarith
  then show ?thesis
    using rne_floor(2) [of x] rne_floor(1) [of y] by linarith
qed

lemma rne_near: "\<bar>x - of_int n\<bar> < 1 / 2 \<Longrightarrow> rne x = n"
proof -
  assume a: "\<bar>x - of_int n\<bar> < 1 / 2"
  show ?thesis
  proof (cases "of_int n \<le> x")
    case True
    then have "\<lfloor>x\<rfloor> = n" using a by (intro floor_unique) linarith+
    then show ?thesis using a True by (simp add: rne_def Let_def)
  next
    case False
    then have f: "\<lfloor>x\<rfloor> = n - 1" using a by (intro floor_unique) (simp; linarith)+
    show ?thesis using a False unfolding rne_def Let_def f by simp
  qed
qed

lemma binade:
  assumes "x \<noteq> 0"
  shows "2 powr of_int \<lfloor>log 2 \<bar>x\<bar>\<rfloor> \<le> \<bar>x\<bar>" "\<bar>x\<bar> < 2 powr (of_int \<lfloor>log 2 \<bar>x\<bar>\<rfloor> + 1)"
  using floor_log_eq_powr_iff [of "\<bar>x\<bar>" 2 "\<lfloor>log 2 \<bar>x\<bar>\<rfloor>"] assms by simp_all

lemma float64_eval:
  assumes "2 powr of_int e \<le> \<bar>x\<bar>" "\<bar>x\<bar> < 2 powr (of_int e + 1)"
  shows "float64 x = of_int (rne (x / 2 powr (of_int e - 52))) * 2 powr (of_int e - 52)"
proof -
  have "0 < 2 powr real_of_int e"
    by simp
  then have p: "0 < \<bar>x\<bar>"
    using assms(1) by linarith
  then have "\<lfloor>log 2 \<bar>x\<bar>\<rfloor> = e"
    using assms floor_log_eq_powr_iff [of "\<bar>x\<bar>" 2 e] by simp
  then show ?thesis
    using p by (simp add: float64_def Let_def)
qed


lemma float64_exact:
  assumes "x = of_int m * 2 powr of_int k" and "\<bar>m\<bar> < 2 ^ 53"
  shows "float64 x = x"
proof (cases "m = 0")
  case True
  then show ?thesis
    using assms(1) by (simp add: float64_def)
next
  case False
  let ?e = "\<lfloor>log 2 \<bar>x\<bar>\<rfloor>"
  have x0: "x \<noteq> 0"
    using False assms(1) by simp
  have "\<bar>x\<bar> = of_int \<bar>m\<bar> * 2 powr of_int k"
    by (simp add: assms(1) abs_mult)
  also have "\<dots> < 2 ^ 53 * 2 powr of_int k"
  proof -
    have "real_of_int \<bar>m\<bar> < real_of_int (2 ^ 53)"
      using assms(2) by (simp only: of_int_less_iff)
    then show ?thesis
      by simp
  qed
  also have "\<dots> = 2 powr (of_int k + 53)"
    by (simp add: powr_add)
  finally have "\<bar>x\<bar> < 2 powr (of_int k + 53)" .
  with binade(1) [OF x0] have "2 powr of_int ?e < (2::real) powr (of_int k + 53)"
    by linarith
  then have "real_of_int ?e < of_int k + 53"
    by simp
  then have le: "0 \<le> k - ?e + 52"
    by linarith
  have "x / 2 powr (of_int ?e - 52) = of_int m * 2 powr (of_int (k - ?e + 52))"
    by (simp add: assms(1) powr_diff powr_add)
  also have "2 powr (of_int (k - ?e + 52)) = (2::real) ^ nat (k - ?e + 52)"
    using le by (simp add: powr_realpow [symmetric])
  finally have q: "x / 2 powr (of_int ?e - 52) = of_int (m * 2 ^ nat (k - ?e + 52))"
    by simp
  have "float64 x = of_int (m * 2 ^ nat (k - ?e + 52)) * 2 powr (of_int ?e - 52)"
    using x0 unfolding float64_def Let_def q rne_of_int by simp
  also have "\<dots> = x"
    using q x0 by (metis nonzero_divide_eq_eq powr_non_neg powr_eq_0_iff zero_neq_numeral)
  finally show ?thesis .
qed

lemma float64_scale2: "float64 (2 * x) = 2 * float64 x"
proof (cases "x = 0")
  case True
  then show ?thesis by (simp add: float64_def)
next
  case False
  let ?e = "\<lfloor>log 2 \<bar>x\<bar>\<rfloor>"
  let ?u = "(2::real) powr (of_int ?e - 52)"
  have "log 2 \<bar>2 * x\<bar> = 1 + log 2 \<bar>x\<bar>"
    using False by (simp add: abs_mult log_mult)
  then have e: "\<lfloor>log 2 \<bar>2 * x\<bar>\<rfloor> = ?e + 1"
    by simp
  have u: "(2::real) powr (of_int (?e + 1) - 52) = 2 * ?u"
    by (simp add: powr_add powr_diff)
  have q: "2 * x / (2 * ?u) = x / ?u"
    by simp
  have "float64 (2 * x) = of_int (rne (2 * x / (2 * ?u))) * (2 * ?u)"
    using False unfolding float64_def Let_def e u by simp
  also have "\<dots> = 2 * (of_int (rne (x / ?u)) * ?u)"
    unfolding q by simp
  also have "\<dots> = 2 * float64 x"
    using False by (simp add: float64_def Let_def)
  finally show ?thesis .
qed

lemma float64_range:
  assumes "0 < x"
  shows "2 ^ 52 \<le> x / 2 powr (of_int \<lfloor>log 2 \<bar>x\<bar>\<rfloor> - 52)"
    and "x / 2 powr (of_int \<lfloor>log 2 \<bar>x\<bar>\<rfloor> - 52) < 2 ^ 53"
proof -
  let ?e = "\<lfloor>log 2 \<bar>x\<bar>\<rfloor>"
  have x0: "x \<noteq> 0" using assms by simp
  have a: "2 powr of_int ?e \<le> x" "x < 2 powr (of_int ?e + 1)"
    using binade [OF x0] assms by simp_all
  have d: "x / 2 powr (of_int ?e - 52) = x / 2 powr of_int ?e * 2 ^ 52"
    by (simp add: powr_diff)
  have "1 \<le> x / 2 powr of_int ?e"
    using a(1) by (simp add: le_divide_eq)
  then have "1 * 2 ^ 52 \<le> x / 2 powr of_int ?e * 2 ^ 52"
    by (intro mult_right_mono) simp_all
  then show "2 ^ 52 \<le> x / 2 powr (of_int ?e - 52)"
    unfolding d by simp
  have "x / 2 powr of_int ?e < 2"
    using a(2) by (simp add: divide_less_eq powr_add)
  then have "x / 2 powr of_int ?e * 2 ^ 52 < 2 * 2 ^ 52"
    by (intro mult_strict_right_mono) simp_all
  then show "x / 2 powr (of_int ?e - 52) < 2 ^ 53"
    unfolding d by simp
qed

lemma float64_bounds:
  assumes "0 < x"
  shows "2 powr of_int \<lfloor>log 2 \<bar>x\<bar>\<rfloor> \<le> float64 x"
    and "float64 x \<le> 2 powr (of_int \<lfloor>log 2 \<bar>x\<bar>\<rfloor> + 1)"
proof -
  let ?e = "\<lfloor>log 2 \<bar>x\<bar>\<rfloor>"
  let ?u = "(2::real) powr (of_int ?e - 52)"
  have f: "float64 x = of_int (rne (x / ?u)) * ?u"
    using assms by (simp add: float64_def Let_def)
  have "rne (of_int (2 ^ 52)) \<le> rne (x / ?u)"
    using float64_range(1) [OF assms] by (intro rne_mono) simp
  then have "2 ^ 52 \<le> rne (x / ?u)"
    by (simp only: rne_of_int)
  then have "real_of_int (2 ^ 52) \<le> of_int (rne (x / ?u))"
    by (simp only: of_int_le_iff)
  then have "real_of_int (2 ^ 52) * ?u \<le> of_int (rne (x / ?u)) * ?u"
    by (intro mult_right_mono) simp_all
  moreover have "real_of_int (2 ^ 52) * ?u = 2 powr of_int ?e"
    by (simp add: powr_diff)
  ultimately show "2 powr of_int ?e \<le> float64 x"
    unfolding f by linarith
  have "rne (x / ?u) \<le> rne (of_int (2 ^ 53))"
    using float64_range(2) [OF assms] by (intro rne_mono) simp
  then have "rne (x / ?u) \<le> 2 ^ 53"
    by (simp only: rne_of_int)
  then have "real_of_int (rne (x / ?u)) \<le> of_int (2 ^ 53)"
    by (simp only: of_int_le_iff)
  then have "of_int (rne (x / ?u)) * ?u \<le> real_of_int (2 ^ 53) * ?u"
    by (intro mult_right_mono) simp_all
  moreover have "real_of_int (2 ^ 53) * ?u = 2 powr (of_int ?e + 1)"
    by (simp add: powr_diff powr_add)
  ultimately show "float64 x \<le> 2 powr (of_int ?e + 1)"
    unfolding f by linarith
qed

lemma float64_pos: "0 < x \<Longrightarrow> 0 < float64 x"
  using float64_bounds(1) [of x] powr_gt_zero [of 2 "of_int \<lfloor>log 2 \<bar>x\<bar>\<rfloor>"] by linarith

lemma float64_mono_pos:
  assumes "0 < x" and "x \<le> y"
  shows "float64 x \<le> float64 y"
proof -
  let ?ex = "\<lfloor>log 2 \<bar>x\<bar>\<rfloor>" and ?ey = "\<lfloor>log 2 \<bar>y\<bar>\<rfloor>"
  have y: "0 < y" using assms by linarith
  have "log 2 x \<le> log 2 y"
    using assms by simp
  then have le: "?ex \<le> ?ey"
    using assms y by (simp add: floor_mono)
  show ?thesis
  proof (cases "?ex = ?ey")
    case True
    let ?u = "(2::real) powr (of_int ?ex - 52)"
    have "x / ?u \<le> y / ?u"
      using assms(2) by (simp add: divide_right_mono)
    then have "real_of_int (rne (x / ?u)) \<le> of_int (rne (y / ?u))"
      by (simp add: rne_mono)
    then have "of_int (rne (x / ?u)) * ?u \<le> of_int (rne (y / ?u)) * ?u"
      by (intro mult_right_mono) simp_all
    then show ?thesis
      using assms(1) y True by (simp add: float64_def Let_def)
  next
    case False
    then have "?ex + 1 \<le> ?ey"
      using le by linarith
    then have "real_of_int ?ex + 1 \<le> of_int ?ey"
      by linarith
    then have "(2::real) powr (of_int ?ex + 1) \<le> 2 powr of_int ?ey"
      by simp
    then show ?thesis
      using float64_bounds(2) [OF assms(1)] float64_bounds(1) [OF y] by linarith
  qed
qed

lemma float64_idem_pos:
  assumes "0 < x"
  shows "float64 (float64 x) = float64 x"
proof -
  let ?e = "\<lfloor>log 2 \<bar>x\<bar>\<rfloor>"
  let ?u = "(2::real) powr (of_int ?e - 52)"
  let ?n = "rne (x / ?u)"
  have f: "float64 x = of_int ?n * 2 powr of_int (?e - 52)"
    using assms by (simp add: float64_def Let_def)
  have "rne (x / ?u) \<le> rne (of_int (2 ^ 53))"
    using float64_range(2) [OF assms] by (intro rne_mono) simp
  then have up: "?n \<le> 2 ^ 53"
    by (simp only: rne_of_int)
  have "rne (of_int (2 ^ 52)) \<le> rne (x / ?u)"
    using float64_range(1) [OF assms] by (intro rne_mono) simp
  then have lo: "2 ^ 52 \<le> ?n"
    by (simp only: rne_of_int)
  show ?thesis
  proof (cases "?n = 2 ^ 53")
    case True
    have "float64 x = of_int 1 * 2 powr of_int (?e + 1)"
      unfolding f True by (simp add: powr_diff powr_add)
    then show ?thesis
      by (rule float64_exact) simp
  next
    case False
    then have "?n < 2 ^ 53"
      using up by (simp add: less_le)
    moreover have "0 \<le> ?n"
      using lo by (rule order_trans [rotated]) simp
    ultimately have "\<bar>?n\<bar> < 2 ^ 53"
      by (simp add: abs_of_nonneg)
    with f show ?thesis
      by (rule float64_exact)
  qed
qed

lemma float64_at:
  assumes "2 powr of_int e \<le> \<bar>x\<bar>" and "\<bar>x\<bar> < 2 powr (of_int e + 1)"
    and "\<bar>x / 2 powr (of_int e - 52) - of_int n\<bar> < 1 / 2"
  shows "float64 x = of_int n * 2 powr (of_int e - 52)"
  unfolding float64_eval [OF assms(1,2)] rne_near [OF assms(3)] ..

lemma float64_of_int: "\<bar>m\<bar> < 2 ^ 53 \<Longrightarrow> float64 (of_int m) = of_int m"
  using float64_exact [of "of_int m" m 0] by simp

lemma float64_numeral [simp]:
  "(numeral k :: int) < 9007199254740992 \<Longrightarrow> float64 (numeral k) = numeral k"
  using float64_of_int [of "numeral k"] by simp

lemma float64_0 [simp]: "float64 0 = 0"
  by (simp add: float64_def)

lemma float64_1 [simp]: "float64 1 = 1"
  using float64_of_int [of 1] by simp

lemma float64_half [simp]: "float64 (1 / 2) = 1 / 2"
  using float64_exact [of "1 / 2" 1 "- 1"] by (simp add: powr_neg_numeral powr_minus)

lemma rne_minus: "rne (- x) = - rne x"
proof (cases "x = of_int \<lfloor>x\<rfloor>")
  case True
  then obtain n where "x = of_int n" ..
  then have "rne x = n" "rne (- x) = - n"
    using rne_of_int [of n] rne_of_int [of "- n"] by simp_all
  then show ?thesis by simp
next
  case False
  then have lt: "of_int \<lfloor>x\<rfloor> < x"
    using of_int_floor_le [of x] by linarith
  have c: "\<lceil>x\<rceil> = \<lfloor>x\<rfloor> + 1"
    using False by (simp add: ceiling_altdef)
  have f: "\<lfloor>- x\<rfloor> = - \<lfloor>x\<rfloor> - 1"
    using c by (simp add: ceiling_def)
  show ?thesis
    unfolding rne_def Let_def f using lt by auto
qed

lemma float64_minus: "float64 (- x) = - float64 x"
  by (simp add: float64_def Let_def rne_minus)

lemma float64_idem: "float64 (float64 x) = float64 x"
proof -
  consider "0 < x" | "x = 0" | "x < 0" by linarith
  then show ?thesis
  proof cases
    case 1 then show ?thesis by (rule float64_idem_pos)
  next
    case 2 then show ?thesis by (simp add: float64_def)
  next
    case 3
    then have "float64 (float64 (- x)) = float64 (- x)"
      by (intro float64_idem_pos) simp
    then show ?thesis
      by (simp add: float64_minus)
  qed
qed

lemma float64_dyadic:
  assumes "\<bar>m\<bar> < 2 ^ 53"
  shows "float64 (of_int m / 2 ^ k) = of_int m / 2 ^ k"
proof -
  have "real_of_int m / 2 ^ k = of_int m * 2 powr of_int (- int k)"
    by (simp add: powr_minus powr_realpow divide_inverse)
  then show ?thesis
    using assms by (rule float64_exact)
qed

lemma float64_mono:
  assumes "x \<le> y"
  shows "float64 x \<le> float64 y"
proof -
  have z: "float64 0 = 0" by (simp add: float64_def)
  have nn: "0 \<le> float64 a" if "0 \<le> a" for a
    using that float64_pos [of a] z by (cases "a = 0") (simp_all add: less_eq_real_def)
  have np: "float64 a \<le> 0" if "a \<le> 0" for a
    using nn [of "- a"] that by (simp add: float64_minus)
  consider "0 < x" | "x \<le> 0" "0 \<le> y" | "y < 0" by linarith
  then show ?thesis
  proof cases
    case 1 then show ?thesis using assms by (rule float64_mono_pos)
  next
    case 2 then show ?thesis using nn [of y] np [of x] by linarith
  next
    case 3
    then have "float64 (- y) \<le> float64 (- x)"
      using assms by (intro float64_mono_pos) simp_all
    then show ?thesis by (simp add: float64_minus)
  qed
qed

lemma float64_nonneg: "0 \<le> x \<Longrightarrow> 0 \<le> float64 x"
  using float64_mono [of 0 x] by simp

text \<open>
  The floats of some decimal literals, and two products at 2.4 MHz.
\<close>

lemma float64_tenth: "float64 (1 / 10) = 3602879701896397 / 36028797018963968"
  using float64_at [where x = "1 / 10" and e = "- 4" and n = 7205759403792794]
  by (simp add: powr_neg_numeral powr_numeral)

lemma float64_fifth: "float64 (1 / 5) = 3602879701896397 / 18014398509481984"
  using float64_at [where x = "1 / 5" and e = "- 3" and n = 7205759403792794]
  by (simp add: powr_neg_numeral powr_numeral)

lemma float64_three_tenths: "float64 (3 / 10) = 5404319552844595 / 18014398509481984"
  using float64_at [where x = "3 / 10" and e = "- 2" and n = 5404319552844595]
  by (simp add: powr_neg_numeral powr_numeral)



lemma float64_49th: "float64 (1 / 49) = 5882252574524729 / 288230376151711744"
  using float64_at [where x = "1 / 49" and e = "- 6" and n = 5882252574524729]
  by (simp add: powr_neg_numeral powr_numeral)


section \<open>Properties of the total-power path\<close>

lemma p_tot_callback_pair:
  "p_tot_callback iq (p, c) = (p + sum_list (map (\<lambda>z. (Re z)\<^sup>2 + (Im z)\<^sup>2) iq), c + 1)"
proof -
  have "(\<lambda>z. Re (z * cnj z)) = (\<lambda>z. (Re z)\<^sup>2 + (Im z)\<^sup>2)"
    by (rule ext) (simp add: power2_eq_square)
  then show ?thesis
    by (simp add: p_tot_callback_def)
qed

lemma callback_fold:
  "foldl (\<lambda>acc iq. p_tot_callback iq acc) (p, c) blocks =
     (p + sum_list (map (\<lambda>iq. sum_list (map (\<lambda>z. (Re z)\<^sup>2 + (Im z)\<^sup>2) iq)) blocks),
      c + int (length blocks))"
proof (induction blocks arbitrary: p c)
  case Nil
  show ?case by simp
next
  case (Cons b bs)
  show ?case
    by (simp add: p_tot_callback_pair Cons.IH add.assoc)
qed

lemma sum_list_const_power:
  "\<forall>z \<in> set b. (Re z)\<^sup>2 + (Im z)\<^sup>2 = k \<Longrightarrow>
     sum_list (map (\<lambda>z. (Re z)\<^sup>2 + (Im z)\<^sup>2) b) = real (length b) * k"
  by (induction b) (simp_all add: algebra_simps)

lemma run_total_power_value:
  "fst (run_total_power_int blocks num_samp gain rate fc t_int) =
     (if num_samp = 0 \<or> rate = 0 \<or> blocks = [] then Inl ZeroDivisionError
      else Inr (sum_list (map (\<lambda>iq. sum_list (map (\<lambda>z. (Re z)\<^sup>2 + (Im z)\<^sup>2) iq)) blocks)
                  / real_of_int (num_samp * int (length blocks))))"
  by (simp add: run_total_power_int_def read_samples_async_def callback_fold Let_def)

lemma sum_list_replicate_real: "sum_list (replicate n (x::real)) = real n * x"
  by (induction n) (simp_all add: algebra_simps)

text \<open>
  Claim C9. The callback adds the block's \<open>\<Sum>(I\<^sup>2 + Q\<^sup>2)\<close> to the running total and
  increments the counter; the run returns the total divided by
  \<open>num_samp * cnt\<close> (it fails when the rate or that product is zero); for
  \<open>N \<ge> 1\<close> identical blocks of \<open>num_samp\<close> samples, each of power \<open>k\<close>, and a
  non-zero rate it returns \<open>k\<close> whatever \<open>N\<close> is.
\<close>

theorem total_power_mean:
  assumes "0 < num_samp" and "1 \<le> N" and "int (length b) = num_samp"
    and "\<forall>z \<in> set b. (Re z)\<^sup>2 + (Im z)\<^sup>2 = k" and "rate \<noteq> 0"
  shows "p_tot_callback iq (p, c) = (p + sum_list (map (\<lambda>z. (Re z)\<^sup>2 + (Im z)\<^sup>2) iq), c + 1)
       \<and> fst (run_total_power_int blocks num_samp gain rate fc t_int) =
           (let g = foldl (\<lambda>acc iq. p_tot_callback iq acc) (0, 0) blocks
            in if rate = 0 \<or> num_samp * snd g = 0 then Inl ZeroDivisionError
               else Inr (fst g / real_of_int (num_samp * snd g)))
       \<and> fst (run_total_power_int (replicate N b) num_samp gain rate fc t_int) = Inr k"
proof (intro conjI)
  show "p_tot_callback iq (p, c) = (p + sum_list (map (\<lambda>z. (Re z)\<^sup>2 + (Im z)\<^sup>2) iq), c + 1)"
    by (rule p_tot_callback_pair)
next
  show "fst (run_total_power_int blocks num_samp gain rate fc t_int) =
           (let g = foldl (\<lambda>acc iq. p_tot_callback iq acc) (0, 0) blocks
            in if rate = 0 \<or> num_samp * snd g = 0 then Inl ZeroDivisionError
               else Inr (fst g / real_of_int (num_samp * snd g)))"
    using assms(1) by (simp add: run_total_power_int_def read_samples_async_def Let_def)
next
  have len: "real (length b) = real_of_int num_samp"
    using assms(3) by (metis of_int_of_nat_eq)
  have tot: "sum_list (replicate N (sum_list (map (\<lambda>z. (Re z)\<^sup>2 + (Im z)\<^sup>2) b)))
      = real N * (real_of_int num_samp * k)"
    using sum_list_const_power [OF assms(4)]
    by (simp add: sum_list_replicate_real len)
  have nz: "real N \<noteq> 0" "real_of_int num_samp \<noteq> 0"
    using assms(1,2) by simp_all
  have "fst (run_total_power_int (replicate N b) num_samp gain rate fc t_int) =
      Inr (real N * (real_of_int num_samp * k) / real_of_int (num_samp * int N))"
    using assms(1,2,5) by (simp add: run_total_power_value tot)
  also have "real N * (real_of_int num_samp * k) / real_of_int (num_samp * int N) = k"
    using nz by simp
  finally show "fst (run_total_power_int (replicate N b) num_samp gain rate fc t_int) = Inr k" .
qed

text \<open>
  C9 at two blocks of the one sample \<open>1 + 2i\<close>, of power 5.
\<close>

theorem total_power_mean_witness:
  "fst (run_total_power_int (replicate 2 [Complex 1 2]) 1 0 1 0 2) = Inr 5"
proof -
  have h: "0 < (1::int)" "1 \<le> (2::nat)" "int (length [Complex 1 2]) = 1"
    "\<forall>z \<in> set [Complex 1 2]. (Re z)\<^sup>2 + (Im z)\<^sup>2 = 5" "(1::real) \<noteq> 0"
    by simp_all
  show ?thesis
    by (rule total_power_mean [OF h, THEN conjunct2, THEN conjunct2])
qed

section \<open>The loops with well-shaped periodograms\<close>

text \<open>
  When every periodogram has the length of the accumulator, no addition raises and
  the loops can be described in closed form.
\<close>

lemma np_iadd_same: "length b = length a \<Longrightarrow> np_iadd a b = Inr (map2 (+) a b)"
  by (simp add: np_iadd_def)

lemma upt_0_Suc_map: "map g [0..<Suc n] = g 0 # map (\<lambda>k. g (Suc k)) [0..<n]"
proof -
  have "[0..<Suc n] = 0 # map Suc [0..<n]"
    by (simp add: upt_conv_Cons map_Suc_upt del: upt_Suc)
  then show ?thesis by (simp add: comp_def del: upt_Suc)
qed

lemma add_periodograms_length:
  "\<forall>iq. length (snd (welch iq fs nperseg nfft)) = length tot \<Longrightarrow>
     length (add_periodograms welch fs nperseg nfft tot blocks) = length tot"
  unfolding add_periodograms_def
  by (induction blocks arbitrary: tot) simp_all

lemma add_periodograms_append:
  "add_periodograms welch fs nperseg nfft tot (xs @ ys) =
     add_periodograms welch fs nperseg nfft (add_periodograms welch fs nperseg nfft tot xs) ys"
  by (simp add: add_periodograms_def)

lemma last_freqs_append:
  "last_freqs welch fs nperseg nfft fr (xs @ ys) =
     last_freqs welch fs nperseg nfft (last_freqs welch fs nperseg nfft fr xs) ys"
  by (simp add: last_freqs_def)

lemma fswitch_block_ok:
  assumes "length (snd (welch (src (nread d) (dev_fc d) num_samp) rate nbins None)) = n"
    and "length (p_xx_on st) = n" and "length (p_xx_off st) = n"
  shows "fswitch_block src welch num_samp nbins rate tick st d =
     (Inr (if tick
           then st\<lparr>freqs_on := fst (welch (src (nread d) (dev_fc d) num_samp) rate nbins None),
                   p_xx_on := map2 (+) (p_xx_on st) (snd (welch (src (nread d) (dev_fc d) num_samp) rate nbins None)),
                   cnt := cnt st + 1\<rparr>
           else st\<lparr>freqs_off := fst (welch (src (nread d) (dev_fc d) num_samp) rate nbins None),
                   p_xx_off := map2 (+) (p_xx_off st) (snd (welch (src (nread d) (dev_fc d) num_samp) rate nbins None)),
                   cnt := cnt st + 1\<rparr>),
      d\<lparr>nread := Suc (nread d),
        calls := calls d @ [ReadSamples num_samp, Welch rate nbins None]\<rparr>)"
  using assms
  by (simp add: fswitch_block_def read_samples_def np_iadd_same Let_def split_beta)

lemma fswitch_dwell_on:
  assumes "\<forall>iq. length (snd (welch iq rate nbins None)) = n"
    and "length (p_xx_on st) = n" and "length (p_xx_off st) = n"
  shows "fswitch_dwell src welch num_samp nbins rate True js st d =
     (Inr (st\<lparr>freqs_on := last_freqs welch rate nbins None (freqs_on st)
                      (map (\<lambda>k. src (nread d + k) (dev_fc d) num_samp) [0..<length js]),
              p_xx_on := add_periodograms welch rate nbins None (p_xx_on st)
                      (map (\<lambda>k. src (nread d + k) (dev_fc d) num_samp) [0..<length js]),
              cnt := cnt st + int (length js)\<rparr>),
      d\<lparr>nread := nread d + length js,
        calls := calls d @ concat (replicate (length js) [ReadSamples num_samp, Welch rate nbins None])\<rparr>)"
  using assms
proof (induction js arbitrary: st d)
  case Nil
  show ?case by (simp add: add_periodograms_def last_freqs_def)
next
  case (Cons j js)
  let ?w = "welch (src (nread d) (dev_fc d) num_samp) rate nbins None"
  let ?st = "st\<lparr>freqs_on := fst ?w, p_xx_on := map2 (+) (p_xx_on st) (snd ?w), cnt := cnt st + 1\<rparr>"
  have "length (snd ?w) = n"
    using Cons.prems(1) by simp
  from fswitch_block_ok [where welch = welch and src = src and d = d and num_samp = num_samp
      and rate = rate and nbins = nbins and st = st and tick = True, OF this Cons.prems(2,3)]
  have step: "fswitch_block src welch num_samp nbins rate True st d =
     (Inr ?st, d\<lparr>nread := Suc (nread d),
        calls := calls d @ [ReadSamples num_samp, Welch rate nbins None]\<rparr>)"
    by simp
  have l: "length (p_xx_on ?st) = n" "length (p_xx_off ?st) = n"
    using Cons.prems by simp_all
  show ?case
    by (simp add: step Cons.IH [OF Cons.prems(1) l] upt_0_Suc_map add_periodograms_def
        last_freqs_def del: upt_Suc)
qed

lemma fswitch_dwell_off:
  assumes "\<forall>iq. length (snd (welch iq rate nbins None)) = n"
    and "length (p_xx_on st) = n" and "length (p_xx_off st) = n"
  shows "fswitch_dwell src welch num_samp nbins rate False js st d =
     (Inr (st\<lparr>freqs_off := last_freqs welch rate nbins None (freqs_off st)
                      (map (\<lambda>k. src (nread d + k) (dev_fc d) num_samp) [0..<length js]),
              p_xx_off := add_periodograms welch rate nbins None (p_xx_off st)
                      (map (\<lambda>k. src (nread d + k) (dev_fc d) num_samp) [0..<length js]),
              cnt := cnt st + int (length js)\<rparr>),
      d\<lparr>nread := nread d + length js,
        calls := calls d @ concat (replicate (length js) [ReadSamples num_samp, Welch rate nbins None])\<rparr>)"
  using assms
proof (induction js arbitrary: st d)
  case Nil
  show ?case by (simp add: add_periodograms_def last_freqs_def)
next
  case (Cons j js)
  let ?w = "welch (src (nread d) (dev_fc d) num_samp) rate nbins None"
  let ?st = "st\<lparr>freqs_off := fst ?w, p_xx_off := map2 (+) (p_xx_off st) (snd ?w), cnt := cnt st + 1\<rparr>"
  have "length (snd ?w) = n"
    using Cons.prems(1) by simp
  from fswitch_block_ok [where welch = welch and src = src and d = d and num_samp = num_samp
      and rate = rate and nbins = nbins and st = st and tick = False, OF this Cons.prems(2,3)]
  have step: "fswitch_block src welch num_samp nbins rate False st d =
     (Inr ?st, d\<lparr>nread := Suc (nread d),
        calls := calls d @ [ReadSamples num_samp, Welch rate nbins None]\<rparr>)"
    by simp
  have l: "length (p_xx_on ?st) = n" "length (p_xx_off ?st) = n"
    using Cons.prems by simp_all
  show ?case
    by (simp add: step Cons.IH [OF Cons.prems(1) l] upt_0_Suc_map add_periodograms_def
        last_freqs_def del: upt_Suc)
qed


lemma length_py_range: "length (py_range n) = nat n"
  by (simp add: py_range_def)

lemma on_blocks_Cons:
  "on_blocks src num_samp fc L (a # ds) =
     (if even a then dwell_blocks src num_samp fc L a else []) @ on_blocks src num_samp fc L ds"
  by (simp add: on_blocks_def)

lemma off_blocks_Cons:
  "off_blocks src num_samp fthrow L (a # ds) =
     (if even a then [] else dwell_blocks src num_samp fthrow L a) @ off_blocks src num_samp fthrow L ds"
  by (simp add: off_blocks_def)

lemma fswitch_loop_ok:
  assumes "\<forall>iq. length (snd (welch iq rate nbins None)) = n"
    and "length (p_xx_on st) = n" and "length (p_xx_off st) = n"
    and "nread d = a * nat num_loops"
  shows "\<exists>st' d'.
      fswitch_loop src welch num_samp nbins rate fc fthrow num_loops (map int [a ..< a + m]) st d
        = (Inr st', d')
    \<and> p_xx_on st' = add_periodograms welch rate nbins None (p_xx_on st)
                      (on_blocks src num_samp fc (nat num_loops) [a ..< a + m])
    \<and> freqs_on st' = last_freqs welch rate nbins None (freqs_on st)
                      (on_blocks src num_samp fc (nat num_loops) [a ..< a + m])
    \<and> p_xx_off st' = add_periodograms welch rate nbins None (p_xx_off st)
                      (off_blocks src num_samp fthrow (nat num_loops) [a ..< a + m])
    \<and> freqs_off st' = last_freqs welch rate nbins None (freqs_off st)
                      (off_blocks src num_samp fthrow (nat num_loops) [a ..< a + m])
    \<and> cnt st' = cnt st + int (m * nat num_loops)
    \<and> nread d' = (a + m) * nat num_loops
    \<and> calls d' = calls d @ concat (map (\<lambda>i. dwell_calls (if even i then fc else fthrow)
                                            num_samp rate nbins (nat num_loops)) [a ..< a + m])"
  using assms
proof (induction m arbitrary: a st d)
  case 0
  show ?case
    using "0.prems"
    by (simp add: on_blocks_def off_blocks_def add_periodograms_def last_freqs_def)
next
  case (Suc m)
  let ?L = "nat num_loops"
  have upt: "[a ..< a + Suc m] = a # [Suc a ..< Suc a + m]"
    by (simp add: upt_conv_Cons del: upt_Suc)
  have tick: "(int a mod 2 = 0) = even a"
    by presburger
  show ?case
  proof (cases "even a")
    case True
    let ?d1 = "set_fc fc d"
    let ?bs = "dwell_blocks src num_samp fc ?L a"
    let ?st1 = "st\<lparr>freqs_on := last_freqs welch rate nbins None (freqs_on st) ?bs,
              p_xx_on := add_periodograms welch rate nbins None (p_xx_on st) ?bs,
              cnt := cnt st + int ?L\<rparr>"
    let ?d2 = "?d1\<lparr>nread := nread ?d1 + ?L,
        calls := calls ?d1 @ concat (replicate ?L [ReadSamples num_samp, Welch rate nbins None])\<rparr>"
    have bs: "map (\<lambda>k. src (nread ?d1 + k) (dev_fc ?d1) num_samp) [0..<nat num_loops] = ?bs"
      using Suc.prems(4) by (simp add: dwell_blocks_def set_fc_def)
    have dwell: "fswitch_dwell src welch num_samp nbins rate True (py_range num_loops) st ?d1 = (Inr ?st1, ?d2)"
      using fswitch_dwell_on [where welch = welch and rate = rate and nbins = nbins and n = n
          and st = st and src = src and num_samp = num_samp and js = "py_range num_loops"
          and d = ?d1, OF Suc.prems(1,2,3)]
      by (simp only: length_py_range bs)
    have l: "length (p_xx_on ?st1) = n" "length (p_xx_off ?st1) = n"
      using Suc.prems by (simp_all add: add_periodograms_length)
    have nr: "nread ?d2 = Suc a * ?L"
      using Suc.prems(4) by (simp add: set_fc_def)
    from Suc.IH [where st = ?st1 and d = ?d2 and a = "Suc a", OF Suc.prems(1) l nr]
    obtain st' d' where r:
      "fswitch_loop src welch num_samp nbins rate fc fthrow num_loops (map int [Suc a ..< Suc a + m]) ?st1 ?d2
        = (Inr st', d')"
      "p_xx_on st' = add_periodograms welch rate nbins None (p_xx_on ?st1)
                      (on_blocks src num_samp fc ?L [Suc a ..< Suc a + m])"
      "freqs_on st' = last_freqs welch rate nbins None (freqs_on ?st1)
                      (on_blocks src num_samp fc ?L [Suc a ..< Suc a + m])"
      "p_xx_off st' = add_periodograms welch rate nbins None (p_xx_off ?st1)
                      (off_blocks src num_samp fthrow ?L [Suc a ..< Suc a + m])"
      "freqs_off st' = last_freqs welch rate nbins None (freqs_off ?st1)
                      (off_blocks src num_samp fthrow ?L [Suc a ..< Suc a + m])"
      "cnt st' = cnt ?st1 + int (m * ?L)"
      "nread d' = (Suc a + m) * ?L"
      "calls d' = calls ?d2 @ concat (map (\<lambda>i. dwell_calls (if even i then fc else fthrow)
                                            num_samp rate nbins ?L) [Suc a ..< Suc a + m])"
      by blast
    have run: "fswitch_loop src welch num_samp nbins rate fc fthrow num_loops (map int [a ..< a + Suc m]) st d
        = (Inr st', d')"
      unfolding upt list.map fswitch_loop.simps Let_def tick
      using True by (simp only: if_True dwell r(1) prod.case sum.case)
    show ?thesis
      unfolding upt
    proof (rule exI [of _ st'], rule exI [of _ d'], intro conjI)
      show "fswitch_loop src welch num_samp nbins rate fc fthrow num_loops
              (map int (a # [Suc a ..< Suc a + m])) st d = (Inr st', d')"
        using run unfolding upt .
    qed (use True r(2-8) in \<open>simp_all add: on_blocks_Cons off_blocks_Cons add_periodograms_append
          last_freqs_append dwell_calls_def set_fc_def algebra_simps del: upt_Suc\<close>)
  next
    case False
    let ?d1 = "set_fc fthrow d"
    let ?bs = "dwell_blocks src num_samp fthrow ?L a"
    let ?st1 = "st\<lparr>freqs_off := last_freqs welch rate nbins None (freqs_off st) ?bs,
              p_xx_off := add_periodograms welch rate nbins None (p_xx_off st) ?bs,
              cnt := cnt st + int ?L\<rparr>"
    let ?d2 = "?d1\<lparr>nread := nread ?d1 + ?L,
        calls := calls ?d1 @ concat (replicate ?L [ReadSamples num_samp, Welch rate nbins None])\<rparr>"
    have bs: "map (\<lambda>k. src (nread ?d1 + k) (dev_fc ?d1) num_samp) [0..<nat num_loops] = ?bs"
      using Suc.prems(4) by (simp add: dwell_blocks_def set_fc_def)
    have dwell: "fswitch_dwell src welch num_samp nbins rate False (py_range num_loops) st ?d1 = (Inr ?st1, ?d2)"
      using fswitch_dwell_off [where welch = welch and rate = rate and nbins = nbins and n = n
          and st = st and src = src and num_samp = num_samp and js = "py_range num_loops"
          and d = ?d1, OF Suc.prems(1,2,3)]
      by (simp only: length_py_range bs)
    have l: "length (p_xx_on ?st1) = n" "length (p_xx_off ?st1) = n"
      using Suc.prems by (simp_all add: add_periodograms_length)
    have nr: "nread ?d2 = Suc a * ?L"
      using Suc.prems(4) by (simp add: set_fc_def)
    from Suc.IH [where st = ?st1 and d = ?d2 and a = "Suc a", OF Suc.prems(1) l nr]
    obtain st' d' where r:
      "fswitch_loop src welch num_samp nbins rate fc fthrow num_loops (map int [Suc a ..< Suc a + m]) ?st1 ?d2
        = (Inr st', d')"
      "p_xx_on st' = add_periodograms welch rate nbins None (p_xx_on ?st1)
                      (on_blocks src num_samp fc ?L [Suc a ..< Suc a + m])"
      "freqs_on st' = last_freqs welch rate nbins None (freqs_on ?st1)
                      (on_blocks src num_samp fc ?L [Suc a ..< Suc a + m])"
      "p_xx_off st' = add_periodograms welch rate nbins None (p_xx_off ?st1)
                      (off_blocks src num_samp fthrow ?L [Suc a ..< Suc a + m])"
      "freqs_off st' = last_freqs welch rate nbins None (freqs_off ?st1)
                      (off_blocks src num_samp fthrow ?L [Suc a ..< Suc a + m])"
      "cnt st' = cnt ?st1 + int (m * ?L)"
      "nread d' = (Suc a + m) * ?L"
      "calls d' = calls ?d2 @ concat (map (\<lambda>i. dwell_calls (if even i then fc else fthrow)
                                            num_samp rate nbins ?L) [Suc a ..< Suc a + m])"
      by blast
    have run: "fswitch_loop src welch num_samp nbins rate fc fthrow num_loops (map int [a ..< a + Suc m]) st d
        = (Inr st', d')"
      unfolding upt list.map fswitch_loop.simps Let_def tick
      using False by (simp only: if_False dwell r(1) prod.case sum.case)
    show ?thesis
      unfolding upt
    proof (rule exI [of _ st'], rule exI [of _ d'], intro conjI)
      show "fswitch_loop src welch num_samp nbins rate fc fthrow num_loops
              (map int (a # [Suc a ..< Suc a + m])) st d = (Inr st', d')"
        using run unfolding upt .
    qed (use False r(2-8) in \<open>simp_all add: on_blocks_Cons off_blocks_Cons add_periodograms_append
          last_freqs_append dwell_calls_def set_fc_def algebra_simps del: upt_Suc\<close>)
  qed
qed


lemma spectrum_step_ok:
  assumes "length (snd (welch (src (nread d) (dev_fc d) num_samp) rate nperseg (Some nbins))) = length tot"
  shows "spectrum_step src welch num_samp nbins rate nperseg i (fr, tot, c) d =
     (Inr (fst (welch (src (nread d) (dev_fc d) num_samp) rate nperseg (Some nbins)),
           map2 (+) tot (snd (welch (src (nread d) (dev_fc d) num_samp) rate nperseg (Some nbins))),
           i),
      d\<lparr>nread := Suc (nread d),
        calls := calls d @ [ReadSamples num_samp, Welch rate nperseg (Some nbins)]\<rparr>)"
  using assms
  by (simp add: spectrum_step_def read_samples_def np_iadd_same Let_def split_beta)

lemma spectrum_loop_ok:
  assumes "\<forall>iq. length (snd (welch iq rate nperseg (Some nbins))) = length tot"
  shows "spectrum_loop src welch num_samp nbins rate nperseg ixs (fr, tot, c) d =
     (Inr (last_freqs welch rate nperseg (Some nbins) fr
             (map (\<lambda>k. src (nread d + k) (dev_fc d) num_samp) [0..<length ixs]),
           add_periodograms welch rate nperseg (Some nbins) tot
             (map (\<lambda>k. src (nread d + k) (dev_fc d) num_samp) [0..<length ixs]),
           if ixs = [] then c else last ixs),
      d\<lparr>nread := nread d + length ixs,
        calls := calls d @ concat (replicate (length ixs)
                   [ReadSamples num_samp, Welch rate nperseg (Some nbins)])\<rparr>)"
  using assms
proof (induction ixs arbitrary: fr tot c d)
  case Nil
  show ?case by (simp add: add_periodograms_def last_freqs_def)
next
  case (Cons i ixs)
  let ?w = "welch (src (nread d) (dev_fc d) num_samp) rate nperseg (Some nbins)"
  let ?d = "d\<lparr>nread := Suc (nread d),
        calls := calls d @ [ReadSamples num_samp, Welch rate nperseg (Some nbins)]\<rparr>"
  have step: "spectrum_step src welch num_samp nbins rate nperseg i (fr, tot, c) d =
      (Inr (fst ?w, map2 (+) tot (snd ?w), i), ?d)"
    using Cons.prems by (simp add: spectrum_step_ok)
  have len: "\<forall>iq. length (snd (welch iq rate nperseg (Some nbins))) = length (map2 (+) tot (snd ?w))"
    using Cons.prems by simp
  show ?case
    by (simp add: step Cons.IH [OF len] upt_0_Suc_map add_periodograms_def last_freqs_def
        del: upt_Suc)
qed

lemma last_py_range: "0 < n \<Longrightarrow> last (py_range n) = n - 1"
proof -
  assume "0 < n"
  then obtain m where m: "nat n = Suc m"
    by (metis Suc_pred zero_less_nat_eq)
  then show ?thesis
    using \<open>0 < n\<close> by (simp add: py_range_def)
qed

lemma py_range_Nil: "(py_range n = []) = (n \<le> 0)"
  by (simp add: py_range_def)

lemma spectrum_try_ok:
  assumes "\<forall>iq. length (snd (welch iq rate (spectrum_nperseg nbins) (Some nbins))) = nat nbins"
    and "0 \<le> nbins" and "num_samp \<noteq> 0" and "rate \<noteq> 0"
  shows "\<exists>fr tot c d.
      spectrum_try src welch get_window num_samp nbins gain rate fc t_int =
        (Inr ((map (\<lambda>f. f + fc) (fftshift fr),
               p_avg_db_hz (p_avg_hz (get_window (spectrum_nperseg nbins)) rate
                 (map (\<lambda>p. np_div (Fin p) (real_of_int c)) (fftshift tot)))),
              (fftshift tot, c)), d)
    \<and> fr = last_freqs welch rate (spectrum_nperseg nbins) (Some nbins) (replicate (nat nbins) 0)
             (map (\<lambda>k. src k fc num_samp) [0 ..< nat (spectrum_num_loops rate t_int num_samp)])
    \<and> tot = add_periodograms welch rate (spectrum_nperseg nbins) (Some nbins) (replicate (nat nbins) 0)
             (map (\<lambda>k. src k fc num_samp) [0 ..< nat (spectrum_num_loops rate t_int num_samp)])
    \<and> c = (if spectrum_num_loops rate t_int num_samp \<le> 0 then 0
           else spectrum_num_loops rate t_int num_samp - 1)
    \<and> nread d = nat (spectrum_num_loops rate t_int num_samp)
    \<and> calls d = [RtlSdr, SetRs rate, SetFc fc, SetGain gain] @
         concat (replicate (nat (spectrum_num_loops rate t_int num_samp))
           [ReadSamples num_samp, Welch rate (spectrum_nperseg nbins) (Some nbins)])"
proof -
  let ?sdr = "set_gain gain (set_fc fc (set_rs rate sdr_open))"
  let ?n = "spectrum_num_loops rate t_int num_samp"
  let ?z = "replicate (nat nbins) (0::real)"
  have len: "\<forall>iq. length (snd (welch iq rate (spectrum_nperseg nbins) (Some nbins))) = length ?z"
    using assms(1) by simp
  have sdr: "dev_rs ?sdr = rate" "dev_fc ?sdr = fc" "nread ?sdr = 0"
    "calls ?sdr = [RtlSdr, SetRs rate, SetFc fc, SetGain gain]"
    by (simp_all add: set_gain_def set_fc_def set_rs_def sdr_open_def)
  note loop = spectrum_loop_ok [where welch = welch and rate = rate and nbins = nbins
      and nperseg = "spectrum_nperseg nbins" and tot = ?z and src = src and num_samp = num_samp
      and ixs = "py_range ?n" and fr = ?z and c = 0 and d = ?sdr, OF len]
  show ?thesis
    using assms(2,3,4)
    by (simp add: spectrum_try_def Let_def np_zeros_def loop sdr length_py_range py_range_Nil
        last_py_range spectrum_num_loops_def [symmetric])
qed


lemma fswitch_try_ok:
  assumes "\<forall>iq. length (snd (welch iq rate nbins None)) = nat nbins"
    and "0 \<le> nbins" and "num_samp \<noteq> 0" and "fswitch_N_dwell rate fswitch \<noteq> 0"
  shows "\<exists>st d.
      fswitch_try src welch num_samp nbins gain rate fc fthrow t_int fswitch =
        (Inr ((map (\<lambda>f. f + fc) (fftshift (freqs_on st)),
               map (\<lambda>f. f + fthrow) (fftshift (freqs_off st)),
               map (\<lambda>p. np_div (Fin p) (real_of_int (cnt st))) (fftshift (p_xx_on st)),
               map (\<lambda>p. np_div (Fin p) (real_of_int (cnt st))) (fftshift (p_xx_off st))),
              st), d)
    \<and> p_xx_on st = add_periodograms welch rate nbins None (replicate (nat nbins) 0)
         (on_blocks src num_samp fc (nat (fswitch_num_loops rate fswitch num_samp))
            [0 ..< nat (fswitch_num_dwells rate t_int fswitch)])
    \<and> freqs_on st = last_freqs welch rate nbins None (replicate (nat nbins) 0)
         (on_blocks src num_samp fc (nat (fswitch_num_loops rate fswitch num_samp))
            [0 ..< nat (fswitch_num_dwells rate t_int fswitch)])
    \<and> p_xx_off st = add_periodograms welch rate nbins None (replicate (nat nbins) 0)
         (off_blocks src num_samp fthrow (nat (fswitch_num_loops rate fswitch num_samp))
            [0 ..< nat (fswitch_num_dwells rate t_int fswitch)])
    \<and> freqs_off st = last_freqs welch rate nbins None (replicate (nat nbins) 0)
         (off_blocks src num_samp fthrow (nat (fswitch_num_loops rate fswitch num_samp))
            [0 ..< nat (fswitch_num_dwells rate t_int fswitch)])
    \<and> cnt st = int (nat (fswitch_num_dwells rate t_int fswitch)
                     * nat (fswitch_num_loops rate fswitch num_samp))
    \<and> nread d = nat (fswitch_num_dwells rate t_int fswitch)
                     * nat (fswitch_num_loops rate fswitch num_samp)
    \<and> calls d = [RtlSdr, SetRs rate, SetFc fc, SetGain gain] @
         concat (map (\<lambda>i. dwell_calls (if even i then fc else fthrow) num_samp rate nbins
                            (nat (fswitch_num_loops rate fswitch num_samp)))
                   [0 ..< nat (fswitch_num_dwells rate t_int fswitch)])"
proof -
  let ?sdr = "set_gain gain (set_fc fc (set_rs rate sdr_open))"
  let ?L = "fswitch_num_loops rate fswitch num_samp"
  let ?D = "fswitch_num_dwells rate t_int fswitch"
  let ?z = "replicate (nat nbins) (0::real)"
  let ?st0 = "\<lparr>freqs_on = ?z, freqs_off = ?z, p_xx_on = ?z, p_xx_off = ?z, cnt = 0\<rparr>"
  have sdr: "dev_rs ?sdr = rate" "calls ?sdr = [RtlSdr, SetRs rate, SetFc fc, SetGain gain]"
    by (simp_all add: set_gain_def set_fc_def set_rs_def sdr_open_def)
  have l: "length (p_xx_on ?st0) = nat nbins" "length (p_xx_off ?st0) = nat nbins"
    by simp_all
  have nr: "nread ?sdr = 0 * nat ?L"
    by (simp add: set_gain_def set_fc_def set_rs_def sdr_open_def)
  from fswitch_loop_ok [where welch = welch and rate = rate and nbins = nbins and n = "nat nbins"
      and st = ?st0 and d = ?sdr and a = 0 and num_loops = ?L and m = "nat ?D" and src = src
      and num_samp = num_samp and fc = fc and fthrow = fthrow, OF assms(1) l nr]
  obtain st d where r:
    "fswitch_loop src welch num_samp nbins rate fc fthrow ?L (map int [0 ..< 0 + nat ?D]) ?st0 ?sdr
        = (Inr st, d)"
    "p_xx_on st = add_periodograms welch rate nbins None (p_xx_on ?st0)
                      (on_blocks src num_samp fc (nat ?L) [0 ..< 0 + nat ?D])"
    "freqs_on st = last_freqs welch rate nbins None (freqs_on ?st0)
                      (on_blocks src num_samp fc (nat ?L) [0 ..< 0 + nat ?D])"
    "p_xx_off st = add_periodograms welch rate nbins None (p_xx_off ?st0)
                      (off_blocks src num_samp fthrow (nat ?L) [0 ..< 0 + nat ?D])"
    "freqs_off st = last_freqs welch rate nbins None (freqs_off ?st0)
                      (off_blocks src num_samp fthrow (nat ?L) [0 ..< 0 + nat ?D])"
    "cnt st = cnt ?st0 + int (nat ?D * nat ?L)"
    "nread d = (0 + nat ?D) * nat ?L"
    "calls d = calls ?sdr @ concat (map (\<lambda>i. dwell_calls (if even i then fc else fthrow)
                                            num_samp rate nbins (nat ?L)) [0 ..< 0 + nat ?D])"
    by blast
  have loop: "fswitch_loop src welch num_samp nbins rate fc fthrow
      (py_int (float64 (rate * float64 (1 / fswitch))) div num_samp)
      (py_range (py_int (float64 (rate * t_int))
                   div py_int (float64 (rate * float64 (1 / fswitch))))) ?st0 ?sdr = (Inr st, d)"
    using r(1)
    by (simp add: py_range_def fswitch_num_loops_def fswitch_num_dwells_def fswitch_N_dwell_def)
  have tr: "fswitch_try src welch num_samp nbins gain rate fc fthrow t_int fswitch =
        (Inr ((map (\<lambda>f. f + fc) (fftshift (freqs_on st)),
               map (\<lambda>f. f + fthrow) (fftshift (freqs_off st)),
               map (\<lambda>p. np_div (Fin p) (real_of_int (cnt st))) (fftshift (p_xx_on st)),
               map (\<lambda>p. np_div (Fin p) (real_of_int (cnt st))) (fftshift (p_xx_off st))),
              st), d)"
    using assms(2,3,4) loop
    by (simp add: fswitch_try_def Let_def np_zeros_def sdr fswitch_N_dwell_def)
  show ?thesis
  proof (rule exI [of _ st], rule exI [of _ d], intro conjI)
    show "fswitch_try src welch num_samp nbins gain rate fc fthrow t_int fswitch =
        (Inr ((map (\<lambda>f. f + fc) (fftshift (freqs_on st)),
               map (\<lambda>f. f + fthrow) (fftshift (freqs_off st)),
               map (\<lambda>p. np_div (Fin p) (real_of_int (cnt st))) (fftshift (p_xx_on st)),
               map (\<lambda>p. np_div (Fin p) (real_of_int (cnt st))) (fftshift (p_xx_off st))),
              st), d)"
      by (rule tr)
  qed (use r(2-8) sdr in simp_all)
qed

section \<open>The external calls of a run\<close>

lemma spectrum_step_calls:
  "set (calls (snd (spectrum_step src welch num_samp nbins rate nperseg i st d)))
     = set (calls d) \<union> {ReadSamples num_samp, Welch rate nperseg (Some nbins)}"
  by (auto simp add: spectrum_step_def read_samples_def Let_def split_beta split: sum.splits)

lemma spectrum_loop_calls:
  "set (calls (snd (spectrum_loop src welch num_samp nbins rate nperseg ixs st d)))
     \<subseteq> set (calls d) \<union> {ReadSamples num_samp, Welch rate nperseg (Some nbins)}"
proof (induction ixs arbitrary: st d)
  case Nil
  show ?case by auto
next
  case (Cons i ixs)
  obtain r d' where s: "spectrum_step src welch num_samp nbins rate nperseg i st d = (r, d')"
    by (cases "spectrum_step src welch num_samp nbins rate nperseg i st d")
  have c: "set (calls d') = set (calls d) \<union> {ReadSamples num_samp, Welch rate nperseg (Some nbins)}"
    using spectrum_step_calls [of src welch num_samp nbins rate nperseg i st d] s by simp
  show ?case
  proof (cases r)
    case (Inl e)
    then show ?thesis using s c by simp
  next
    case (Inr st')
    then show ?thesis using s c Cons.IH [of st' d'] by auto
  qed
qed

lemma spectrum_try_device:
  "snd (spectrum_try src welch get_window num_samp nbins gain rate fc t_int)
       = set_gain gain (set_fc fc (set_rs rate sdr_open))
   \<or> (\<exists>ixs st. snd (spectrum_try src welch get_window num_samp nbins gain rate fc t_int)
       = snd (spectrum_loop src welch num_samp nbins rate (spectrum_nperseg nbins) ixs st
                (set_gain gain (set_fc fc (set_rs rate sdr_open)))))"
  unfolding spectrum_try_def Let_def
  by (auto split: sum.splits prod.splits) (metis snd_conv)+

lemma spectrum_try_calls:
  "set (calls (snd (spectrum_try src welch get_window num_samp nbins gain rate fc t_int)))
     \<subseteq> {RtlSdr, SetRs rate, SetFc fc, SetGain gain, ReadSamples num_samp,
         Welch rate (spectrum_nperseg nbins) (Some nbins)}"
proof -
  let ?sdr = "set_gain gain (set_fc fc (set_rs rate sdr_open))"
  have sdr: "calls ?sdr = [RtlSdr, SetRs rate, SetFc fc, SetGain gain]"
    by (simp add: set_gain_def set_fc_def set_rs_def sdr_open_def)
  have loop: "set (calls (snd (spectrum_loop src welch num_samp nbins rate (spectrum_nperseg nbins)
        ixs st ?sdr)))
     \<subseteq> {RtlSdr, SetRs rate, SetFc fc, SetGain gain, ReadSamples num_samp,
         Welch rate (spectrum_nperseg nbins) (Some nbins)}" for ixs st
    using spectrum_loop_calls [of src welch num_samp nbins rate "spectrum_nperseg nbins" ixs st ?sdr]
    by (auto simp add: sdr)
  from spectrum_try_device [of src welch get_window num_samp nbins gain rate fc t_int]
  show ?thesis
  proof
    assume "snd (spectrum_try src welch get_window num_samp nbins gain rate fc t_int) = ?sdr"
    then show ?thesis by (simp add: sdr)
  next
    assume "\<exists>ixs st. snd (spectrum_try src welch get_window num_samp nbins gain rate fc t_int)
       = snd (spectrum_loop src welch num_samp nbins rate (spectrum_nperseg nbins) ixs st ?sdr)"
    then show ?thesis using loop by metis
  qed
qed

lemma run_spectrum_calls:
  "set (snd (run_spectrum_int src welch get_window num_samp nbins gain rate fc t_int))
     \<subseteq> {RtlSdr, SetRs rate, SetFc fc, SetGain gain, ReadSamples num_samp,
         Welch rate (spectrum_nperseg nbins) (Some nbins), Close}"
  using spectrum_try_calls [of src welch get_window num_samp nbins gain rate fc t_int]
  by (auto simp add: run_spectrum_int_def sdr_close_def split: sum.splits prod.splits)

lemma fswitch_block_calls:
  "set (calls (snd (fswitch_block src welch num_samp nbins rate tick st d)))
     = set (calls d) \<union> {ReadSamples num_samp, Welch rate nbins None}"
  by (auto simp add: fswitch_block_def read_samples_def Let_def split_beta split: sum.splits)

lemma fswitch_dwell_calls:
  "set (calls (snd (fswitch_dwell src welch num_samp nbins rate tick js st d)))
     \<subseteq> set (calls d) \<union> {ReadSamples num_samp, Welch rate nbins None}"
proof (induction js arbitrary: st d)
  case Nil
  show ?case by auto
next
  case (Cons j js)
  obtain r d' where s: "fswitch_block src welch num_samp nbins rate tick st d = (r, d')"
    by (cases "fswitch_block src welch num_samp nbins rate tick st d")
  have c: "set (calls d') = set (calls d) \<union> {ReadSamples num_samp, Welch rate nbins None}"
    using fswitch_block_calls [of src welch num_samp nbins rate tick st d] s by simp
  show ?case
  proof (cases r)
    case (Inl e)
    then show ?thesis using s c by simp
  next
    case (Inr st')
    then show ?thesis using s c Cons.IH [of st' d'] by auto
  qed
qed

lemma fswitch_loop_calls:
  "set (calls (snd (fswitch_loop src welch num_samp nbins rate fc fthrow num_loops ixs st d)))
     \<subseteq> set (calls d) \<union> {SetFc fc, SetFc fthrow, ReadSamples num_samp, Welch rate nbins None}"
proof (induction ixs arbitrary: st d)
  case Nil
  show ?case by auto
next
  case (Cons i ixs)
  let ?d1 = "if i mod 2 = 0 then set_fc fc d else set_fc fthrow d"
  obtain r d' where s: "fswitch_dwell src welch num_samp nbins rate (i mod 2 = 0)
      (py_range num_loops) st ?d1 = (r, d')"
    by (cases "fswitch_dwell src welch num_samp nbins rate (i mod 2 = 0) (py_range num_loops) st ?d1")
  have "set (calls ?d1) \<subseteq> set (calls d) \<union> {SetFc fc, SetFc fthrow}"
    by (auto simp add: set_fc_def)
  then have c: "set (calls d') \<subseteq> set (calls d) \<union>
      {SetFc fc, SetFc fthrow, ReadSamples num_samp, Welch rate nbins None}"
    using fswitch_dwell_calls [of src welch num_samp nbins rate "i mod 2 = 0" "py_range num_loops" st ?d1] s
    by auto
  show ?case
  proof (cases r)
    case (Inl e)
    then show ?thesis using s c by (simp add: Let_def)
  next
    case (Inr st')
    then show ?thesis using s c Cons.IH [of st' d'] by (auto simp add: Let_def)
  qed
qed

lemma fswitch_try_device:
  "snd (fswitch_try src welch num_samp nbins gain rate fc fthrow t_int fswitch)
       = set_gain gain (set_fc fc (set_rs rate sdr_open))
   \<or> (\<exists>L ixs st. snd (fswitch_try src welch num_samp nbins gain rate fc fthrow t_int fswitch)
       = snd (fswitch_loop src welch num_samp nbins rate fc fthrow L ixs st
                (set_gain gain (set_fc fc (set_rs rate sdr_open)))))"
  unfolding fswitch_try_def Let_def
  by (simp split: sum.splits prod.splits) (metis snd_conv)

lemma fswitch_try_calls:
  "set (calls (snd (fswitch_try src welch num_samp nbins gain rate fc fthrow t_int fswitch)))
     \<subseteq> {RtlSdr, SetRs rate, SetFc fc, SetGain gain, SetFc fthrow, ReadSamples num_samp,
         Welch rate nbins None}"
proof -
  let ?sdr = "set_gain gain (set_fc fc (set_rs rate sdr_open))"
  have sdr: "calls ?sdr = [RtlSdr, SetRs rate, SetFc fc, SetGain gain]"
    by (simp add: set_gain_def set_fc_def set_rs_def sdr_open_def)
  have loop: "set (calls (snd (fswitch_loop src welch num_samp nbins rate fc fthrow L ixs st ?sdr)))
     \<subseteq> {RtlSdr, SetRs rate, SetFc fc, SetGain gain, SetFc fthrow, ReadSamples num_samp,
         Welch rate nbins None}" for ixs st L
    using fswitch_loop_calls [of src welch num_samp nbins rate fc fthrow L ixs st ?sdr]
    by (auto simp add: sdr)
  from fswitch_try_device [of src welch num_samp nbins gain rate fc fthrow t_int fswitch]
  show ?thesis
  proof
    assume "snd (fswitch_try src welch num_samp nbins gain rate fc fthrow t_int fswitch) = ?sdr"
    then show ?thesis by (simp add: sdr)
  next
    assume "\<exists>L ixs st. snd (fswitch_try src welch num_samp nbins gain rate fc fthrow t_int fswitch)
       = snd (fswitch_loop src welch num_samp nbins rate fc fthrow L ixs st ?sdr)"
    then show ?thesis using loop by metis
  qed
qed

lemma run_fswitch_calls:
  "set (snd (run_fswitch_int F src welch num_samp nbins gain rate fc fthrow t_int fswitch))
     \<subseteq> {RtlSdr, SetRs rate, SetFc fc, SetGain gain, SetFc fthrow, ReadSamples num_samp,
         Welch rate nbins None, Close}"
  using fswitch_try_calls [of src welch num_samp nbins gain rate fc fthrow t_int fswitch]
  by (auto simp add: run_fswitch_int_def sdr_close_def split: sum.splits prod.splits)


lemma flat_welch_len: "length (snd (flat_welch iq fs n None)) = nat n"
  "length (snd (flat_welch iq fs n (Some m))) = nat m"
  by (simp_all add: flat_welch_def Let_def)

lemma upt_0_2: "[0..<2] = [0, Suc 0]"
  by (simp add: upt_rec)

lemma run_fswitch_ok:
  assumes "fswitch \<noteq> 0" and "float64 (2 * float64 (1 / fswitch)) \<le> t_int"
    and "fswitch_try src welch num_samp nbins gain rate fc fthrow t_int fswitch
           = (Inr ((f_on, f_off, p_on, p_off), st), d)"
  shows "run_fswitch_int F src welch num_samp nbins gain rate fc fthrow t_int fswitch
           = (Inr (F f_on f_off p_on p_off), calls d @ [Close, Close])"
  using assms by (simp add: run_fswitch_int_def sdr_close_def)

lemma run_spectrum_ok:
  assumes "spectrum_try src welch get_window num_samp nbins gain rate fc t_int
           = (Inr (res, x), d)"
  shows "run_spectrum_int src welch get_window num_samp nbins gain rate fc t_int
           = (Inr res, calls d @ [Close, Close])"
  using assms by (simp add: run_spectrum_int_def sdr_close_def)

lemma fswitch_example_calls:
  "snd (run_fswitch_int fold_args ones_source flat_welch 1 512 0 1 0 1 2 1) =
     [RtlSdr, SetRs 1, SetFc 0, SetGain 0,
      SetFc 0, ReadSamples 1, Welch 1 512 None,
      SetFc 1, ReadSamples 1, Welch 1 512 None, Close, Close]"
proof -
  from fswitch_try_ok [where welch = flat_welch and rate = 1 and nbins = 512 and num_samp = 1
      and fswitch = 1 and t_int = 2 and fc = 0 and fthrow = 1 and gain = 0 and src = ones_source]
  obtain x st d where
    t: "fswitch_try ones_source flat_welch 1 512 0 1 0 1 2 1 = (Inr (x, st), d)"
    and c: "calls d = [RtlSdr, SetRs 1, SetFc 0, SetGain 0,
      SetFc 0, ReadSamples 1, Welch 1 512 None, SetFc 1, ReadSamples 1, Welch 1 512 None]"
    by (auto simp add: flat_welch_len fswitch_N_dwell_def fswitch_num_loops_def
        fswitch_num_dwells_def py_int_def dwell_calls_def upt_0_2)
  obtain f_on f_off p_on p_off where x: "x = (f_on, f_off, p_on, p_off)"
    by (cases x) auto
  show ?thesis
    using run_fswitch_ok [where F = fold_args and fswitch = 1 and t_int = 2, OF _ _ t [unfolded x]] c
    by simp
qed

lemma spectrum_example_calls:
  "snd (run_spectrum_int ones_source flat_welch boxcar 1 512 0 1 0 1) =
     [RtlSdr, SetRs 1, SetFc 0, SetGain 0,
      ReadSamples 1, Welch 1 256 (Some 512), ReadSamples 1, Welch 1 256 (Some 512), Close, Close]"
proof -
  from spectrum_try_ok [where welch = flat_welch and rate = 1 and nbins = 512 and num_samp = 1
      and t_int = 1 and fc = 0 and gain = 0 and src = ones_source and get_window = boxcar]
  obtain res x d where
    t: "spectrum_try ones_source flat_welch boxcar 1 512 0 1 0 1 = (Inr (res, x), d)"
    and c: "calls d = [RtlSdr, SetRs 1, SetFc 0, SetGain 0,
      ReadSamples 1, Welch 1 256 (Some 512), ReadSamples 1, Welch 1 256 (Some 512)]"
    by (auto simp add: flat_welch_len spectrum_num_loops_def spectrum_nperseg_def py_int_def
        numeral_2_eq_2)
  show ?thesis
    using run_spectrum_ok [OF t] c by simp
qed

text \<open>
  Claim C5, as the code has it. \<^verbatim>\<open>run_spectrum_int\<close> computes the segment length
  \<open>min nbins 256\<close> once and every call of \<^verbatim>\<open>welch\<close> it makes carries that value;
  every call of \<^verbatim>\<open>welch\<close> that \<^verbatim>\<open>run_fswitch_int\<close> makes carries
  \<^verbatim>\<open>nperseg = nbins\<close>, with no bound of 256.
\<close>

theorem welch_segment_length:
  "spectrum_nperseg nbins = min nbins 256
   \<and> (\<forall>c \<in> set (snd (run_spectrum_int src welch get_window num_samp nbins gain rate fc t_int)).
        \<forall>fs n m. c = Welch fs n m \<longrightarrow> n = min nbins 256)
   \<and> (\<forall>c \<in> set (snd (run_fswitch_int f_throw_fold src welch num_samp nbins gain rate fc fthrow
                          t_int fswitch)).
        \<forall>fs n m. c = Welch fs n m \<longrightarrow> n = nbins)"
proof (intro conjI)
  show n: "spectrum_nperseg nbins = min nbins 256"
    by (simp add: spectrum_nperseg_def)
  show "\<forall>c \<in> set (snd (run_spectrum_int src welch get_window num_samp nbins gain rate fc t_int)).
        \<forall>fs n m. c = Welch fs n m \<longrightarrow> n = min nbins 256"
    using run_spectrum_calls [of src welch get_window num_samp nbins gain rate fc t_int] n
    by auto
  show "\<forall>c \<in> set (snd (run_fswitch_int f_throw_fold src welch num_samp nbins gain rate fc fthrow
                          t_int fswitch)).
        \<forall>fs n m. c = Welch fs n m \<longrightarrow> n = nbins"
    using run_fswitch_calls [of f_throw_fold src welch num_samp nbins gain rate fc fthrow t_int fswitch]
    by auto
qed

text \<open>
  C5 at 512 bins: the averaged-spectrum run calls \<^verbatim>\<open>welch\<close> with segments of 256
  samples and never of 512, the frequency-switched run with segments of 512 and
  never of 256.
\<close>

theorem welch_segment_length_witness:
  "Welch 1 256 (Some 512) \<in> set (snd (run_spectrum_int ones_source flat_welch boxcar 1 512 0 1 0 1))
   \<and> Welch 1 512 (Some 512) \<notin> set (snd (run_spectrum_int ones_source flat_welch boxcar 1 512 0 1 0 1))
   \<and> Welch 1 512 None \<in> set (snd (run_fswitch_int fold_args ones_source flat_welch 1 512 0 1 0 1 2 1))
   \<and> Welch 1 256 None \<notin> set (snd (run_fswitch_int fold_args ones_source flat_welch 1 512 0 1 0 1 2 1))"
proof (intro conjI)
  show "Welch 1 256 (Some 512) \<in> set (snd (run_spectrum_int ones_source flat_welch boxcar 1 512 0 1 0 1))"
    by (simp add: spectrum_example_calls)
  show "Welch 1 512 None \<in> set (snd (run_fswitch_int fold_args ones_source flat_welch 1 512 0 1 0 1 2 1))"
    by (simp add: fswitch_example_calls)
  show "Welch 1 512 (Some 512) \<notin> set (snd (run_spectrum_int ones_source flat_welch boxcar 1 512 0 1 0 1))"
  proof
    assume "Welch 1 512 (Some 512) \<in> set (snd (run_spectrum_int ones_source flat_welch boxcar 1 512 0 1 0 1))"
    from welch_segment_length [THEN conjunct2, THEN conjunct1, rule_format, OF this refl]
    show False by simp
  qed
  show "Welch 1 256 None \<notin> set (snd (run_fswitch_int fold_args ones_source flat_welch 1 512 0 1 0 1 2 1))"
  proof
    assume "Welch 1 256 None \<in> set (snd (run_fswitch_int fold_args ones_source flat_welch 1 512 0 1 0 1 2 1))"
    from welch_segment_length [THEN conjunct2, THEN conjunct2, rule_format, OF this refl]
    show False by simp
  qed
qed

text \<open>
  C5 as stated fails.
  With 512 bins the frequency-switched run calls \<^verbatim>\<open>welch\<close> with segments of 512
  samples, not of \<open>min 512 256 = 256\<close>.
\<close>

theorem fswitch_segment_length_counterexample:
  "\<not> (\<forall>c \<in> set (snd (run_fswitch_int fold_args ones_source flat_welch 1 512 0 1 0 1 2 1)).
        \<forall>fs n m. c = Welch fs n m \<longrightarrow> n = min 512 256)"
proof
  assume "\<forall>c \<in> set (snd (run_fswitch_int fold_args ones_source flat_welch 1 512 0 1 0 1 2 1)).
        \<forall>fs n m. c = Welch fs n m \<longrightarrow> n = min 512 256"
  moreover have "Welch 1 512 None \<in> set (snd (run_fswitch_int fold_args ones_source flat_welch 1 512 0 1 0 1 2 1))"
    by (simp add: fswitch_example_calls)
  ultimately have "(512::int) = min 512 256"
    by blast
  then show False by simp
qed

section \<open>Normalisation to a spectral density\<close>

lemma spectrum_try_power:
  assumes "fst (spectrum_try src welch get_window num_samp nbins gain rate fc t_int)
             = Inr ((freqs, p_db), (tot, c))"
  shows "p_db = p_avg_db_hz (p_avg_hz (get_window (spectrum_nperseg nbins)) rate
                  (map (\<lambda>p. np_div (Fin p) (real_of_int c)) tot))"
  using assms
  unfolding spectrum_try_def Let_def
  by (auto split: if_splits sum.splits prod.splits)

lemma p_avg_hz_nth:
  assumes "sum_list (map (\<lambda>w. w * w) win) \<noteq> 0" and "rate \<noteq> 0" and "i < length ps"
  shows "p_avg_hz win rate (map Fin ps) ! i
           = Fin (ps ! i * ((sum_list win)\<^sup>2 / sum_list (map (\<lambda>w. w * w) win)) / rate)"
  using assms by (simp add: p_avg_hz_def win_factor_def np_div_def np_mul_def)

lemma p_avg_db_hz_nth:
  assumes "i < length hz"
  shows "p_avg_db_hz hz ! i =
           (case hz ! i of Fin x \<Rightarrow> if 0 < x then Fin (10 * log 10 x) else NonFinite
            | NonFinite \<Rightarrow> NonFinite)"
  using assms by (simp add: p_avg_db_hz_def np_mul_def np_log10_def split: npfloat.splits)

text \<open>
  Claim C3. Whenever \<^verbatim>\<open>run_spectrum_int\<close> reaches its result with a non-zero count,
  sample rate and window energy, bin \<open>i\<close> of the spectral density is the averaged
  power spectrum \<open>tot ! i / c\<close> times \<open>(\<Sum>w)\<^sup>2 / \<Sum>w\<^sup>2\<close> divided by the sample rate, for
  the window of the segment length that \<^verbatim>\<open>welch\<close> was called with, and bin \<open>i\<close> of
  the output is \<open>10 * log 10\<close> of it (numpy gives \<open>-inf\<close> or \<open>nan\<close> where the density is
  not positive).
\<close>

theorem psd_normalization:
  assumes "fst (spectrum_try src welch get_window num_samp nbins gain rate fc t_int)
             = Inr ((freqs, p_db), (tot, c))"
    and "c \<noteq> 0" and "rate \<noteq> 0"
    and "sum_list (map (\<lambda>w. w * w) (get_window (spectrum_nperseg nbins))) \<noteq> 0"
    and "i < length tot"
  shows "p_db = p_avg_db_hz (p_avg_hz (get_window (spectrum_nperseg nbins)) rate
                  (map (\<lambda>p. Fin (p / real_of_int c)) tot))
       \<and> p_avg_hz (get_window (spectrum_nperseg nbins)) rate (map (\<lambda>p. Fin (p / real_of_int c)) tot) ! i
           = Fin (tot ! i / real_of_int c
                  * ((sum_list (get_window (spectrum_nperseg nbins)))\<^sup>2
                     / sum_list (map (\<lambda>w. w * w) (get_window (spectrum_nperseg nbins))))
                  / rate)
       \<and> length p_db = length tot
       \<and> p_db ! i =
           (let psd = tot ! i / real_of_int c
                  * ((sum_list (get_window (spectrum_nperseg nbins)))\<^sup>2
                     / sum_list (map (\<lambda>w. w * w) (get_window (spectrum_nperseg nbins))))
                  / rate
            in if 0 < psd then Fin (10 * log 10 psd) else NonFinite)"
proof -
  let ?win = "get_window (spectrum_nperseg nbins)"
  let ?avg = "map (\<lambda>p. p / real_of_int c) tot"
  have avg: "map (\<lambda>p. np_div (Fin p) (real_of_int c)) tot = map Fin ?avg"
    using assms(2) by (simp add: np_div_def)
  have db: "p_db = p_avg_db_hz (p_avg_hz ?win rate (map Fin ?avg))"
    using spectrum_try_power [OF assms(1)] avg by simp
  have i: "i < length ?avg"
    using assms(5) by simp
  have hz: "p_avg_hz ?win rate (map Fin ?avg) ! i
      = Fin (tot ! i / real_of_int c * ((sum_list ?win)\<^sup>2 / sum_list (map (\<lambda>w. w * w) ?win)) / rate)"
    using p_avg_hz_nth [OF assms(4,3) i] assms(5) by simp
  have len: "length p_db = length tot"
    by (simp add: db p_avg_db_hz_def p_avg_hz_def)
  have "i < length (p_avg_hz ?win rate (map Fin ?avg))"
    using assms(5) by (simp add: p_avg_hz_def)
  from p_avg_db_hz_nth [OF this]
  have "p_db ! i =
           (let psd = tot ! i / real_of_int c
                  * ((sum_list ?win)\<^sup>2 / sum_list (map (\<lambda>w. w * w) ?win)) / rate
            in if 0 < psd then Fin (10 * log 10 psd) else NonFinite)"
    unfolding db hz by (simp add: Let_def)
  with db hz len show ?thesis
    by (simp add: comp_def)
qed


section \<open>Runs on the sample inputs\<close>

lemma add_periodograms_flat:
  "add_periodograms flat_welch fs n (Some m) (replicate (nat m) x) bs
     = replicate (nat m) (x + real (length bs))"
  "add_periodograms flat_welch fs n None (replicate (nat n) x) bs
     = replicate (nat n) (x + real (length bs))"
  unfolding add_periodograms_def
  by (induction bs arbitrary: x) (simp_all add: flat_welch_def Let_def zip_replicate add.assoc)

lemma last_freqs_const:
  assumes "\<forall>iq. fst (welch iq fs n m) = ax"
  shows "last_freqs welch fs n m fr bs = (if bs = [] then fr else ax)"
  unfolding last_freqs_def
  using assms by (induction bs arbitrary: fr) simp_all

lemma flat_welch_axis:
  "fst (flat_welch iq fs n (Some m)) = fftfreq (nat m) (1 / fs)"
  "fst (flat_welch iq fs n None) = fftfreq (nat n) (1 / fs)"
  by (simp_all add: flat_welch_def Let_def)

lemma fftfreq_2: "fftfreq 2 1 = [0, - 1 / 2]"
  by (simp add: fftfreq_def upt_0_2)

lemma fftshift_2: "fftshift [a, b] = [b, a]"
  by (simp add: fftshift_def)

lemma spectrum_example:
  assumes "spectrum_num_loops 1 t_int 1 = k + 1" and "0 \<le> k"
  shows "\<exists>d. spectrum_try ones_source flat_welch boxcar 1 2 0 1 fc t_int =
     (Inr ((map (\<lambda>f. f + fc) [- 1 / 2, 0],
            p_avg_db_hz (p_avg_hz [1, 1] 1
              (map (\<lambda>p. np_div (Fin p) (real_of_int k))
                 [real_of_int k + 1, real_of_int k + 1]))),
           ([real_of_int k + 1, real_of_int k + 1], k)), d)
     \<and> nread d = nat (k + 1)"
proof -
  note n = assms(1)
  note pos = assms(2)
  have two: "replicate (nat 2) x = [x, x]" for x :: real
    by (simp add: numeral_2_eq_2)
  from spectrum_try_ok [where welch = flat_welch and rate = 1 and nbins = 2 and num_samp = 1
      and t_int = t_int and fc = fc and gain = 0 and src = ones_source and get_window = boxcar]
  obtain fr tot c d where r:
    "spectrum_try ones_source flat_welch boxcar 1 2 0 1 fc t_int =
        (Inr ((map (\<lambda>f. f + fc) (fftshift fr),
               p_avg_db_hz (p_avg_hz (boxcar (spectrum_nperseg 2)) 1
                 (map (\<lambda>p. np_div (Fin p) (real_of_int c)) (fftshift tot)))),
              (fftshift tot, c)), d)"
    "fr = last_freqs flat_welch 1 (spectrum_nperseg 2) (Some 2) (replicate (nat 2) 0)
             (map (\<lambda>k. ones_source k fc 1) [0 ..< nat (spectrum_num_loops 1 t_int 1)])"
    "tot = add_periodograms flat_welch 1 (spectrum_nperseg 2) (Some 2) (replicate (nat 2) 0)
             (map (\<lambda>k. ones_source k fc 1) [0 ..< nat (spectrum_num_loops 1 t_int 1)])"
    "c = (if spectrum_num_loops 1 t_int 1 \<le> 0 then 0 else spectrum_num_loops 1 t_int 1 - 1)"
    "nread d = nat (spectrum_num_loops 1 t_int 1)"
    by (auto simp add: flat_welch_len)
  have fr: "fr = [0, - 1 / 2]"
    using pos
    by (simp add: r(2) n last_freqs_const [where ax = "fftfreq 2 1"] flat_welch_axis fftfreq_2
        nat_add_distrib)
  have tot: "tot = [real_of_int k + 1, real_of_int k + 1]"
    using pos unfolding r(3) add_periodograms_flat n
    by (simp add: numeral_2_eq_2 nat_add_distrib add.commute)
  have "\<not> k + 1 \<le> 0"
    using pos by linarith
  then have c: "c = k"
    unfolding r(4) n by simp
  have win: "boxcar (spectrum_nperseg 2) = [1, 1]"
    by (simp add: boxcar_def spectrum_nperseg_def numeral_2_eq_2)
  show ?thesis
    using r(1,5) by (simp add: fr tot c win fftshift_2 n)
qed

lemma spectrum_num_loops_examples:
  "spectrum_num_loops 1 1 1 = 1 + 1" "spectrum_num_loops 1 (1 / 2) 1 = 0 + 1"
  "spectrum_num_loops 1 2 1 = 2 + 1"
  by (simp_all add: spectrum_num_loops_def py_int_def)


lemma list_of_two: "length xs = 2 \<Longrightarrow> xs = [xs ! 0, xs ! 1]"
proof -
  assume "length xs = 2"
  then obtain a b where "xs = [a, b]"
    by (cases xs; cases "tl xs") auto
  then show ?thesis by simp
qed

text \<open>
  C3 at two bins, one sample per second and two periodograms of ones: the density
  is \<open>2 / 1 * (2\<^sup>2 / 2) / 1 = 4\<close> in both bins.
\<close>

theorem psd_normalization_witness:
  "fst (run_spectrum_int ones_source flat_welch boxcar 1 2 0 1 0 1)
     = Inr ([- 1 / 2, 0], [Fin (10 * log 10 4), Fin (10 * log 10 4)])"
proof -
  from spectrum_example [where t_int = 1 and k = 1 and fc = 0, OF spectrum_num_loops_examples(1)]
  obtain d where t: "spectrum_try ones_source flat_welch boxcar 1 2 0 1 0 1 =
     (Inr (([- 1 / 2, 0],
            p_avg_db_hz (p_avg_hz [1, 1] 1 [Fin 2, Fin 2])),
           ([2, 2], 1)), d)"
    by (auto simp add: np_div_def)
  let ?p = "p_avg_db_hz (p_avg_hz [1, 1] 1 [Fin 2, Fin 2])"
  have f: "fst (spectrum_try ones_source flat_welch boxcar 1 2 0 1 0 1)
      = Inr (([- 1 / 2, 0], ?p), ([2, 2], 1))"
    by (simp add: t)
  have w: "boxcar (spectrum_nperseg 2) = [1, 1]"
    by (simp add: boxcar_def spectrum_nperseg_def numeral_2_eq_2)
  have h: "(1::int) \<noteq> 0" "(1::real) \<noteq> 0"
    "sum_list (map (\<lambda>w. w * w) (boxcar (spectrum_nperseg 2))) \<noteq> 0"
    by (simp_all add: w)
  have i0: "(0::nat) < length [2, 2 :: real]" and i1: "(1::nat) < length [2, 2 :: real]"
    by simp_all
  from psd_normalization [OF f h i0] have p0: "?p ! 0 = Fin (10 * log 10 4)" and l: "length ?p = 2"
    by (simp_all add: w Let_def)
  from psd_normalization [OF f h i1] have p1: "?p ! 1 = Fin (10 * log 10 4)"
    by (simp add: w Let_def)
  have "?p = [?p ! 0, ?p ! 1]"
    using l by (rule list_of_two)
  then have "?p = [Fin (10 * log 10 4), Fin (10 * log 10 4)]"
    unfolding p0 p1 .
  then show ?thesis
    using run_spectrum_ok [OF t] by simp
qed


lemma replicate_2: "replicate 2 x = [x, x]"
  by (simp add: numeral_2_eq_2)

lemma fswitch_flat:
  assumes "num_samp \<noteq> 0" and "fswitch_N_dwell rate fswitch \<noteq> 0"
  shows "\<exists>st d.
      fswitch_try ones_source flat_welch num_samp 2 gain rate fc fthrow t_int fswitch =
        (Inr ((map (\<lambda>f. f + fc) (fftshift (freqs_on st)),
               map (\<lambda>f. f + fthrow) (fftshift (freqs_off st)),
               map (\<lambda>p. np_div (Fin p) (real_of_int (cnt st))) (fftshift (p_xx_on st)),
               map (\<lambda>p. np_div (Fin p) (real_of_int (cnt st))) (fftshift (p_xx_off st))),
              st), d)
    \<and> p_xx_on st = replicate 2 (real (length (on_blocks ones_source num_samp fc
          (nat (fswitch_num_loops rate fswitch num_samp))
          [0 ..< nat (fswitch_num_dwells rate t_int fswitch)])))
    \<and> p_xx_off st = replicate 2 (real (length (off_blocks ones_source num_samp fthrow
          (nat (fswitch_num_loops rate fswitch num_samp))
          [0 ..< nat (fswitch_num_dwells rate t_int fswitch)])))
    \<and> freqs_on st = (if on_blocks ones_source num_samp fc
          (nat (fswitch_num_loops rate fswitch num_samp))
          [0 ..< nat (fswitch_num_dwells rate t_int fswitch)] = [] then replicate 2 0
          else fftfreq 2 (1 / rate))
    \<and> freqs_off st = (if off_blocks ones_source num_samp fthrow
          (nat (fswitch_num_loops rate fswitch num_samp))
          [0 ..< nat (fswitch_num_dwells rate t_int fswitch)] = [] then replicate 2 0
          else fftfreq 2 (1 / rate))
    \<and> cnt st = int (nat (fswitch_num_dwells rate t_int fswitch)
                     * nat (fswitch_num_loops rate fswitch num_samp))
    \<and> nread d = nat (fswitch_num_dwells rate t_int fswitch)
                     * nat (fswitch_num_loops rate fswitch num_samp)
    \<and> calls d = [RtlSdr, SetRs rate, SetFc fc, SetGain gain] @
         concat (map (\<lambda>i. dwell_calls (if even i then fc else fthrow) num_samp rate 2
                            (nat (fswitch_num_loops rate fswitch num_samp)))
                   [0 ..< nat (fswitch_num_dwells rate t_int fswitch)])"
proof -
  have len: "\<forall>iq. length (snd (flat_welch iq rate 2 None)) = nat 2"
    by (simp add: flat_welch_len)
  have ax: "\<forall>iq. fst (flat_welch iq rate 2 None) = fftfreq 2 (1 / rate)"
    by (simp add: flat_welch_axis)
  have two: "replicate (nat 2) x = replicate 2 x" for x :: real
    by simp
  have nb: "(0::int) \<le> 2"
    by simp
  have lf: "last_freqs flat_welch rate 2 None fr bs = (if bs = [] then fr else fftfreq 2 (1 / rate))"
    for fr bs
    using ax by (rule last_freqs_const)
  have ap: "add_periodograms flat_welch rate 2 None (replicate (nat 2) 0) bs
      = replicate 2 (real (length bs))" for bs
    using add_periodograms_flat(2) [of rate 2 0 bs] by simp
  note r = fswitch_try_ok [where welch = flat_welch and src = ones_source and nbins = 2
      and gain = gain and fc = fc and fthrow = fthrow and t_int = t_int, OF len nb assms,
      unfolded ap lf]
  show ?thesis
    using r
    apply (elim exE conjE)
    subgoal for st d
      by (rule exI [of _ st], rule exI [of _ d]) simp
    done
qed

lemma fswitch_example:
  "fst (run_fswitch_int fold_args ones_source flat_welch 4 2 0 4 0 1 2 1)
     = Inr ([- 2, 0], [- 1, 1], [Fin (1 / 2), Fin (1 / 2)], [Fin (1 / 2), Fin (1 / 2)])"
proof -
  have nd: "fswitch_N_dwell 4 1 = 4"
    by (simp add: fswitch_N_dwell_def py_int_def)
  have nl: "fswitch_num_loops 4 1 4 = 1"
    by (simp add: fswitch_num_loops_def nd)
  have d: "fswitch_num_dwells 4 2 1 = 2"
    by (simp add: fswitch_num_dwells_def nd py_int_def)
  have ax: "fftfreq 2 (1 / 4) = [0, - 2]"
    by (simp add: fftfreq_def upt_0_2)
  from fswitch_flat [where num_samp = 4 and rate = 4 and fswitch = 1 and t_int = 2
      and gain = 0 and fc = 0 and fthrow = 1]
  obtain st dv where
    t: "fswitch_try ones_source flat_welch 4 2 0 4 0 1 2 1 =
        (Inr (([- 2, 0], [- 1, 1], [Fin (1 / 2), Fin (1 / 2)], [Fin (1 / 2), Fin (1 / 2)]), st), dv)"
    by (auto simp add: nd nl d on_blocks_def off_blocks_def dwell_blocks_def upt_0_2 ax
        fftshift_2 np_div_def replicate_2)
  show ?thesis
    using run_fswitch_ok [where F = fold_args and fswitch = 1 and t_int = 2, OF _ _ t]
    by (simp add: fold_args_def)
qed

section \<open>Rejection of a too short integration time\<close>

lemma fswitch_threshold:
  "float64 (2 * float64 (1 / fswitch)) = float64 (2 / fswitch)"
proof -
  have "float64 (2 * float64 (1 / fswitch)) = 2 * float64 (1 / fswitch)"
    by (simp only: float64_scale2 float64_idem)
  also have "\<dots> = float64 (2 * (1 / fswitch))"
    by (simp only: float64_scale2)
  finally show ?thesis
    by simp
qed











section \<open>Finalising with a zero count\<close>

lemma fswitch_try_result:
  assumes "fst (fswitch_try src welch num_samp nbins gain rate fc fthrow t_int fswitch)
             = Inr ((f_on, f_off, p_on, p_off), st)"
  shows "f_on = map (\<lambda>f. f + fc) (fftshift (freqs_on st))"
    and "f_off = map (\<lambda>f. f + fthrow) (fftshift (freqs_off st))"
    and "p_on = map (\<lambda>p. np_div (Fin p) (real_of_int (cnt st))) (fftshift (p_xx_on st))"
    and "p_off = map (\<lambda>p. np_div (Fin p) (real_of_int (cnt st))) (fftshift (p_xx_off st))"
  using assms
  unfolding fswitch_try_def Let_def
  by (auto split: if_splits sum.splits prod.splits)

lemma length_fftshift: "length (fftshift xs) = length xs"
  by (simp add: fftshift_def Let_def)

lemma db_of_zero_count:
  "p_avg_db_hz (p_avg_hz win rate (map (\<lambda>p. np_div (Fin p) 0) tot))
     = replicate (length tot) NonFinite"
  by (simp add: p_avg_db_hz_def p_avg_hz_def np_div_def np_mul_def np_log10_def comp_def
      map_replicate_const)

lemma fswitch_N_dwell_tenth: "fswitch_N_dwell 2400000 10 = 240000"
proof -
  have "float64 (2400000 * float64 (1 / 10)) = 240000"
    unfolding float64_tenth
    using float64_at [where x = "2400000 * (3602879701896397 / 36028797018963968)"
        and e = 17 and n = 8246337208320000]
    by (simp add: powr_neg_numeral powr_numeral)
  then show ?thesis
    by (simp add: fswitch_N_dwell_def py_int_def)
qed

lemma fswitch_num_dwells_fifth: "fswitch_num_dwells 2400000 (float64 (1 / 5)) 10 = 2"
proof -
  have "float64 (2400000 * float64 (1 / 5)) = 480000"
    unfolding float64_fifth
    using float64_at [where x = "2400000 * (3602879701896397 / 18014398509481984)"
        and e = 18 and n = 8246337208320000]
    by (simp add: powr_neg_numeral powr_numeral)
  then show ?thesis
    by (simp add: fswitch_num_dwells_def fswitch_N_dwell_tenth py_int_def)
qed

lemma fswitch_example_empty:
  "run_fswitch_int fold_args ones_source flat_welch 262144 2 0 2400000 0 1 (float64 (1 / 5)) 10
     = (Inr ([0, 0], [1, 1], [NonFinite, NonFinite], [NonFinite, NonFinite]),
        [RtlSdr, SetRs 2400000, SetFc 0, SetGain 0, SetFc 0, SetFc 1, Close, Close])"
proof -
  note nd = fswitch_N_dwell_tenth
  have nl: "fswitch_num_loops 2400000 10 262144 = 0"
    by (simp add: fswitch_num_loops_def nd)
  note d = fswitch_num_dwells_fifth
  have "float64 (2 * float64 (1 / 10)) = float64 (1 / 5)"
    using fswitch_threshold [of 10] by simp
  then have th: "float64 (2 * float64 (1 / 10)) \<le> float64 (1 / 5)"
    by simp
  from fswitch_flat [where num_samp = 262144 and rate = 2400000 and fswitch = 10
      and t_int = "float64 (1 / 5)" and gain = 0 and fc = 0 and fthrow = 1]
  obtain st dv where
    t: "fswitch_try ones_source flat_welch 262144 2 0 2400000 0 1 (float64 (1 / 5)) 10 =
        (Inr (([0, 0], [1, 1], [NonFinite, NonFinite], [NonFinite, NonFinite]), st), dv)"
    and c: "calls dv = [RtlSdr, SetRs 2400000, SetFc 0, SetGain 0, SetFc 0, SetFc 1]"
    by (auto simp add: nd nl d on_blocks_def off_blocks_def dwell_blocks_def dwell_calls_def
        upt_0_2 fftshift_2 np_div_def replicate_2)
  show ?thesis
    using run_fswitch_ok [where F = fold_args and fswitch = 10 and t_int = "float64 (1 / 5)",
        OF _ th t] c
    by (simp add: fold_args_def)
qed

text \<open>
  Claim C4, as the code has it. The total-power run with no block delivered fails
  with \<^verbatim>\<open>ZeroDivisionError\<close>. The spectrum accumulators are numpy arrays: when the
  count that \<^verbatim>\<open>run_spectrum_int\<close> or \<^verbatim>\<open>run_fswitch_int\<close> divides by is zero, no
  error is raised and every entry of the averaged spectrum is \<open>nan\<close> or \<open>inf\<close>.
\<close>

theorem zero_count_finalization:
  "fst (run_total_power_int [] num_samp gain rate fc t_int) = Inl ZeroDivisionError
   \<and> (fst (spectrum_try src welch get_window num_samp nbins gain rate fc t_int)
          = Inr ((freqs, p_db), (tot, 0))
        \<longrightarrow> p_db = replicate (length tot) NonFinite)
   \<and> (fst (fswitch_try src welch num_samp nbins gain rate fc fthrow t_int fswitch)
          = Inr ((f_on, f_off, p_on, p_off), st) \<and> cnt st = 0
        \<longrightarrow> p_on = replicate (length (p_xx_on st)) NonFinite
          \<and> p_off = replicate (length (p_xx_off st)) NonFinite)"
proof (intro conjI impI)
  show "fst (run_total_power_int [] num_samp gain rate fc t_int) = Inl ZeroDivisionError"
    by (simp add: run_total_power_value)
next
  assume "fst (spectrum_try src welch get_window num_samp nbins gain rate fc t_int)
          = Inr ((freqs, p_db), (tot, 0))"
  from spectrum_try_power [OF this] show "p_db = replicate (length tot) NonFinite"
    by (simp add: db_of_zero_count)
next
  assume a: "fst (fswitch_try src welch num_samp nbins gain rate fc fthrow t_int fswitch)
          = Inr ((f_on, f_off, p_on, p_off), st) \<and> cnt st = 0"
  then show "p_on = replicate (length (p_xx_on st)) NonFinite"
    using fswitch_try_result(3) [of src welch num_samp nbins gain rate fc fthrow t_int fswitch
        f_on f_off p_on p_off st]
    by (simp add: np_div_def map_replicate_const length_fftshift)
  from a show "p_off = replicate (length (p_xx_off st)) NonFinite"
    using fswitch_try_result(4) [of src welch num_samp nbins gain rate fc fthrow t_int fswitch
        f_on f_off p_on p_off st]
    by (simp add: np_div_def map_replicate_const length_fftshift)
qed

text \<open>
  C4 at an empty total-power run, and at an averaged-spectrum run of half a second
  at one sample per second, which reads one block and divides by the count 0.
\<close>

theorem zero_count_finalization_witness:
  "fst (run_total_power_int [] 1024 0 2400000 1420000000 1) = Inl ZeroDivisionError
   \<and> fst (run_spectrum_int ones_source flat_welch boxcar 1 2 0 1 0 (1 / 2))
       = Inr ([- 1 / 2, 0], [NonFinite, NonFinite])"
proof
  show "fst (run_total_power_int [] 1024 0 2400000 1420000000 1) = Inl ZeroDivisionError"
    by (rule zero_count_finalization [THEN conjunct1])
next
  from spectrum_example [where t_int = "1 / 2" and k = 0 and fc = 0, OF spectrum_num_loops_examples(2)]
  obtain d where t: "spectrum_try ones_source flat_welch boxcar 1 2 0 1 0 (1 / 2) =
     (Inr (([- 1 / 2, 0],
            p_avg_db_hz (p_avg_hz [1, 1] 1 (map (\<lambda>p. np_div (Fin p) 0) [1, 1]))),
           ([1, 1], 0)), d)"
    by auto
  then have "fst (spectrum_try ones_source flat_welch boxcar 1 2 0 1 0 (1 / 2)) =
      Inr (([- 1 / 2, 0],
            p_avg_db_hz (p_avg_hz [1, 1] 1 (map (\<lambda>p. np_div (Fin p) 0) [1, 1]))),
           ([1, 1], 0))"
    by simp
  from zero_count_finalization [THEN conjunct2, THEN conjunct1, rule_format, OF this]
  have "p_avg_db_hz (p_avg_hz [1, 1] 1 (map (\<lambda>p. np_div (Fin p) 0) [1, 1]))
      = [NonFinite, NonFinite]"
    by (simp add: replicate_2)
  then show "fst (run_spectrum_int ones_source flat_welch boxcar 1 2 0 1 0 (1 / 2))
       = Inr ([- 1 / 2, 0], [NonFinite, NonFinite])"
    using run_spectrum_ok [OF t] by simp
qed

text \<open>
  C4 as stated fails.
  At 2.4 MHz, 10 switches per second and \<^verbatim>\<open>t_int = 0.2\<close> a dwell holds 240000
  samples, fewer than one block of 262144: no block is read, both accumulators
  stay empty, and the run returns spectra of \<open>nan\<close> instead of failing.
\<close>

theorem empty_spectrum_counterexample:
  "run_fswitch_int fold_args ones_source flat_welch 262144 2 0 2400000 0 1 (float64 (1 / 5)) 10
     = (Inr ([0, 0], [1, 1], [NonFinite, NonFinite], [NonFinite, NonFinite]),
        [RtlSdr, SetRs 2400000, SetFc 0, SetGain 0, SetFc 0, SetFc 1, Close, Close])"
  by (rule fswitch_example_empty)

section \<open>The count that the averages divide by\<close>

lemma db_example: "p_avg_db_hz (p_avg_hz [1, 1] 1 [Fin (3 / 2), Fin (3 / 2)])
    = [Fin (10 * log 10 3), Fin (10 * log 10 3)]"
  by (simp add: p_avg_db_hz_def p_avg_hz_def win_factor_def np_div_def np_mul_def np_log10_def)

text \<open>
  Claim C1 fails on the code. With a rate of one sample per second, two seconds
  and blocks of one sample, \<^verbatim>\<open>run_spectrum_int\<close> reads three blocks and adds three
  periodograms of ones (sum 3 in every bin), then divides by the loop variable,
  which is 2: the density is 3 where the average of the three gives 2. With one ON
  and one OFF dwell of one block each, \<^verbatim>\<open>run_fswitch_int\<close> hands the folder 1/2 in
  every bin: each sum holds one periodogram of ones and is divided by the total
  count 2.
\<close>

theorem averaging_count_mismatch:
  "(\<exists>d. spectrum_try ones_source flat_welch boxcar 1 2 0 1 0 2 =
          (Inr (([- 1 / 2, 0], [Fin (10 * log 10 3), Fin (10 * log 10 3)]), ([3, 3], 2)), d)
        \<and> nread d = 3)
   \<and> fst (run_fswitch_int fold_args ones_source flat_welch 4 2 0 4 0 1 2 1)
       = Inr ([- 2, 0], [- 1, 1], [Fin (1 / 2), Fin (1 / 2)], [Fin (1 / 2), Fin (1 / 2)])"
proof
  from spectrum_example [where t_int = 2 and k = 2 and fc = 0, OF spectrum_num_loops_examples(3)]
  show "\<exists>d. spectrum_try ones_source flat_welch boxcar 1 2 0 1 0 2 =
          (Inr (([- 1 / 2, 0], [Fin (10 * log 10 3), Fin (10 * log 10 3)]), ([3, 3], 2)), d)
        \<and> nread d = 3"
    by (simp add: np_div_def db_example)
next
  show "fst (run_fswitch_int fold_args ones_source flat_welch 4 2 0 4 0 1 2 1)
       = Inr ([- 2, 0], [- 1, 1], [Fin (1 / 2), Fin (1 / 2)], [Fin (1 / 2), Fin (1 / 2)])"
    by (rule fswitch_example)
qed

section \<open>What the folder receives\<close>

lemma run_fswitch_value:
  assumes "fswitch \<noteq> 0" and "float64 (2 * float64 (1 / fswitch)) \<le> t_int"
    and "\<forall>iq. length (snd (welch iq rate nbins None)) = nat nbins"
    and "0 \<le> nbins" and "num_samp \<noteq> 0" and "fswitch_N_dwell rate fswitch \<noteq> 0"
  shows "fst (run_fswitch_int f_throw_fold src welch num_samp nbins gain rate fc fthrow t_int fswitch)
    = Inr (f_throw_fold
        (map (\<lambda>f. f + fc) (fftshift
           (last_freqs welch rate nbins None (replicate (nat nbins) 0)
              (on_blocks src num_samp fc (nat (fswitch_num_loops rate fswitch num_samp))
                 [0 ..< nat (fswitch_num_dwells rate t_int fswitch)]))))
        (map (\<lambda>f. f + fthrow) (fftshift
           (last_freqs welch rate nbins None (replicate (nat nbins) 0)
              (off_blocks src num_samp fthrow (nat (fswitch_num_loops rate fswitch num_samp))
                 [0 ..< nat (fswitch_num_dwells rate t_int fswitch)]))))
        (map (\<lambda>p. np_div (Fin p)
                (real (nat (fswitch_num_dwells rate t_int fswitch)
                       * nat (fswitch_num_loops rate fswitch num_samp))))
           (fftshift
             (add_periodograms welch rate nbins None (replicate (nat nbins) 0)
                (on_blocks src num_samp fc (nat (fswitch_num_loops rate fswitch num_samp))
                   [0 ..< nat (fswitch_num_dwells rate t_int fswitch)]))))
        (map (\<lambda>p. np_div (Fin p)
                (real (nat (fswitch_num_dwells rate t_int fswitch)
                       * nat (fswitch_num_loops rate fswitch num_samp))))
           (fftshift
             (add_periodograms welch rate nbins None (replicate (nat nbins) 0)
                (off_blocks src num_samp fthrow (nat (fswitch_num_loops rate fswitch num_samp))
                   [0 ..< nat (fswitch_num_dwells rate t_int fswitch)])))))"
proof -
  from fswitch_try_ok [where src = src and gain = gain and fc = fc and fthrow = fthrow
      and t_int = t_int and welch = welch and rate = rate and nbins = nbins
      and num_samp = num_samp and fswitch = fswitch, OF assms(3-6)]
  obtain st d where
    t: "fswitch_try src welch num_samp nbins gain rate fc fthrow t_int fswitch =
        (Inr ((map (\<lambda>f. f + fc) (fftshift (freqs_on st)),
               map (\<lambda>f. f + fthrow) (fftshift (freqs_off st)),
               map (\<lambda>p. np_div (Fin p) (real_of_int (cnt st))) (fftshift (p_xx_on st)),
               map (\<lambda>p. np_div (Fin p) (real_of_int (cnt st))) (fftshift (p_xx_off st))),
              st), d)"
    and v: "p_xx_on st = add_periodograms welch rate nbins None (replicate (nat nbins) 0)
         (on_blocks src num_samp fc (nat (fswitch_num_loops rate fswitch num_samp))
            [0 ..< nat (fswitch_num_dwells rate t_int fswitch)])"
      "freqs_on st = last_freqs welch rate nbins None (replicate (nat nbins) 0)
         (on_blocks src num_samp fc (nat (fswitch_num_loops rate fswitch num_samp))
            [0 ..< nat (fswitch_num_dwells rate t_int fswitch)])"
      "p_xx_off st = add_periodograms welch rate nbins None (replicate (nat nbins) 0)
         (off_blocks src num_samp fthrow (nat (fswitch_num_loops rate fswitch num_samp))
            [0 ..< nat (fswitch_num_dwells rate t_int fswitch)])"
      "freqs_off st = last_freqs welch rate nbins None (replicate (nat nbins) 0)
         (off_blocks src num_samp fthrow (nat (fswitch_num_loops rate fswitch num_samp))
            [0 ..< nat (fswitch_num_dwells rate t_int fswitch)])"
      "cnt st = int (nat (fswitch_num_dwells rate t_int fswitch)
                     * nat (fswitch_num_loops rate fswitch num_samp))"
    by blast
  have c: "real_of_int (cnt st) = real (nat (fswitch_num_dwells rate t_int fswitch)
                       * nat (fswitch_num_loops rate fswitch num_samp))"
    unfolding v(5) by simp
  show ?thesis
    using run_fswitch_ok [where F = f_throw_fold, OF assms(1,2) t]
    unfolding v(1-4) c by simp
qed

lemma fswitch_example_8:
  "fst (run_fswitch_int fold_args ones_source flat_welch 8 2 0 8 0 1 2 1)
     = Inr ([- 4, 0], [- 3, 1], [Fin (1 / 2), Fin (1 / 2)], [Fin (1 / 2), Fin (1 / 2)])"
proof -
  have nd: "fswitch_N_dwell 8 1 = 8"
    by (simp add: fswitch_N_dwell_def py_int_def)
  have nl: "fswitch_num_loops 8 1 8 = 1"
    by (simp add: fswitch_num_loops_def nd)
  have d: "fswitch_num_dwells 8 2 1 = 2"
    by (simp add: fswitch_num_dwells_def nd py_int_def)
  have ax: "fftfreq 2 (1 / 8) = [0, - 4]"
    by (simp add: fftfreq_def upt_0_2)
  from fswitch_flat [where num_samp = 8 and rate = 8 and fswitch = 1 and t_int = 2
      and gain = 0 and fc = 0 and fthrow = 1]
  obtain st dv where
    t: "fswitch_try ones_source flat_welch 8 2 0 8 0 1 2 1 =
        (Inr (([- 4, 0], [- 3, 1], [Fin (1 / 2), Fin (1 / 2)], [Fin (1 / 2), Fin (1 / 2)]), st), dv)"
    by (auto simp add: nd nl d on_blocks_def off_blocks_def dwell_blocks_def upt_0_2 ax
        fftshift_2 np_div_def replicate_2)
  show ?thesis
    using run_fswitch_ok [where F = fold_args and fswitch = 1 and t_int = 2, OF _ _ t]
    by (simp add: fold_args_def)
qed

text \<open>
  Claim C7, as the code has it. When the configuration is accepted and every
  periodogram has \<^verbatim>\<open>nbins\<close> bins, the folder receives the two frequency axes,
  shifted and re-centred, and the two accumulated sums, shifted and divided by the
  number of blocks read: averaged power spectra, with no window correction and no
  division by the sample rate.
\<close>

theorem fold_inputs:
  assumes "fswitch \<noteq> 0" and "float64 (2 * float64 (1 / fswitch)) \<le> t_int"
    and "\<forall>iq. length (snd (welch iq rate nbins None)) = nat nbins"
    and "0 \<le> nbins" and "num_samp \<noteq> 0" and "fswitch_N_dwell rate fswitch \<noteq> 0"
  shows "fst (run_fswitch_int f_throw_fold src welch num_samp nbins gain rate fc fthrow t_int fswitch)
    = Inr (f_throw_fold
        (map (\<lambda>f. f + fc) (fftshift
           (last_freqs welch rate nbins None (replicate (nat nbins) 0)
              (on_blocks src num_samp fc (nat (fswitch_num_loops rate fswitch num_samp))
                 [0 ..< nat (fswitch_num_dwells rate t_int fswitch)]))))
        (map (\<lambda>f. f + fthrow) (fftshift
           (last_freqs welch rate nbins None (replicate (nat nbins) 0)
              (off_blocks src num_samp fthrow (nat (fswitch_num_loops rate fswitch num_samp))
                 [0 ..< nat (fswitch_num_dwells rate t_int fswitch)]))))
        (map (\<lambda>p. np_div (Fin p)
                (real (nat (fswitch_num_dwells rate t_int fswitch)
                       * nat (fswitch_num_loops rate fswitch num_samp))))
           (fftshift
             (add_periodograms welch rate nbins None (replicate (nat nbins) 0)
                (on_blocks src num_samp fc (nat (fswitch_num_loops rate fswitch num_samp))
                   [0 ..< nat (fswitch_num_dwells rate t_int fswitch)]))))
        (map (\<lambda>p. np_div (Fin p)
                (real (nat (fswitch_num_dwells rate t_int fswitch)
                       * nat (fswitch_num_loops rate fswitch num_samp))))
           (fftshift
             (add_periodograms welch rate nbins None (replicate (nat nbins) 0)
                (off_blocks src num_samp fthrow (nat (fswitch_num_loops rate fswitch num_samp))
                   [0 ..< nat (fswitch_num_dwells rate t_int fswitch)])))))"
  using assms by (rule run_fswitch_value)

text \<open>
  C7 at one ON and one OFF dwell of one block each, 8 samples per second.
\<close>

theorem fold_inputs_witness:
  "fst (run_fswitch_int fold_args ones_source flat_welch 8 2 0 8 0 1 2 1)
     = Inr ([- 4, 0], [- 3, 1], [Fin (1 / 2), Fin (1 / 2)], [Fin (1 / 2), Fin (1 / 2)])"
proof -
  have nd: "fswitch_N_dwell 8 1 = 8"
    by (simp add: fswitch_N_dwell_def py_int_def)
  have nl: "fswitch_num_loops 8 1 8 = 1"
    by (simp add: fswitch_num_loops_def nd)
  have d: "fswitch_num_dwells 8 2 1 = 2"
    by (simp add: fswitch_num_dwells_def nd py_int_def)
  have ax: "fftfreq 2 (1 / 8) = [0, - 4]"
    by (simp add: fftfreq_def upt_0_2)
  have h: "(1::real) \<noteq> 0" "float64 (2 * float64 (1 / 1)) \<le> (2::real)"
    "\<forall>iq. length (snd (flat_welch iq 8 2 None)) = nat 2"
    "(0::int) \<le> 2" "(8::int) \<noteq> 0" "fswitch_N_dwell 8 1 \<noteq> 0"
    by (simp_all add: flat_welch_len nd)
  have axs: "\<forall>iq. fst (flat_welch iq 8 2 None) = fftfreq 2 (1 / 8)"
    by (simp add: flat_welch_axis)
  have lf: "last_freqs flat_welch 8 2 None fr bs = (if bs = [] then fr else [0, - 4])" for fr bs
    using last_freqs_const [where welch = flat_welch and fs = 8 and n = 2 and m = None, OF axs]
    by (simp add: ax)
  have ap: "add_periodograms flat_welch 8 2 None (replicate (nat 2) 0) bs
      = replicate 2 (real (length bs))" for bs
    using add_periodograms_flat(2) [of 8 2 0 bs] by simp
  show ?thesis
    unfolding fold_inputs [where f_throw_fold = fold_args and src = ones_source
      and welch = flat_welch and gain = 0 and fc = 0 and fthrow = 1, OF h] ap lf
    by (simp add: nl d on_blocks_def off_blocks_def dwell_blocks_def upt_0_2 fftshift_2
        np_div_def replicate_2 fold_args_def)
qed

text \<open>
  C7 as stated fails.
  At a sample rate of 8 the folder receives 1/2 in every bin, the sum of one
  periodogram of ones over the count 2. Neither that value nor the average 1 of the
  one periodogram, normalised to a density with the two-point Hann window \<open>[0, 1]\<close>
  or the flat window, is 1/2.
\<close>

theorem fold_inputs_counterexample:
  "fst (run_fswitch_int fold_args ones_source flat_welch 8 2 0 8 0 1 2 1)
     = Inr ([- 4, 0], [- 3, 1], [Fin (1 / 2), Fin (1 / 2)], [Fin (1 / 2), Fin (1 / 2)])
   \<and> p_avg_hz [0, 1] 8 [Fin (1 / 2), Fin (1 / 2)] \<noteq> [Fin (1 / 2), Fin (1 / 2)]
   \<and> p_avg_hz [1, 1] 8 [Fin (1 / 2), Fin (1 / 2)] \<noteq> [Fin (1 / 2), Fin (1 / 2)]
   \<and> p_avg_hz [0, 1] 8 [Fin 1, Fin 1] \<noteq> [Fin (1 / 2), Fin (1 / 2)]
   \<and> p_avg_hz [1, 1] 8 [Fin 1, Fin 1] \<noteq> [Fin (1 / 2), Fin (1 / 2)]"
  by (simp add: fswitch_example_8 p_avg_hz_def win_factor_def np_div_def np_mul_def)

section \<open>The frequency axis\<close>

lemma fftshift_nth:
  assumes "i < length xs"
  shows "fftshift xs ! i = xs ! ((i + (length xs - length xs div 2)) mod length xs)"
proof -
  let ?n = "length xs"
  let ?k = "?n - ?n div 2"
  have k: "?k \<le> ?n" by simp
  show ?thesis
  proof (cases "i < ?n - ?k")
    case True
    then have "fftshift xs ! i = xs ! (?k + i)"
      by (simp add: fftshift_def Let_def nth_append)
    moreover have "(i + ?k) mod ?n = ?k + i"
      using True by simp
    ultimately show ?thesis by simp
  next
    case False
    then have "fftshift xs ! i = xs ! (i - (?n - ?k))"
      using assms by (simp add: fftshift_def Let_def nth_append)
    moreover have "(i + ?k) mod ?n = i - (?n - ?k)"
    proof -
      have "i + ?k = (i - (?n - ?k)) + ?n"
        using False k by simp
      moreover have "i - (?n - ?k) < ?n"
        using assms by simp
      ultimately show ?thesis
        by (metis mod_add_self2 mod_less)
    qed
    ultimately show ?thesis by simp
  qed
qed

lemma fftshift_middle:
  assumes "xs \<noteq> []"
  shows "fftshift xs ! (length xs div 2) = xs ! 0"
proof -
  have "length xs div 2 < length xs"
    using assms by simp
  from fftshift_nth [OF this] show ?thesis
    by simp
qed

lemma fftshift_fftfreq_nth:
  assumes "i < n"
  shows "fftshift (fftfreq n d) ! i = (real i - real (n div 2)) / (d * real n)"
proof -
  have len: "length (fftfreq n d) = n"
    by (simp add: fftfreq_def)
  have k: "n - n div 2 = (n + 1) div 2"
    by presburger
  show ?thesis
  proof (cases "i < n div 2")
    case True
    then have j: "(i + (n - n div 2)) mod n = i + (n - n div 2)" "i + (n - n div 2) < n"
      by simp_all
    have "\<not> i + (n - n div 2) < (n + 1) div 2"
      using k by simp
    moreover have "real (i + (n - n div 2)) - real n = real i - real (n div 2)"
      using j(2) by (simp add: of_nat_diff)
    ultimately show ?thesis
      using fftshift_nth [of i "fftfreq n d"] assms j
      by (simp add: len) (simp add: fftfreq_def)
  next
    case False
    then have "i + (n - n div 2) = (i - n div 2) + n"
      by simp
    then have j: "(i + (n - n div 2)) mod n = i - n div 2"
      using assms by (metis mod_add_self2 mod_less less_imp_diff_less)
    have lt: "i - n div 2 < (n + 1) div 2"
      using assms False k by linarith
    have "real (i - n div 2) = real i - real (n div 2)"
      using False by (simp add: of_nat_diff)
    then show ?thesis
      using fftshift_nth [of i "fftfreq n d"] assms j lt
      by (simp add: len) (simp add: fftfreq_def)
  qed
qed


lemma dwell_blocks_Nil: "(dwell_blocks src num_samp f L i = []) = (L = 0)"
  by (simp add: dwell_blocks_def)

lemma blocks_no_reads:
  "on_blocks src num_samp fc 0 ds = []" "off_blocks src num_samp fthrow 0 ds = []"
  by (induction ds) (simp_all add: on_blocks_Cons off_blocks_Cons dwell_blocks_def,
      simp_all add: on_blocks_def off_blocks_def)

lemma on_blocks_not_Nil:
  assumes "0 < L" and "0 < D"
  shows "on_blocks src num_samp fc L [0 ..< D] \<noteq> []"
proof -
  have "[0 ..< D] = 0 # [Suc 0 ..< D]"
    using assms(2) by (simp add: upt_conv_Cons)
  then show ?thesis
    using assms(1) by (simp add: on_blocks_Cons dwell_blocks_Nil)
qed

lemma off_blocks_not_Nil:
  assumes "0 < L" and "1 < D"
  shows "off_blocks src num_samp fthrow L [0 ..< D] \<noteq> []"
proof -
  have "[0 ..< D] = 0 # Suc 0 # [Suc (Suc 0) ..< D]"
    using assms(2) by (simp add: upt_conv_Cons)
  then show ?thesis
    using assms(1) by (simp add: off_blocks_Cons dwell_blocks_Nil)
qed

lemma run_spectrum_value:
  assumes "\<forall>iq. length (snd (welch iq rate (spectrum_nperseg nbins) (Some nbins))) = nat nbins"
    and "0 \<le> nbins" and "num_samp \<noteq> 0" and "rate \<noteq> 0"
  shows "fst (run_spectrum_int src welch get_window num_samp nbins gain rate fc t_int)
    = Inr (map (\<lambda>f. f + fc) (fftshift
             (last_freqs welch rate (spectrum_nperseg nbins) (Some nbins) (replicate (nat nbins) 0)
                (map (\<lambda>k. src k fc num_samp) [0 ..< nat (spectrum_num_loops rate t_int num_samp)]))),
           p_avg_db_hz (p_avg_hz (get_window (spectrum_nperseg nbins)) rate
             (map (\<lambda>p. np_div (Fin p)
                     (real_of_int (if spectrum_num_loops rate t_int num_samp \<le> 0 then 0
                                   else spectrum_num_loops rate t_int num_samp - 1)))
                (fftshift
                  (add_periodograms welch rate (spectrum_nperseg nbins) (Some nbins)
                     (replicate (nat nbins) 0)
                     (map (\<lambda>k. src k fc num_samp)
                        [0 ..< nat (spectrum_num_loops rate t_int num_samp)]))))))"
proof -
  from spectrum_try_ok [where welch = welch and rate = rate and nbins = nbins
      and num_samp = num_samp and src = src and get_window = get_window and gain = gain
      and fc = fc and t_int = t_int, OF assms]
  obtain fr tot c d where
    t: "spectrum_try src welch get_window num_samp nbins gain rate fc t_int =
        (Inr ((map (\<lambda>f. f + fc) (fftshift fr),
               p_avg_db_hz (p_avg_hz (get_window (spectrum_nperseg nbins)) rate
                 (map (\<lambda>p. np_div (Fin p) (real_of_int c)) (fftshift tot)))),
              (fftshift tot, c)), d)"
    and v: "fr = last_freqs welch rate (spectrum_nperseg nbins) (Some nbins) (replicate (nat nbins) 0)
             (map (\<lambda>k. src k fc num_samp) [0 ..< nat (spectrum_num_loops rate t_int num_samp)])"
      "tot = add_periodograms welch rate (spectrum_nperseg nbins) (Some nbins) (replicate (nat nbins) 0)
             (map (\<lambda>k. src k fc num_samp) [0 ..< nat (spectrum_num_loops rate t_int num_samp)])"
      "c = (if spectrum_num_loops rate t_int num_samp \<le> 0 then 0
           else spectrum_num_loops rate t_int num_samp - 1)"
    by blast
  show ?thesis
    using run_spectrum_ok [OF t] unfolding v by simp
qed

lemma on_blocks_Nil_iff:
  "(on_blocks src num_samp fc L [0 ..< D] = []) = (L = 0 \<or> D = 0)"
proof (cases "0 < L \<and> 0 < D")
  case True
  then show ?thesis
    using on_blocks_not_Nil [of L D src num_samp fc] by simp
next
  case False
  then consider "L = 0" | "D = 0" by auto
  then show ?thesis
  proof cases
    case 1
    then show ?thesis by (simp add: blocks_no_reads)
  next
    case 2
    then show ?thesis by (simp add: on_blocks_def)
  qed
qed

lemma off_blocks_Nil_iff:
  "(off_blocks src num_samp fthrow L [0 ..< D] = []) = (L = 0 \<or> D \<le> 1)"
proof (cases "0 < L \<and> 1 < D")
  case True
  then show ?thesis
    using off_blocks_not_Nil [of L D src num_samp fthrow] by simp
next
  case False
  then consider "L = 0" | "D = 0" | "D = 1" by linarith
  then show ?thesis
  proof cases
    case 1
    then show ?thesis by (simp add: blocks_no_reads)
  next
    case 2
    then show ?thesis by (simp add: off_blocks_def)
  next
    case 3
    then show ?thesis by (simp add: off_blocks_def)
  qed
qed

text \<open>
  Claim C8. Let \<^verbatim>\<open>welch\<close> return the axis \<open>ax\<close> in FFT bin order for every block.
  The frequency axis returned by \<^verbatim>\<open>run_spectrum_int\<close> is \<open>fftshift\<close> of the axis that
  the loop left, with \<open>fc\<close> added to every bin; the loop left \<open>ax\<close>, or the initial
  zeros when it read no block. The two axes that \<^verbatim>\<open>run_fswitch_int\<close> hands on are
  \<open>fftshift\<close> of the axes that its loops left, with \<open>fc\<close> and with \<open>fthrow\<close> added: the
  on axis is \<open>ax'\<close> when an ON dwell has read a block, the off axis is \<open>ax'\<close> when an
  OFF dwell has, and each is the initial zeros otherwise. The accumulated powers
  are rotated by the same \<open>fftshift\<close>. The rotation moves bin \<open>0\<close>, the zero
  frequency, to the middle index \<open>length xs div 2\<close>; on the axis \<open>fftfreq n d\<close> it
  gives the ascending axis \<open>(j - n div 2) / (d n)\<close>. Each run is taken under
  its own conditions of success only.
\<close>

theorem recentred_axis:
  "((\<forall>iq. fst (welch iq rate (spectrum_nperseg nbins) (Some nbins)) = ax)
      \<and> (\<forall>iq. length (snd (welch iq rate (spectrum_nperseg nbins) (Some nbins))) = nat nbins)
      \<and> 0 \<le> nbins \<and> num_samp \<noteq> 0 \<and> rate \<noteq> 0 \<longrightarrow>
    fst (run_spectrum_int src welch get_window num_samp nbins gain rate fc t_int)
    = Inr (map (\<lambda>f. f + fc)
             (fftshift (if 0 < spectrum_num_loops rate t_int num_samp then ax
                        else replicate (nat nbins) 0)),
           p_avg_db_hz (p_avg_hz (get_window (spectrum_nperseg nbins)) rate
             (map (\<lambda>p. np_div (Fin p)
                     (real_of_int (if spectrum_num_loops rate t_int num_samp \<le> 0 then 0
                                   else spectrum_num_loops rate t_int num_samp - 1)))
                (fftshift
                  (add_periodograms welch rate (spectrum_nperseg nbins) (Some nbins)
                     (replicate (nat nbins) 0)
                     (map (\<lambda>k. src k fc num_samp)
                        [0 ..< nat (spectrum_num_loops rate t_int num_samp)])))))))
   \<and> ((\<forall>iq. fst (welch iq rate nbins None) = ax')
      \<and> (\<forall>iq. length (snd (welch iq rate nbins None)) = nat nbins)
      \<and> 0 \<le> nbins \<and> num_samp \<noteq> 0
      \<and> fswitch \<noteq> 0 \<and> float64 (2 * float64 (1 / fswitch)) \<le> t_int
      \<and> fswitch_N_dwell rate fswitch \<noteq> 0 \<longrightarrow>
    fst (run_fswitch_int fold_args src welch num_samp nbins gain rate fc fthrow t_int fswitch)
    = Inr (map (\<lambda>f. f + fc)
             (fftshift (if 0 < fswitch_num_loops rate fswitch num_samp
                           \<and> 0 < fswitch_num_dwells rate t_int fswitch then ax'
                        else replicate (nat nbins) 0)),
           map (\<lambda>f. f + fthrow)
             (fftshift (if 0 < fswitch_num_loops rate fswitch num_samp
                           \<and> 1 < fswitch_num_dwells rate t_int fswitch then ax'
                        else replicate (nat nbins) 0)),
           map (\<lambda>p. np_div (Fin p)
                  (real (nat (fswitch_num_dwells rate t_int fswitch)
                         * nat (fswitch_num_loops rate fswitch num_samp))))
             (fftshift
               (add_periodograms welch rate nbins None (replicate (nat nbins) 0)
                  (on_blocks src num_samp fc (nat (fswitch_num_loops rate fswitch num_samp))
                     [0 ..< nat (fswitch_num_dwells rate t_int fswitch)]))),
           map (\<lambda>p. np_div (Fin p)
                  (real (nat (fswitch_num_dwells rate t_int fswitch)
                         * nat (fswitch_num_loops rate fswitch num_samp))))
             (fftshift
               (add_periodograms welch rate nbins None (replicate (nat nbins) 0)
                  (off_blocks src num_samp fthrow (nat (fswitch_num_loops rate fswitch num_samp))
                     [0 ..< nat (fswitch_num_dwells rate t_int fswitch)])))))
   \<and> length (fftshift xs) = length xs
   \<and> (i < length xs \<longrightarrow>
        fftshift xs ! i = xs ! ((i + (length xs - length xs div 2)) mod length xs))
   \<and> (xs \<noteq> [] \<longrightarrow> fftshift xs ! (length xs div 2) = xs ! 0)
   \<and> (j < n \<longrightarrow> fftshift (fftfreq n d) ! j = (real j - real (n div 2)) / (d * real n))"
proof (intro conjI impI)
  assume a: "(\<forall>iq. fst (welch iq rate (spectrum_nperseg nbins) (Some nbins)) = ax)
      \<and> (\<forall>iq. length (snd (welch iq rate (spectrum_nperseg nbins) (Some nbins))) = nat nbins)
      \<and> 0 \<le> nbins \<and> num_samp \<noteq> 0 \<and> rate \<noteq> 0"
  then have h: "\<forall>iq. fst (welch iq rate (spectrum_nperseg nbins) (Some nbins)) = ax"
    "\<forall>iq. length (snd (welch iq rate (spectrum_nperseg nbins) (Some nbins))) = nat nbins"
    "0 \<le> nbins" "num_samp \<noteq> 0" "rate \<noteq> 0"
    by blast+
  show "fst (run_spectrum_int src welch get_window num_samp nbins gain rate fc t_int)
    = Inr (map (\<lambda>f. f + fc)
             (fftshift (if 0 < spectrum_num_loops rate t_int num_samp then ax
                        else replicate (nat nbins) 0)),
           p_avg_db_hz (p_avg_hz (get_window (spectrum_nperseg nbins)) rate
             (map (\<lambda>p. np_div (Fin p)
                     (real_of_int (if spectrum_num_loops rate t_int num_samp \<le> 0 then 0
                                   else spectrum_num_loops rate t_int num_samp - 1)))
                (fftshift
                  (add_periodograms welch rate (spectrum_nperseg nbins) (Some nbins)
                     (replicate (nat nbins) 0)
                     (map (\<lambda>k. src k fc num_samp)
                        [0 ..< nat (spectrum_num_loops rate t_int num_samp)]))))))"
    unfolding run_spectrum_value [where welch = welch and rate = rate and nbins = nbins
        and num_samp = num_samp and src = src and get_window = get_window and gain = gain
        and fc = fc and t_int = t_int, OF h(2-5)]
      last_freqs_const [where welch = welch and fs = rate and n = "spectrum_nperseg nbins"
        and m = "Some nbins" and ax = ax, OF h(1)]
    by simp
next
  assume a: "(\<forall>iq. fst (welch iq rate nbins None) = ax')
      \<and> (\<forall>iq. length (snd (welch iq rate nbins None)) = nat nbins)
      \<and> 0 \<le> nbins \<and> num_samp \<noteq> 0
      \<and> fswitch \<noteq> 0 \<and> float64 (2 * float64 (1 / fswitch)) \<le> t_int
      \<and> fswitch_N_dwell rate fswitch \<noteq> 0"
  then have h: "\<forall>iq. fst (welch iq rate nbins None) = ax'"
    "\<forall>iq. length (snd (welch iq rate nbins None)) = nat nbins"
    "0 \<le> nbins" "num_samp \<noteq> 0" "fswitch \<noteq> 0"
    "float64 (2 * float64 (1 / fswitch)) \<le> t_int" "fswitch_N_dwell rate fswitch \<noteq> 0"
    by blast+
  have on: "(on_blocks src num_samp fc (nat (fswitch_num_loops rate fswitch num_samp))
      [0 ..< nat (fswitch_num_dwells rate t_int fswitch)] = [])
      = (\<not> (0 < fswitch_num_loops rate fswitch num_samp
            \<and> 0 < fswitch_num_dwells rate t_int fswitch))"
    unfolding on_blocks_Nil_iff by auto
  have off: "(off_blocks src num_samp fthrow (nat (fswitch_num_loops rate fswitch num_samp))
      [0 ..< nat (fswitch_num_dwells rate t_int fswitch)] = [])
      = (\<not> (0 < fswitch_num_loops rate fswitch num_samp
            \<and> 1 < fswitch_num_dwells rate t_int fswitch))"
    unfolding off_blocks_Nil_iff by auto
  show "fst (run_fswitch_int fold_args src welch num_samp nbins gain rate fc fthrow t_int fswitch)
    = Inr (map (\<lambda>f. f + fc)
             (fftshift (if 0 < fswitch_num_loops rate fswitch num_samp
                           \<and> 0 < fswitch_num_dwells rate t_int fswitch then ax'
                        else replicate (nat nbins) 0)),
           map (\<lambda>f. f + fthrow)
             (fftshift (if 0 < fswitch_num_loops rate fswitch num_samp
                           \<and> 1 < fswitch_num_dwells rate t_int fswitch then ax'
                        else replicate (nat nbins) 0)),
           map (\<lambda>p. np_div (Fin p)
                  (real (nat (fswitch_num_dwells rate t_int fswitch)
                         * nat (fswitch_num_loops rate fswitch num_samp))))
             (fftshift
               (add_periodograms welch rate nbins None (replicate (nat nbins) 0)
                  (on_blocks src num_samp fc (nat (fswitch_num_loops rate fswitch num_samp))
                     [0 ..< nat (fswitch_num_dwells rate t_int fswitch)]))),
           map (\<lambda>p. np_div (Fin p)
                  (real (nat (fswitch_num_dwells rate t_int fswitch)
                         * nat (fswitch_num_loops rate fswitch num_samp))))
             (fftshift
               (add_periodograms welch rate nbins None (replicate (nat nbins) 0)
                  (off_blocks src num_samp fthrow (nat (fswitch_num_loops rate fswitch num_samp))
                     [0 ..< nat (fswitch_num_dwells rate t_int fswitch)]))))"
    unfolding run_fswitch_value [where f_throw_fold = fold_args and welch = welch
        and rate = rate and nbins = nbins and num_samp = num_samp and src = src and gain = gain
        and fc = fc and fthrow = fthrow and t_int = t_int and fswitch = fswitch,
        OF h(5,6,2,3,4,7)]
      last_freqs_const [where welch = welch and fs = rate and n = nbins
        and m = None and ax = ax', OF h(1)] on off
    by (simp add: fold_args_def)
next
  show "length (fftshift xs) = length xs"
    by (rule length_fftshift)
next
  assume "i < length xs"
  then show "fftshift xs ! i = xs ! ((i + (length xs - length xs div 2)) mod length xs)"
    by (rule fftshift_nth)
next
  assume "xs \<noteq> []"
  then show "fftshift xs ! (length xs div 2) = xs ! 0"
    by (rule fftshift_middle)
next
  assume "j < n"
  then show "fftshift (fftfreq n d) ! j = (real j - real (n div 2)) / (d * real n)"
    by (rule fftshift_fftfreq_nth)
qed

lemma spectrum_num_loops_tenth:
  "spectrum_num_loops 2400000 (float64 (1 / 10)) 262144 = 1"
proof -
  have v: "float64 (2400000 * float64 (1 / 10)) = 240000"
    unfolding float64_tenth
    using float64_at [where x = "2400000 * (3602879701896397 / 36028797018963968)"
        and e = 17 and n = 8246337208320000]
    by (simp add: powr_neg_numeral powr_numeral)
  have w: "float64 (1875 / 2048) = 1875 / 2048"
    using float64_dyadic [of 1875 11] by simp
  show ?thesis
    by (simp add: spectrum_num_loops_def py_int_def v w)
qed

text \<open>
  C8 on four runs with two bins. An averaged spectrum at 2.4 MHz with blocks of
  262144 samples and \<^verbatim>\<open>t_int = 0.1\<close> reads one block: \<^verbatim>\<open>welch\<close> returns the axis
  \<open>[0, -1200000]\<close> and the run returns it rotated and moved to 1420 MHz. At 8
  samples per second \<^verbatim>\<open>welch\<close> returns \<open>[0, -4]\<close> and both runs return \<open>[-4, 0]\<close>
  moved to the centre frequencies 100 and 101. A frequency-switched run that
  reads no block returns the initial zeros moved to 100 and to 101.
\<close>

theorem recentred_axis_witness:
  "fst (run_spectrum_int ones_source flat_welch boxcar 262144 2 0 2400000 1420000000
          (float64 (1 / 10)))
     = Inr ([1418800000, 1420000000], [NonFinite, NonFinite])
   \<and> fst (run_spectrum_int ones_source flat_welch boxcar 8 2 0 8 100 2)
     = Inr ([96, 100], [Fin (10 * log 10 (3 / 8)), Fin (10 * log 10 (3 / 8))])
   \<and> fst (run_fswitch_int fold_args ones_source flat_welch 8 2 0 8 100 101 2 1)
     = Inr ([96, 100], [97, 101], [Fin (1 / 2), Fin (1 / 2)], [Fin (1 / 2), Fin (1 / 2)])
   \<and> fst (run_fswitch_int fold_args ones_source flat_welch 262144 2 0 2400000 100 101
            (float64 (1 / 5)) 10)
     = Inr ([100, 100], [101, 101], [NonFinite, NonFinite], [NonFinite, NonFinite])"
proof -
  have nd: "fswitch_N_dwell 8 1 = 8"
    by (simp add: fswitch_N_dwell_def py_int_def)
  have nl: "fswitch_num_loops 8 1 8 = 1"
    by (simp add: fswitch_num_loops_def nd)
  have d: "fswitch_num_dwells 8 2 1 = 2"
    by (simp add: fswitch_num_dwells_def nd py_int_def)
  have sl: "spectrum_num_loops 8 2 8 = 3"
    by (simp add: spectrum_num_loops_def py_int_def)
  have ax: "fftfreq 2 (1 / 8) = [0, - 4]"
    by (simp add: fftfreq_def upt_0_2)
  have axm: "fftfreq 2 (1 / 2400000) = [0, - 1200000]"
    by (simp add: fftfreq_def upt_0_2)
  have np: "spectrum_nperseg 2 = 2"
    by (simp add: spectrum_nperseg_def)
  have nle: "fswitch_num_loops 2400000 10 262144 = 0"
    by (simp add: fswitch_num_loops_def fswitch_N_dwell_tenth)
  have "float64 (2 * float64 (1 / 10)) = float64 (1 / 5)"
    using fswitch_threshold [of 10] by simp
  then have th: "float64 (2 * float64 (1 / 10)) \<le> float64 (1 / 5)"
    by simp
  have hs: "(\<forall>iq. fst (flat_welch iq 8 (spectrum_nperseg 2) (Some 2)) = [0, - 4])
      \<and> (\<forall>iq. length (snd (flat_welch iq 8 (spectrum_nperseg 2) (Some 2))) = nat 2)
      \<and> (0::int) \<le> 2 \<and> (8::int) \<noteq> 0 \<and> (8::real) \<noteq> 0"
    by (simp add: flat_welch_len flat_welch_axis ax)
  have hm: "(\<forall>iq. fst (flat_welch iq 2400000 (spectrum_nperseg 2) (Some 2)) = [0, - 1200000])
      \<and> (\<forall>iq. length (snd (flat_welch iq 2400000 (spectrum_nperseg 2) (Some 2))) = nat 2)
      \<and> (0::int) \<le> 2 \<and> (262144::int) \<noteq> 0 \<and> (2400000::real) \<noteq> 0"
    by (simp add: flat_welch_len flat_welch_axis axm)
  have hf: "(\<forall>iq. fst (flat_welch iq 8 2 None) = [0, - 4])
      \<and> (\<forall>iq. length (snd (flat_welch iq 8 2 None)) = nat 2)
      \<and> (0::int) \<le> 2 \<and> (8::int) \<noteq> 0
      \<and> (1::real) \<noteq> 0 \<and> float64 (2 * float64 (1 / 1)) \<le> (2::real)
      \<and> fswitch_N_dwell 8 1 \<noteq> 0"
    by (simp add: flat_welch_len flat_welch_axis ax nd)
  have he: "(\<forall>iq. fst (flat_welch iq 2400000 2 None) = [0, - 1200000])
      \<and> (\<forall>iq. length (snd (flat_welch iq 2400000 2 None)) = nat 2)
      \<and> (0::int) \<le> 2 \<and> (262144::int) \<noteq> 0
      \<and> (10::real) \<noteq> 0 \<and> float64 (2 * float64 (1 / 10)) \<le> float64 (1 / 5)
      \<and> fswitch_N_dwell 2400000 10 \<noteq> 0"
    using th by (simp add: flat_welch_len flat_welch_axis axm fswitch_N_dwell_tenth)
  note rs = recentred_axis [where welch = flat_welch and src = ones_source
      and get_window = boxcar and rate = 8 and nbins = 2 and num_samp = 8 and gain = 0
      and fc = 100 and t_int = 2 and ax = "[0, - 4]", THEN conjunct1, THEN mp, OF hs]
  note rm = recentred_axis [where welch = flat_welch and src = ones_source
      and get_window = boxcar and rate = 2400000 and nbins = 2 and num_samp = 262144 and gain = 0
      and fc = 1420000000 and t_int = "float64 (1 / 10)" and ax = "[0, - 1200000]",
      THEN conjunct1, THEN mp, OF hm]
  note rf = recentred_axis [where welch = flat_welch and src = ones_source
      and rate = 8 and nbins = 2 and num_samp = 8 and gain = 0
      and fc = 100 and fthrow = 101 and t_int = 2 and fswitch = 1 and ax' = "[0, - 4]",
      THEN conjunct2, THEN conjunct1, THEN mp, OF hf]
  note re = recentred_axis [where welch = flat_welch and src = ones_source
      and rate = 2400000 and nbins = 2 and num_samp = 262144 and gain = 0
      and fc = 100 and fthrow = 101 and t_int = "float64 (1 / 5)" and fswitch = 10
      and ax' = "[0, - 1200000]",
      THEN conjunct2, THEN conjunct1, THEN mp, OF he]
  have aps: "add_periodograms flat_welch fs (spectrum_nperseg 2) (Some 2) (replicate (nat 2) 0) bs
      = replicate 2 (real (length bs))" for bs fs
    using add_periodograms_flat(1) [of fs "spectrum_nperseg 2" 2 0 bs] by simp
  have apf: "add_periodograms flat_welch fs 2 None (replicate (nat 2) 0) bs
      = replicate 2 (real (length bs))" for bs fs
    using add_periodograms_flat(2) [of fs 2 0 bs] by simp
  have db: "p_avg_db_hz (p_avg_hz [1, 1] 8 [Fin (3 / 2), Fin (3 / 2)])
      = [Fin (10 * log 10 (3 / 8)), Fin (10 * log 10 (3 / 8))]"
    by (simp add: p_avg_db_hz_def p_avg_hz_def win_factor_def np_div_def np_mul_def np_log10_def)
  have db0: "p_avg_db_hz (p_avg_hz [1, 1] 2400000 [NonFinite, NonFinite])
      = [NonFinite, NonFinite]"
    by (simp add: p_avg_db_hz_def p_avg_hz_def win_factor_def np_div_def np_mul_def np_log10_def)
  have win: "boxcar (spectrum_nperseg 2) = [1, 1]"
    by (simp add: boxcar_def np replicate_2)
  show ?thesis
  proof (intro conjI)
    show "fst (run_spectrum_int ones_source flat_welch boxcar 262144 2 0 2400000 1420000000
          (float64 (1 / 10)))
       = Inr ([1418800000, 1420000000], [NonFinite, NonFinite])"
      unfolding rm aps
      by (simp add: spectrum_num_loops_tenth win fftshift_2 replicate_2 np_div_def db0)
    show "fst (run_spectrum_int ones_source flat_welch boxcar 8 2 0 8 100 2)
       = Inr ([96, 100], [Fin (10 * log 10 (3 / 8)), Fin (10 * log 10 (3 / 8))])"
      unfolding rs aps
      by (simp add: sl win fftshift_2 replicate_2 np_div_def db)
    show "fst (run_fswitch_int fold_args ones_source flat_welch 8 2 0 8 100 101 2 1)
       = Inr ([96, 100], [97, 101], [Fin (1 / 2), Fin (1 / 2)], [Fin (1 / 2), Fin (1 / 2)])"
      unfolding rf apf
      by (simp add: nl d on_blocks_def off_blocks_def dwell_blocks_def upt_0_2 fftshift_2
          np_div_def replicate_2)
    show "fst (run_fswitch_int fold_args ones_source flat_welch 262144 2 0 2400000 100 101
            (float64 (1 / 5)) 10)
       = Inr ([100, 100], [101, 101], [NonFinite, NonFinite], [NonFinite, NonFinite])"
      unfolding re apf
      by (simp add: nle fswitch_num_dwells_fifth on_blocks_def off_blocks_def dwell_blocks_def
          upt_0_2 fftshift_2 np_div_def replicate_2)
  qed
qed

section \<open>The two axes at the folding step\<close>

lemma run_fswitch_Inr:
  assumes "fst (run_fswitch_int F src welch num_samp nbins gain rate fc fthrow t_int fswitch) = Inr r"
  shows "fswitch \<noteq> 0" and "float64 (2 * float64 (1 / fswitch)) \<le> t_int" and "num_samp \<noteq> 0"
    and "fswitch_N_dwell rate fswitch \<noteq> 0" and "0 \<le> nbins"
proof -
  show a: "fswitch \<noteq> 0"
    using assms by (auto simp add: run_fswitch_int_def)
  show b: "float64 (2 * float64 (1 / fswitch)) \<le> t_int"
    using assms a by (auto simp add: run_fswitch_int_def split: if_splits)
  have t: "\<exists>x. fst (fswitch_try src welch num_samp nbins gain rate fc fthrow t_int fswitch) = Inr x"
    using assms a b
    by (auto simp add: run_fswitch_int_def split: if_splits sum.splits prod.splits)
  have rs: "dev_rs (set_gain gain (set_fc fc (set_rs rate sdr_open))) = rate"
    by (simp add: set_gain_def set_fc_def set_rs_def sdr_open_def)
  show "num_samp \<noteq> 0"
    using t by (auto simp add: fswitch_try_def Let_def)
  show "fswitch_N_dwell rate fswitch \<noteq> 0"
    using t by (auto simp add: fswitch_try_def Let_def rs fswitch_N_dwell_def split: if_splits)
  show "0 \<le> nbins"
    using t by (auto simp add: fswitch_try_def Let_def np_zeros_def split: if_splits)
qed

lemma fswitch_two_dwells:
  assumes "0 < rate" and "0 < fswitch" and "float64 (2 * float64 (1 / fswitch)) \<le> t_int"
    and "fswitch_N_dwell rate fswitch \<noteq> 0"
  shows "2 \<le> fswitch_num_dwells rate t_int fswitch"
proof -
  let ?p = "float64 (1 / fswitch)"
  let ?q = "float64 (rate * ?p)"
  have p: "0 < ?p"
    using assms(2) by (intro float64_pos) simp
  then have rp: "0 < rate * ?p"
    using assms(1) by simp
  then have q: "0 < ?q"
    by (rule float64_pos)
  then have nd: "fswitch_N_dwell rate fswitch = \<lfloor>?q\<rfloor>"
    by (simp add: fswitch_N_dwell_def py_int_def)
  have "0 \<le> \<lfloor>?q\<rfloor>"
    using q by simp
  then have pos: "0 < \<lfloor>?q\<rfloor>"
    using assms(4) nd by linarith
  have "float64 (2 * ?p) = 2 * ?p"
    by (simp only: float64_scale2 float64_idem)
  then have t: "2 * ?p \<le> t_int"
    using assms(3) by simp
  have "rate * (2 * ?p) \<le> rate * t_int"
    using assms(1) t by (intro mult_left_mono) simp_all
  then have ge: "2 * (rate * ?p) \<le> rate * t_int"
    by (simp add: algebra_simps)
  have "0 < 2 * (rate * ?p)"
    using rp by simp
  then have "float64 (2 * (rate * ?p)) \<le> float64 (rate * t_int)"
    using ge by (rule float64_mono_pos)
  then have fge: "2 * ?q \<le> float64 (rate * t_int)"
    by (simp only: float64_scale2)
  have "real_of_int \<lfloor>?q\<rfloor> \<le> ?q"
    by (rule of_int_floor_le)
  then have "real_of_int (2 * \<lfloor>?q\<rfloor>) \<le> 2 * ?q"
    by (simp only: of_int_mult of_int_numeral)
  then have "real_of_int (2 * \<lfloor>?q\<rfloor>) \<le> float64 (rate * t_int)"
    using fge by linarith
  then have fl: "2 * \<lfloor>?q\<rfloor> \<le> \<lfloor>float64 (rate * t_int)\<rfloor>"
    by (simp only: le_floor_iff)
  have "0 \<le> float64 (rate * t_int)"
    using fge q by linarith
  then have n: "py_int (float64 (rate * t_int)) = \<lfloor>float64 (rate * t_int)\<rfloor>"
    by (simp add: py_int_def)
  have "(2 * \<lfloor>?q\<rfloor>) div \<lfloor>?q\<rfloor> \<le> \<lfloor>float64 (rate * t_int)\<rfloor> div \<lfloor>?q\<rfloor>"
    using fl pos by (rule zdiv_mono1)
  moreover have "\<lfloor>?q\<rfloor> \<noteq> 0"
    using pos by linarith
  then have "(2 * \<lfloor>?q\<rfloor>) div \<lfloor>?q\<rfloor> = 2"
    by (rule nonzero_mult_div_cancel_right)
  ultimately show ?thesis
    unfolding fswitch_num_dwells_def nd n by linarith
qed

lemma fftshift_zeros: "fftshift (replicate n (0::real)) = replicate n 0"
  by (simp add: fftshift_def Let_def replicate_add [symmetric])


lemma fold_axes:
  assumes "fst (run_fswitch_int F src welch num_samp nbins gain rate fc fthrow t_int fswitch) = Inr r"
    and "\<forall>iq. fst (welch iq rate nbins None) = ax"
    and "\<forall>iq. length (snd (welch iq rate nbins None)) = nat nbins"
    and "0 < rate" and "0 < fswitch"
  shows "\<exists>A p_on p_off.
      r = F (map (\<lambda>f. f + fc) (fftshift A)) (map (\<lambda>f. f + fthrow) (fftshift A)) p_on p_off
    \<and> (A = ax \<or> A = replicate (nat nbins) 0)"
proof -
  note c = run_fswitch_Inr [OF assms(1)]
  let ?L = "nat (fswitch_num_loops rate fswitch num_samp)"
  let ?D = "nat (fswitch_num_dwells rate t_int fswitch)"
  have D: "1 < ?D"
    using fswitch_two_dwells [OF assms(4,5) c(2,4)] by simp
  note v = run_fswitch_value [where f_throw_fold = F and welch = welch
        and rate = rate and nbins = nbins and num_samp = num_samp and src = src and gain = gain
        and fc = fc and fthrow = fthrow and t_int = t_int and fswitch = fswitch,
        OF c(1,2) assms(3) c(5,3,4),
        unfolded last_freqs_const [where welch = welch and fs = rate and n = nbins
        and m = None and ax = ax, OF assms(2)]]
  show ?thesis
  proof (cases "?L = 0")
    case True
    have "on_blocks src num_samp fc ?L [0 ..< ?D] = []" "off_blocks src num_samp fthrow ?L [0 ..< ?D] = []"
      unfolding True by (rule blocks_no_reads)+
    then show ?thesis
      using v assms(1) by auto
  next
    case False
    then have "on_blocks src num_samp fc ?L [0 ..< ?D] \<noteq> []" "off_blocks src num_samp fthrow ?L [0 ..< ?D] \<noteq> []"
      using D by (simp_all add: on_blocks_not_Nil off_blocks_not_Nil)
    then show ?thesis
      using v assms(1) by auto
  qed
qed

text \<open>
  Claim C10. Whenever \<^verbatim>\<open>run_fswitch_int\<close> returns a folded result, for a positive
  sample rate and switching rate and a \<^verbatim>\<open>welch\<close> whose frequency axis \<open>ax\<close> is the same
  for every block, the two axes handed to the folder have the same length, bin \<open>i\<close>
  of the off axis minus bin \<open>i\<close> of the on axis is \<open>fthrow - fc\<close>, and neighbouring
  bins are equally far apart on both; when \<open>ax\<close> is the axis \<open>fftfreq\<close> of the
  library, that distance is one constant for all bins.
\<close>

theorem fold_axes_translated:
  assumes "fst (run_fswitch_int f_throw_fold src welch num_samp nbins gain rate fc fthrow t_int fswitch)
             = Inr r"
    and "\<forall>iq. fst (welch iq rate nbins None) = ax"
    and "\<forall>iq. length (snd (welch iq rate nbins None)) = nat nbins"
    and "0 < rate" and "0 < fswitch"
  shows "\<exists>f_on f_off p_on p_off.
      r = f_throw_fold f_on f_off p_on p_off
    \<and> length f_off = length f_on
    \<and> (\<forall>i < length f_on. f_off ! i - f_on ! i = fthrow - fc)
    \<and> (\<forall>i. Suc i < length f_on \<longrightarrow> f_off ! Suc i - f_off ! i = f_on ! Suc i - f_on ! i)
    \<and> (ax = fftfreq (nat nbins) (1 / rate) \<longrightarrow>
         (\<exists>\<delta>. \<forall>i. Suc i < length f_on \<longrightarrow>
                f_on ! Suc i - f_on ! i = \<delta> \<and> f_off ! Suc i - f_off ! i = \<delta>))"
proof -
  from fold_axes [OF assms]
  obtain A p_on p_off where
    r: "r = f_throw_fold (map (\<lambda>f. f + fc) (fftshift A)) (map (\<lambda>f. f + fthrow) (fftshift A)) p_on p_off"
    and A: "A = ax \<or> A = replicate (nat nbins) 0"
    by blast
  let ?on = "map (\<lambda>f. f + fc) (fftshift A)"
  let ?off = "map (\<lambda>f. f + fthrow) (fftshift A)"
  have len: "length ?off = length ?on"
    by simp
  have diff: "\<forall>i < length ?on. ?off ! i - ?on ! i = fthrow - fc"
    by simp
  have space: "\<forall>i. Suc i < length ?on \<longrightarrow> ?off ! Suc i - ?off ! i = ?on ! Suc i - ?on ! i"
    by simp
  have uni: "\<exists>\<delta>. \<forall>i. Suc i < length ?on \<longrightarrow>
                ?on ! Suc i - ?on ! i = \<delta> \<and> ?off ! Suc i - ?off ! i = \<delta>"
    if "ax = fftfreq (nat nbins) (1 / rate)"
  proof -
    from A show ?thesis
    proof
      assume "A = ax"
      then have a: "A = fftfreq (nat nbins) (1 / rate)"
        using that by simp
      have n: "length (fftshift A) = nat nbins"
        by (simp add: a length_fftshift fftfreq_def)
      have "fftshift A ! Suc i - fftshift A ! i = 1 / (1 / rate * real (nat nbins))"
        if "Suc i < nat nbins" for i
      proof -
        have "i < nat nbins" using that by simp
        then show ?thesis
          unfolding a fftshift_fftfreq_nth [OF that] fftshift_fftfreq_nth [OF \<open>i < nat nbins\<close>]
          by (simp add: diff_divide_distrib [symmetric] algebra_simps)
      qed
      then show ?thesis
        using n by (intro exI [of _ "1 / (1 / rate * real (nat nbins))"]) simp
    next
      assume "A = replicate (nat nbins) 0"
      then show ?thesis
        by (intro exI [of _ 0]) (simp add: fftshift_zeros)
    qed
  qed
  show ?thesis
    using r len diff space uni by blast
qed


lemma fswitch_example_fc:
  "fst (run_fswitch_int fold_args ones_source flat_welch 8 2 0 8 fc fthrow 2 1)
     = Inr ([fc - 4, fc], [fthrow - 4, fthrow],
            [Fin (1 / 2), Fin (1 / 2)], [Fin (1 / 2), Fin (1 / 2)])"
proof -
  have nd: "fswitch_N_dwell 8 1 = 8"
    by (simp add: fswitch_N_dwell_def py_int_def)
  have nl: "fswitch_num_loops 8 1 8 = 1"
    by (simp add: fswitch_num_loops_def nd)
  have d: "fswitch_num_dwells 8 2 1 = 2"
    by (simp add: fswitch_num_dwells_def nd py_int_def)
  have ax: "fftfreq 2 (1 / 8) = [0, - 4]"
    by (simp add: fftfreq_def upt_0_2)
  from fswitch_flat [where num_samp = 8 and rate = 8 and fswitch = 1 and t_int = 2
      and gain = 0 and fc = fc and fthrow = fthrow]
  obtain st dv where
    t: "fswitch_try ones_source flat_welch 8 2 0 8 fc fthrow 2 1 =
        (Inr (([fc - 4, fc], [fthrow - 4, fthrow],
               [Fin (1 / 2), Fin (1 / 2)], [Fin (1 / 2), Fin (1 / 2)]), st), dv)"
    by (auto simp add: nd nl d on_blocks_def off_blocks_def dwell_blocks_def upt_0_2 ax
        fftshift_2 np_div_def replicate_2)
  show ?thesis
    using run_fswitch_ok [where F = fold_args and fswitch = 1 and t_int = 2, OF _ _ t]
    by (simp add: fold_args_def)
qed

text \<open>
  C10 at \<open>fc = 100\<close> and \<open>fthrow = 101\<close>: the off axis is the on axis moved by 1.
\<close>

theorem fold_axes_translated_witness:
  "\<exists>f_on f_off p_on p_off.
      fst (run_fswitch_int fold_args ones_source flat_welch 8 2 0 8 100 101 2 1)
        = Inr (f_on, f_off, p_on, p_off)
    \<and> length f_on = 2 \<and> length f_off = 2
    \<and> f_off ! 0 - f_on ! 0 = 1 \<and> f_off ! 1 - f_on ! 1 = 1
    \<and> f_off ! 1 - f_off ! 0 = f_on ! 1 - f_on ! 0"
proof -
  let ?P = "[Fin (1 / 2), Fin (1 / 2)]"
  have run: "fst (run_fswitch_int fold_args ones_source flat_welch 8 2 0 8 100 101 2 1)
      = Inr ([96, 100], [97, 101], ?P, ?P)"
    using fswitch_example_fc [of 100 101] by simp
  have h: "\<forall>iq. fst (flat_welch iq 8 2 None) = fftfreq 2 (1 / 8)"
    "\<forall>iq. length (snd (flat_welch iq 8 2 None)) = nat 2"
    "(0::real) < 8" "(0::real) < 1"
    by (simp_all add: flat_welch_len flat_welch_axis)
  from fold_axes_translated [OF run h]
  obtain f_on f_off p_on p_off where
    r: "([96, 100], [97, 101], ?P, ?P) = fold_args f_on f_off p_on p_off"
    and l: "length f_off = length f_on"
    and d: "\<forall>i < length f_on. f_off ! i - f_on ! i = 101 - 100"
    and s: "\<forall>i. Suc i < length f_on \<longrightarrow> f_off ! Suc i - f_off ! i = f_on ! Suc i - f_on ! i"
    by blast
  from r have on: "f_on = [96, 100]" and off: "f_off = [97, 101]"
    and p: "p_on = ?P" "p_off = ?P"
    by (auto simp add: fold_args_def)
  have n: "length f_on = 2"
    by (simp add: on)
  have d0: "f_off ! 0 - f_on ! 0 = 1" and d1: "f_off ! 1 - f_on ! 1 = 1"
    using d n by simp_all
  have s0: "f_off ! 1 - f_off ! 0 = f_on ! 1 - f_on ! 0"
    using s [rule_format, of 0] n by simp
  show ?thesis
    using run r n l d0 d1 s0 by (simp add: fold_args_def) 
qed

section \<open>The switching schedule\<close>

lemma upt_0_5: "[0..<5] = [0, 1, 2, 3, 4]"
  by (simp add: upt_rec)

lemma fswitch_N_dwell_floor:
  assumes "0 \<le> rate" and "0 < fswitch"
  shows "fswitch_N_dwell rate fswitch = \<lfloor>float64 (rate * float64 (1 / fswitch))\<rfloor>"
proof -
  have "0 < float64 (1 / fswitch)"
    using assms(2) by (intro float64_pos) simp
  then have "0 \<le> rate * float64 (1 / fswitch)"
    using assms(1) by simp
  then have "0 \<le> float64 (rate * float64 (1 / fswitch))"
    by (rule float64_nonneg)
  then show ?thesis
    by (simp add: fswitch_N_dwell_def py_int_def)
qed

lemma fswitch_num_loops_floor:
  assumes "0 \<le> rate" and "0 < fswitch"
  shows "fswitch_num_loops rate fswitch num_samp
     = \<lfloor>real_of_int \<lfloor>float64 (rate * float64 (1 / fswitch))\<rfloor> / real_of_int num_samp\<rfloor>"
  unfolding fswitch_num_loops_def fswitch_N_dwell_floor [OF assms]
  by (simp only: floor_divide_of_int_eq)

lemma fswitch_num_dwells_floor:
  assumes "0 \<le> rate" and "0 < fswitch" and "0 \<le> t_int"
  shows "fswitch_num_dwells rate t_int fswitch
     = \<lfloor>real_of_int \<lfloor>float64 (rate * t_int)\<rfloor>
         / real_of_int \<lfloor>float64 (rate * float64 (1 / fswitch))\<rfloor>\<rfloor>"
proof -
  have "0 \<le> rate * t_int"
    using assms(1,3) by simp
  then have "0 \<le> float64 (rate * t_int)"
    by (rule float64_nonneg)
  then have "py_int (float64 (rate * t_int)) = \<lfloor>float64 (rate * t_int)\<rfloor>"
    by (simp add: py_int_def)
  then show ?thesis
    unfolding fswitch_num_dwells_def fswitch_N_dwell_floor [OF assms(1,2)]
    by (simp only: floor_divide_of_int_eq)
qed

lemma fswitch_try_no_dwell:
  assumes "fswitch_N_dwell rate fswitch = 0"
  shows "fswitch_try src welch num_samp nbins gain rate fc fthrow t_int fswitch
           = (Inl ZeroDivisionError, set_gain gain (set_fc fc (set_rs rate sdr_open)))"
proof -
  have rs: "dev_rs (set_gain gain (set_fc fc (set_rs rate sdr_open))) = rate"
    by (simp add: set_gain_def set_fc_def set_rs_def sdr_open_def)
  show ?thesis
    using assms by (simp add: fswitch_try_def Let_def rs fswitch_N_dwell_def)
qed

text \<open>
  Claim C6, as the code has it. The two sample counts are float products truncated
  to integers: \<open>N = \<lfloor>float64 (rate * t_int)\<rfloor>\<close> and
  \<open>N_dwell = \<lfloor>float64 (rate * float64 (1 / fswitch))\<rfloor>\<close>. A dwell of no sample makes the
  run fail with \<^verbatim>\<open>ZeroDivisionError\<close>. Otherwise, with periodograms of \<^verbatim>\<open>nbins\<close>
  bins, the loops run \<open>num_dwells = \<lfloor>N / N_dwell\<rfloor>\<close> dwells of
  \<open>num_loops = \<lfloor>N_dwell / num_samp\<rfloor>\<close> reads each: dwell \<open>i\<close> retunes to \<open>fc\<close> when \<open>i\<close> is
  even (the first one is) and to \<open>fthrow\<close> when it is odd, the periodograms of the
  blocks of the even dwells, and only those, are summed in \<^verbatim>\<open>p_xx_on\<close>, those of the
  odd dwells in \<^verbatim>\<open>p_xx_off\<close>.
\<close>

theorem switch_schedule:
  assumes "\<forall>iq. length (snd (welch iq rate nbins None)) = nat nbins"
    and "0 \<le> nbins" and "num_samp \<noteq> 0"
  shows "(fswitch_N_dwell rate fswitch \<noteq> 0 \<longrightarrow>
     (\<exists>x st d.
        fswitch_try src welch num_samp nbins gain rate fc fthrow t_int fswitch = (Inr (x, st), d)
      \<and> calls d = [RtlSdr, SetRs rate, SetFc fc, SetGain gain] @
           concat (map (\<lambda>i. dwell_calls (if even i then fc else fthrow) num_samp rate nbins
                              (nat (fswitch_num_loops rate fswitch num_samp)))
                     [0 ..< nat (fswitch_num_dwells rate t_int fswitch)])
      \<and> p_xx_on st = add_periodograms welch rate nbins None (replicate (nat nbins) 0)
           (on_blocks src num_samp fc (nat (fswitch_num_loops rate fswitch num_samp))
              [0 ..< nat (fswitch_num_dwells rate t_int fswitch)])
      \<and> p_xx_off st = add_periodograms welch rate nbins None (replicate (nat nbins) 0)
           (off_blocks src num_samp fthrow (nat (fswitch_num_loops rate fswitch num_samp))
              [0 ..< nat (fswitch_num_dwells rate t_int fswitch)])
      \<and> cnt st = int (nat (fswitch_num_dwells rate t_int fswitch)
                       * nat (fswitch_num_loops rate fswitch num_samp))))
   \<and> (fswitch_N_dwell rate fswitch = 0 \<longrightarrow>
        fst (fswitch_try src welch num_samp nbins gain rate fc fthrow t_int fswitch)
          = Inl ZeroDivisionError)
   \<and> (0 \<le> rate \<and> 0 < fswitch \<longrightarrow>
        fswitch_N_dwell rate fswitch = \<lfloor>float64 (rate * float64 (1 / fswitch))\<rfloor>
      \<and> fswitch_num_loops rate fswitch num_samp
          = \<lfloor>real_of_int \<lfloor>float64 (rate * float64 (1 / fswitch))\<rfloor> / real_of_int num_samp\<rfloor>)
   \<and> (0 \<le> rate \<and> 0 < fswitch \<and> 0 \<le> t_int \<longrightarrow>
        fswitch_num_dwells rate t_int fswitch
          = \<lfloor>real_of_int \<lfloor>float64 (rate * t_int)\<rfloor>
              / real_of_int \<lfloor>float64 (rate * float64 (1 / fswitch))\<rfloor>\<rfloor>)"
proof (intro conjI impI)
  assume nz: "fswitch_N_dwell rate fswitch \<noteq> 0"
  from fswitch_try_ok [where src = src and gain = gain and fc = fc and fthrow = fthrow
      and t_int = t_int and welch = welch and rate = rate and nbins = nbins
      and num_samp = num_samp and fswitch = fswitch, OF assms nz]
  show "\<exists>x st d.
      fswitch_try src welch num_samp nbins gain rate fc fthrow t_int fswitch = (Inr (x, st), d)
    \<and> calls d = [RtlSdr, SetRs rate, SetFc fc, SetGain gain] @
         concat (map (\<lambda>i. dwell_calls (if even i then fc else fthrow) num_samp rate nbins
                            (nat (fswitch_num_loops rate fswitch num_samp)))
                   [0 ..< nat (fswitch_num_dwells rate t_int fswitch)])
    \<and> p_xx_on st = add_periodograms welch rate nbins None (replicate (nat nbins) 0)
         (on_blocks src num_samp fc (nat (fswitch_num_loops rate fswitch num_samp))
            [0 ..< nat (fswitch_num_dwells rate t_int fswitch)])
    \<and> p_xx_off st = add_periodograms welch rate nbins None (replicate (nat nbins) 0)
         (off_blocks src num_samp fthrow (nat (fswitch_num_loops rate fswitch num_samp))
            [0 ..< nat (fswitch_num_dwells rate t_int fswitch)])
    \<and> cnt st = int (nat (fswitch_num_dwells rate t_int fswitch)
                     * nat (fswitch_num_loops rate fswitch num_samp))"
    by blast
next
  assume "fswitch_N_dwell rate fswitch = 0"
  then show "fst (fswitch_try src welch num_samp nbins gain rate fc fthrow t_int fswitch)
          = Inl ZeroDivisionError"
    by (simp add: fswitch_try_no_dwell)
next
  assume "0 \<le> rate \<and> 0 < fswitch"
  then show "fswitch_N_dwell rate fswitch = \<lfloor>float64 (rate * float64 (1 / fswitch))\<rfloor>"
    by (simp add: fswitch_N_dwell_floor)
next
  assume "0 \<le> rate \<and> 0 < fswitch"
  then show "fswitch_num_loops rate fswitch num_samp
          = \<lfloor>real_of_int \<lfloor>float64 (rate * float64 (1 / fswitch))\<rfloor> / real_of_int num_samp\<rfloor>"
    by (simp add: fswitch_num_loops_floor)
next
  assume "0 \<le> rate \<and> 0 < fswitch \<and> 0 \<le> t_int"
  then show "fswitch_num_dwells rate t_int fswitch
          = \<lfloor>real_of_int \<lfloor>float64 (rate * t_int)\<rfloor>
              / real_of_int \<lfloor>float64 (rate * float64 (1 / fswitch))\<rfloor>\<rfloor>"
    by (simp add: fswitch_num_dwells_floor)
qed

lemma float64_quarter: "float64 (1 / 4) = 1 / 4" "float64 (5 / 2) = 5 / 2"
  using float64_dyadic [of 1 2] float64_dyadic [of 5 1] by simp_all

lemma schedule_example:
  "snd (run_fswitch_int fold_args ones_source flat_welch 1 2 0 10 0 1 1 4)
     = [RtlSdr, SetRs 10, SetFc 0, SetGain 0]
       @ dwell_calls 0 1 10 2 2 @ dwell_calls 1 1 10 2 2 @ dwell_calls 0 1 10 2 2
       @ dwell_calls 1 1 10 2 2 @ dwell_calls 0 1 10 2 2 @ [Close, Close]"
proof -
  have nd: "fswitch_N_dwell 10 4 = 2"
    by (simp add: fswitch_N_dwell_def py_int_def float64_quarter)
  have nl: "fswitch_num_loops 10 4 1 = 2"
    by (simp add: fswitch_num_loops_def nd)
  have d: "fswitch_num_dwells 10 1 4 = 5"
    by (simp add: fswitch_num_dwells_def nd py_int_def)
  have th: "float64 (2 * float64 (1 / 4)) \<le> 1"
    by (simp add: float64_quarter)
  from fswitch_flat [where num_samp = 1 and rate = 10 and fswitch = 4 and t_int = 1
      and gain = 0 and fc = 0 and fthrow = 1]
  obtain x st dv where
    t: "fswitch_try ones_source flat_welch 1 2 0 10 0 1 1 4 = (Inr (x, st), dv)"
    and c: "calls dv = [RtlSdr, SetRs 10, SetFc 0, SetGain 0]
       @ dwell_calls 0 1 10 2 2 @ dwell_calls 1 1 10 2 2 @ dwell_calls 0 1 10 2 2
       @ dwell_calls 1 1 10 2 2 @ dwell_calls 0 1 10 2 2"
    by (auto simp add: nd nl d upt_0_5)
  obtain f_on f_off p_on p_off where x: "x = (f_on, f_off, p_on, p_off)"
    by (cases x) auto
  show ?thesis
    using run_fswitch_ok [where F = fold_args and fswitch = 4 and t_int = 1, OF _ th t [unfolded x]] c
    by simp
qed

lemma fswitch_num_dwells_three_tenths:
  "fswitch_num_dwells 2400000 (float64 (3 / 10)) 10 = 3"
proof -
  have "float64 (2400000 * float64 (3 / 10)) = 720000"
    unfolding float64_three_tenths
    using float64_at [where x = "2400000 * (5404319552844595 / 18014398509481984)"
        and e = 19 and n = 6184752906240000]
    by (simp add: powr_neg_numeral powr_numeral)
  then show ?thesis
    by (simp add: fswitch_num_dwells_def fswitch_N_dwell_tenth py_int_def)
qed

lemma upt_0_3: "[0..<3] = [0, 1, 2]"
  by (simp add: upt_rec)

lemma schedule_example_three_tenths:
  "snd (run_fswitch_int fold_args ones_source flat_welch 240000 2 0 2400000 0 1 (float64 (3 / 10)) 10)
     = [RtlSdr, SetRs 2400000, SetFc 0, SetGain 0]
       @ dwell_calls 0 240000 2400000 2 1 @ dwell_calls 1 240000 2400000 2 1
       @ dwell_calls 0 240000 2400000 2 1 @ [Close, Close]"
proof -
  note nd = fswitch_N_dwell_tenth
  have nl: "fswitch_num_loops 2400000 10 240000 = 1"
    by (simp add: fswitch_num_loops_def nd)
  note d = fswitch_num_dwells_three_tenths
  have "float64 (2 * float64 (1 / 10)) = float64 (1 / 5)"
    using fswitch_threshold [of 10] by simp
  then have th: "float64 (2 * float64 (1 / 10)) \<le> float64 (3 / 10)"
    by (simp add: float64_fifth float64_three_tenths)
  from fswitch_flat [where num_samp = 240000 and rate = 2400000 and fswitch = 10
      and t_int = "float64 (3 / 10)" and gain = 0 and fc = 0 and fthrow = 1]
  obtain x st dv where
    t: "fswitch_try ones_source flat_welch 240000 2 0 2400000 0 1 (float64 (3 / 10)) 10
          = (Inr (x, st), dv)"
    and c: "calls dv = [RtlSdr, SetRs 2400000, SetFc 0, SetGain 0]
       @ dwell_calls 0 240000 2400000 2 1 @ dwell_calls 1 240000 2400000 2 1
       @ dwell_calls 0 240000 2400000 2 1"
    by (auto simp add: nd nl d upt_0_3)
  obtain f_on f_off p_on p_off where x: "x = (f_on, f_off, p_on, p_off)"
    by (cases x) auto
  show ?thesis
    using run_fswitch_ok [where F = fold_args and fswitch = 10 and t_int = "float64 (3 / 10)",
        OF _ th t [unfolded x]] c
    by simp
qed

lemma fswitch_N_dwell_49: "fswitch_N_dwell 49 49 = 0"
proof -
  have v: "float64 (49 * float64 (1 / 49)) = 9007199254740991 / 9007199254740992"
    unfolding float64_49th
    using float64_at [where x = "49 * (5882252574524729 / 288230376151711744)"
        and e = "- 1" and n = 9007199254740991]
    by (simp add: powr_neg_numeral powr_numeral)
  show ?thesis
    by (simp add: fswitch_N_dwell_def py_int_def v)
qed

lemma schedule_example_49:
  "run_fswitch_int fold_args ones_source flat_welch 1 2 0 49 0 1 1 49
     = (Inl ZeroDivisionError, [RtlSdr, SetRs 49, SetFc 0, SetGain 0, Close])"
proof -
  have "float64 (2 / 49) \<le> float64 1"
    by (rule float64_mono) simp
  then have th: "float64 (2 * float64 (1 / 49)) \<le> 1"
    by (simp add: fswitch_threshold)
  show ?thesis
    using th
    by (simp add: run_fswitch_int_def fswitch_try_no_dwell [OF fswitch_N_dwell_49]
        sdr_close_def set_gain_def set_fc_def set_rs_def sdr_open_def)
qed

text \<open>
  C6 as stated fails.
  At 10 samples per second, 4 switches per second and one second the code runs
  five dwells (\<open>10 div 2\<close>), where \<open>\<lfloor>(10 * 1) / (10 / 4)\<rfloor>\<close> is 4. At 2.4 MHz, 10
  switches per second and \<^verbatim>\<open>t_int = 0.3\<close> the float product \<^verbatim>\<open>rate * t_int\<close> is
  720000 and the code runs three dwells, where the quotient of the exact products
  is below 3. At 49 samples and 49 switches per second the float product
  \<^verbatim>\<open>rate * (1.0/fswitch)\<close> is below 1: the dwell holds no sample and the run fails
  with \<^verbatim>\<open>ZeroDivisionError\<close>, where the stated formulas give 49 dwells of one block.
\<close>

theorem dwell_count_counterexample:
  "snd (run_fswitch_int fold_args ones_source flat_welch 1 2 0 10 0 1 1 4)
     = [RtlSdr, SetRs 10, SetFc 0, SetGain 0]
       @ dwell_calls 0 1 10 2 2 @ dwell_calls 1 1 10 2 2 @ dwell_calls 0 1 10 2 2
       @ dwell_calls 1 1 10 2 2 @ dwell_calls 0 1 10 2 2 @ [Close, Close]
   \<and> length (filter is_retune (snd (run_fswitch_int fold_args ones_source flat_welch 1 2 0 10 0 1 1 4)))
       = 1 + 5
   \<and> \<lfloor>(10 * 1) / (10 / 4 :: real)\<rfloor> = 4
   \<and> length (filter is_retune
        (snd (run_fswitch_int fold_args ones_source flat_welch 240000 2 0 2400000 0 1
                (float64 (3 / 10)) 10)))
       = 1 + 3
   \<and> \<lfloor>(2400000 * float64 (3 / 10)) / (2400000 / 10 :: real)\<rfloor> = 2
   \<and> run_fswitch_int fold_args ones_source flat_welch 1 2 0 49 0 1 1 49
       = (Inl ZeroDivisionError, [RtlSdr, SetRs 49, SetFc 0, SetGain 0, Close])
   \<and> \<lfloor>(49 * 1) / (49 / 49 :: real)\<rfloor> = 49 \<and> \<lfloor>(49 / 49 :: real) / 1\<rfloor> = 1"
proof (intro conjI)
  show "snd (run_fswitch_int fold_args ones_source flat_welch 1 2 0 10 0 1 1 4)
     = [RtlSdr, SetRs 10, SetFc 0, SetGain 0]
       @ dwell_calls 0 1 10 2 2 @ dwell_calls 1 1 10 2 2 @ dwell_calls 0 1 10 2 2
       @ dwell_calls 1 1 10 2 2 @ dwell_calls 0 1 10 2 2 @ [Close, Close]"
    by (rule schedule_example)
  show "length (filter is_retune (snd (run_fswitch_int fold_args ones_source flat_welch 1 2 0 10 0 1 1 4)))
       = 1 + 5"
    unfolding schedule_example
    by (simp add: dwell_calls_def is_retune_def numeral_2_eq_2)
  show "\<lfloor>(10 * 1) / (10 / 4 :: real)\<rfloor> = 4"
    by simp
  show "length (filter is_retune
        (snd (run_fswitch_int fold_args ones_source flat_welch 240000 2 0 2400000 0 1
                (float64 (3 / 10)) 10)))
       = 1 + 3"
    unfolding schedule_example_three_tenths
    by (simp add: dwell_calls_def is_retune_def)
  show "\<lfloor>(2400000 * float64 (3 / 10)) / (2400000 / 10 :: real)\<rfloor> = 2"
    by (simp add: float64_three_tenths)
  show "run_fswitch_int fold_args ones_source flat_welch 1 2 0 49 0 1 1 49
       = (Inl ZeroDivisionError, [RtlSdr, SetRs 49, SetFc 0, SetGain 0, Close])"
    by (rule schedule_example_49)
  show "\<lfloor>(49 * 1) / (49 / 49 :: real)\<rfloor> = 49" "\<lfloor>(49 / 49 :: real) / 1\<rfloor> = 1"
    by simp_all
qed

text \<open>
  C6 at 8 samples per second, blocks of 8 samples, one switch per second and two
  seconds: one ON dwell and one OFF dwell of one read each.
\<close>

theorem switch_schedule_witness:
  "\<exists>x st d.
      fswitch_try ones_source flat_welch 8 2 0 8 0 1 2 1 = (Inr (x, st), d)
    \<and> calls d = [RtlSdr, SetRs 8, SetFc 0, SetGain 0,
                  SetFc 0, ReadSamples 8, Welch 8 2 None, SetFc 1, ReadSamples 8, Welch 8 2 None]
    \<and> p_xx_on st = [1, 1] \<and> p_xx_off st = [1, 1] \<and> cnt st = 2
    \<and> fswitch_N_dwell 8 1 = 8 \<and> fswitch_num_loops 8 1 8 = 1 \<and> fswitch_num_dwells 8 2 1 = 2"
proof -
  have nd: "fswitch_N_dwell 8 1 = 8"
    by (simp add: fswitch_N_dwell_def py_int_def)
  have nl: "fswitch_num_loops 8 1 8 = 1"
    by (simp add: fswitch_num_loops_def nd)
  have d: "fswitch_num_dwells 8 2 1 = 2"
    by (simp add: fswitch_num_dwells_def nd py_int_def)
  have h: "\<forall>iq. length (snd (flat_welch iq 8 2 None)) = nat 2"
    "(0::int) \<le> 2" "(8::int) \<noteq> 0"
    by (simp_all add: flat_welch_len)
  have nz: "fswitch_N_dwell 8 1 \<noteq> 0"
    by (simp add: nd)
  have apf: "add_periodograms flat_welch 8 2 None (replicate (nat 2) 0) bs
      = replicate 2 (real (length bs))" for bs
    using add_periodograms_flat(2) [of 8 2 0 bs] by simp
  note r = switch_schedule [where welch = flat_welch and src = ones_source and rate = 8
      and nbins = 2 and num_samp = 8 and fswitch = 1 and gain = 0 and fc = 0 and fthrow = 1
      and t_int = 2, OF h, THEN conjunct1, THEN mp, OF nz, unfolded apf nl d]
  from r
  obtain x st dv where
    t: "fswitch_try ones_source flat_welch 8 2 0 8 0 1 2 1 = (Inr (x, st), dv)"
    and c: "calls dv = [RtlSdr, SetRs 8, SetFc 0, SetGain 0,
                  SetFc 0, ReadSamples 8, Welch 8 2 None, SetFc 1, ReadSamples 8, Welch 8 2 None]"
    and p: "p_xx_on st = [1, 1]" "p_xx_off st = [1, 1]" "cnt st = 2"
    by (auto simp add: on_blocks_def off_blocks_def dwell_blocks_def dwell_calls_def upt_0_2
        replicate_2)
  show ?thesis
    using t c p nd nl d by blast
qed

end
